(* ===== verification/Ezo_Prelude.thy ===== *)
theory Ezo_Prelude
  imports Complex_Main "HOL-Library.Word" "HOL-Library.State_Monad" "HOL-Library.Log_Nat"
begin

text \<open>
  Shared vocabulary of the development: the machine integers and clock values of the C++ code,
  the decimal and hexadecimal printing that \<^verbatim>\<open>std::to_string\<close> and \<^verbatim>\<open>std::hex\<close> perform, C++ truncating division,
  the list operations (\<^verbatim>\<open>std::find_if\<close>, mutation through an iterator) that the components use, and the rules, with the
  locale \<open>frame_order\<close>, for programs that keep a relation between the states before and after them.
\<close>

named_theorems ezo_defs \<open>definitions unfolded when an operation is run symbolically\<close>
named_theorems ezo_inv \<open>preservation facts for the invariants of the components\<close>

section \<open>Machine integers and clock values\<close>

type_synonym u8 = "8 word"
type_synonym u32 = "32 word"
type_synonym u64 = "64 word"

text \<open>
  A \<^verbatim>\<open>time_point\<close> is its count of nanoseconds since the epoch of its clock; a duration in
  milliseconds is obtained by \<^verbatim>\<open>duration_cast\<close>, which truncates towards zero.
\<close>

type_synonym time_point = int

definition int_max :: int where
  "int_max = 2147483647"

definition int_min :: int where
  "int_min = - 2147483648"

text \<open>\<^verbatim>\<open>static_cast<int>\<close> of a wider integer keeps its low 32 bits as a two's complement value.\<close>

definition to_int32 :: "int \<Rightarrow> int" where
  "to_int32 i = (i + 2147483648) mod 4294967296 - 2147483648"

lemma to_int32_id: "int_min \<le> i \<Longrightarrow> i \<le> int_max \<Longrightarrow> to_int32 i = i"
  by (simp add: to_int32_def int_min_def int_max_def)

lemma to_int32_range: "int_min \<le> to_int32 i \<and> to_int32 i \<le> int_max"
  using pos_mod_bound [of 4294967296 "i + 2147483648"]
  by (simp add: to_int32_def int_min_def int_max_def)

definition trunc_div :: "int \<Rightarrow> int \<Rightarrow> int" where
  "trunc_div a b = sgn a * sgn b * (\<bar>a\<bar> div \<bar>b\<bar>)"

definition duration_ms :: "int \<Rightarrow> int" where
  "duration_ms ns = trunc_div ns 1000000"

lemma trunc_div_nonneg [simp]: "0 \<le> a \<Longrightarrow> 0 < b \<Longrightarrow> trunc_div a b = a div b"
  by (cases "a = 0") (simp_all add: trunc_div_def)

lemma trunc_div_neg: "a < 0 \<Longrightarrow> 0 < b \<Longrightarrow> trunc_div a b = - ((- a) div b)"
  by (simp add: trunc_div_def)

lemma trunc_div_bounds:
  assumes "0 < b"
  shows "\<bar>a - b * trunc_div a b\<bar> < b" and "0 \<le> a \<Longrightarrow> 0 \<le> a - b * trunc_div a b"
proof -
  have pos: "0 \<le> x - b * (x div b) \<and> x - b * (x div b) < b" for x :: int
    using assms by (simp add: minus_mult_div_eq_mod)
  show "\<bar>a - b * trunc_div a b\<bar> < b"
  proof (cases "0 \<le> a")
    case True
    then show ?thesis using assms pos [of a] by simp
  next
    case False
    then show ?thesis using assms pos [of "- a"] by (simp add: trunc_div_neg)
  qed
  show "0 \<le> a \<Longrightarrow> 0 \<le> a - b * trunc_div a b"
    using assms pos [of a] by simp
qed

lemma trunc_div_mono: "0 < b \<Longrightarrow> a \<le> a' \<Longrightarrow> trunc_div a b \<le> trunc_div a' b"
proof -
  assume b: "0 < b" and le: "a \<le> a'"
  consider "0 \<le> a" | "a < 0" "0 \<le> a'" | "a < 0" "a' < 0" by linarith
  then show ?thesis
  proof cases
    case 1
    then show ?thesis using b le by (simp add: zdiv_mono1)
  next
    case 2
    then have "0 \<le> (- a) div b" and "0 \<le> a' div b" using b by (simp_all add: pos_imp_zdiv_nonneg_iff)
    then show ?thesis using b 2 by (simp add: trunc_div_neg)
  next
    case 3
    then show ?thesis using b le by (simp add: trunc_div_neg zdiv_mono1)
  qed
qed

section \<open>Decimal and hexadecimal printing\<close>

fun show_digits :: "nat \<Rightarrow> nat \<Rightarrow> string" where
  "show_digits b n =
     (if b < 2 \<or> n < b then [''0123456789abcdef'' ! n]
      else show_digits b (n div b) @ [''0123456789abcdef'' ! (n mod b)])"

declare show_digits.simps [simp del]

definition show_nat :: "nat \<Rightarrow> string" where
  "show_nat n = show_digits 10 n"

definition show_hex :: "nat \<Rightarrow> string" where
  "show_hex n = show_digits 16 n"

definition show_int :: "int \<Rightarrow> string" where
  "show_int i = (if i < 0 then CHR ''-'' # show_nat (nat (- i)) else show_nat (nat i))"

definition show_u64 :: "u64 \<Rightarrow> string" where
  "show_u64 w = show_nat (unat w)"

text \<open>Text between single quotes, as the messages of the source print names.\<close>

definition quoted :: "string \<Rightarrow> string" where
  "quoted s = [CHR 0x27] @ s @ [CHR 0x27]"

text \<open>The reader that inverts \<^const>\<open>show_digits\<close>: the value of a digit string.\<close>

definition digit_value :: "char \<Rightarrow> nat" where
  "digit_value c =
     (let n = of_char c in
      if 48 \<le> n \<and> n \<le> 57 then n - 48 else if 97 \<le> n \<and> n \<le> 102 then n - 87 else 16)"

definition read_digits :: "nat \<Rightarrow> string \<Rightarrow> nat" where
  "read_digits b s = foldl (\<lambda>acc c. acc * b + digit_value c) 0 s"

lemma digit_value_nth: "d < 16 \<Longrightarrow> digit_value (''0123456789abcdef'' ! d) = d"
proof -
  assume "d < 16"
  then have "d \<in> set [0..<16]" by simp
  moreover have "\<forall>d \<in> set [0..<16]. digit_value (''0123456789abcdef'' ! d) = d"
    by (simp add: digit_value_def upt_rec)
  ultimately show ?thesis by blast
qed

lemma read_show_digits: "2 \<le> b \<Longrightarrow> b \<le> 16 \<Longrightarrow> read_digits b (show_digits b n) = n"
proof (induction b n rule: show_digits.induct)
  case (1 b n)
  show ?case
  proof (cases "n < b")
    case True
    then show ?thesis using "1.prems"
      by (subst show_digits.simps) (simp add: read_digits_def digit_value_nth)
  next
    case False
    then have "read_digits b (show_digits b (n div b)) = n div b"
      using 1 by simp
    moreover have "n mod b < 16"
      using "1.prems" by (meson less_le_trans mod_less_divisor pos2)
    ultimately show ?thesis using False "1.prems"
      by (subst show_digits.simps) (simp add: read_digits_def digit_value_nth)
  qed
qed

lemma show_digits_not_Nil [simp]: "show_digits b n \<noteq> []"
  by (subst show_digits.simps) simp

lemma show_digits_inject: "2 \<le> b \<Longrightarrow> b \<le> 16 \<Longrightarrow> show_digits b m = show_digits b n \<longleftrightarrow> m = n"
  by (metis read_show_digits)

lemma show_nat_inject [simp]: "show_nat m = show_nat n \<longleftrightarrow> m = n"
  by (simp add: show_nat_def show_digits_inject)

section \<open>Lists: \<open>std::find_if\<close> and mutation through the iterator it returns\<close>

fun update_first :: "('a \<Rightarrow> bool) \<Rightarrow> ('a \<Rightarrow> 'a) \<Rightarrow> 'a list \<Rightarrow> 'a list" where
  "update_first p f [] = []"
| "update_first p f (x # xs) = (if p x then f x # xs else x # update_first p f xs)"

lemma length_update_first [simp]: "length (update_first p f xs) = length xs"
  by (induction xs) simp_all

lemma update_first_none: "find p xs = None \<Longrightarrow> update_first p f xs = xs"
  by (induction xs) (auto split: if_splits)

lemma find_update_first:
  "find p (update_first p f xs) =
     (case find p xs of None \<Rightarrow> None | Some x \<Rightarrow> if p (f x) then Some (f x) else find p (update_first p f xs))"
  by (induction xs) (auto split: option.splits)

lemma find_update_first_keep:
  "(\<And>x. p (f x) = p x) \<Longrightarrow> find p (update_first p f xs) = map_option f (find p xs)"
  by (induction xs) auto

lemma find_update_first_other:
  "(\<And>x. q (f x) = q x) \<Longrightarrow> (\<And>x. p x \<Longrightarrow> \<not> q x) \<Longrightarrow> find q (update_first p f xs) = find q xs"
  by (induction xs) auto

lemma map_update_first: "(\<And>x. g (f x) = g x) \<Longrightarrow> map g (update_first p f xs) = map g xs"
  by (induction xs) auto

lemma list_all_update_first:
  "list_all P xs \<Longrightarrow> (\<And>x. p x \<Longrightarrow> P x \<Longrightarrow> P (f x)) \<Longrightarrow> list_all P (update_first p f xs)"
  by (induction xs) auto

lemma update_first_update_first:
  "(\<And>x. p x \<Longrightarrow> p (f x)) \<Longrightarrow> update_first p g (update_first p f xs) = update_first p (g \<circ> f) xs"
  by (induction xs) auto

lemma find_SomeD: "find p xs = Some x \<Longrightarrow> p x \<and> x \<in> set xs"
  by (induction xs) (auto split: if_splits)

text \<open>The index of the first element satisfying a predicate, as a counting loop computes it.\<close>

fun index_from :: "nat \<Rightarrow> ('a \<Rightarrow> bool) \<Rightarrow> 'a list \<Rightarrow> nat option" where
  "index_from i p [] = None"
| "index_from i p (x # xs) = (if p x then Some i else index_from (Suc i) p xs)"

lemma index_from_Some:
  "index_from i p xs = Some k \<Longrightarrow> i \<le> k \<and> k < i + length xs \<and> p (xs ! (k - i)) \<and> (\<forall>j < k - i. \<not> p (xs ! j))"
proof (induction xs arbitrary: i)
  case Nil
  then show ?case by simp
next
  case (Cons x xs)
  show ?case
  proof (cases "p x")
    case True
    with Cons.prems show ?thesis by simp
  next
    case False
    with Cons.prems have "index_from (Suc i) p xs = Some k" by simp
    from Cons.IH [OF this] False show ?thesis
      by (auto simp: nth_Cons' Suc_diff_le less_Suc_eq_0_disj)
  qed
qed

lemma index_from_None: "index_from i p xs = None \<longleftrightarrow> (\<forall>x \<in> set xs. \<not> p x)"
  by (induction xs arbitrary: i) auto

section \<open>State programs that keep a relation\<close>

text \<open>
  A program keeps a relation between states when every run of it does. For a relation that is reflexive and transitive this
  is closed under the combinators programs are made of.
\<close>

definition keeps_frame :: "('s \<Rightarrow> 's \<Rightarrow> bool) \<Rightarrow> ('s, 'a) state \<Rightarrow> bool" where
  "keeps_frame R m \<longleftrightarrow> (\<forall>w. R w (snd (run_state m w)))"

named_theorems keeps_intros \<open>how programs that keep a relation are composed\<close>

lemma keeps_if [keeps_intros]: "(b \<Longrightarrow> keeps_frame R m) \<Longrightarrow> (\<not> b \<Longrightarrow> keeps_frame R n) \<Longrightarrow> keeps_frame R (if b then m else n)"
  by simp

lemma keeps_option [keeps_intros]:
  "(v = None \<Longrightarrow> keeps_frame R m) \<Longrightarrow> (\<And>x. v = Some x \<Longrightarrow> keeps_frame R (f x)) \<Longrightarrow>
     keeps_frame R (case v of None \<Rightarrow> m | Some x \<Rightarrow> f x)"
  by (cases v) simp_all

lemma keeps_sum [keeps_intros]:
  "(\<And>x. keeps_frame R (f x)) \<Longrightarrow> (\<And>y. keeps_frame R (g y)) \<Longrightarrow> keeps_frame R (case v of Inl x \<Rightarrow> f x | Inr y \<Rightarrow> g y)"
  by (cases v) simp_all

lemma keeps_prod [keeps_intros]: "(\<And>x y. keeps_frame R (f x y)) \<Longrightarrow> keeps_frame R (case v of (x, y) \<Rightarrow> f x y)"
  by (cases v) simp

lemma keeps_let [keeps_intros]: "keeps_frame R (f v) \<Longrightarrow> keeps_frame R (let x = v in f x)"
  by simp

lemma keeps_frame_run: "keeps_frame R m \<Longrightarrow> run_state m w = (x, w') \<Longrightarrow> R w w'"
  unfolding keeps_frame_def by (metis snd_conv)

locale frame_order =
  fixes R :: "'s \<Rightarrow> 's \<Rightarrow> bool"
  assumes frame_refl: "R s s"
    and frame_trans: "R s s' \<Longrightarrow> R s' s'' \<Longrightarrow> R s s''"
begin

lemma keeps_return [keeps_intros]: "keeps_frame R (State_Monad.return x)"
  by (simp add: keeps_frame_def frame_refl)

lemma keeps_bind [keeps_intros]:
  assumes "keeps_frame R m" and "\<And>x. keeps_frame R (f x)"
  shows "keeps_frame R (State_Monad.bind m f)"
  unfolding keeps_frame_def
proof
  fix s
  obtain x s1 where run: "run_state m s = (x, s1)" by fastforce
  from keeps_frame_run [OF assms(1) run] assms(2) [of x] show "R s (snd (run_state (State_Monad.bind m f) s))"
    by (auto simp: run keeps_frame_def intro: frame_trans)
qed

end

end
