(* ===== verification/Ezo_Double.thy ===== *)
theory Ezo_Double
  imports Ezo_Prelude
begin

text \<open>
  The C++ type \<^verbatim>\<open>double\<close> as IEEE-754 binary64: a finite value is the rational number it denotes
  (the sign of a zero is not kept), and every arithmetic operation is the exact operation followed by
  \<open>round_double\<close>, rounding to nearest with ties to even. Comparisons follow IEEE: a
  comparison with a NaN is false. Decimal literals of the source are \<open>round_double\<close> of their
  value. The lemmas are the facts the components need: integers below \<open>2^53\<close> are exact, rounding
  is monotone, and rounding is symmetric.
\<close>

section \<open>Values and rounding\<close>

datatype double = Fin rat | PInf | NInf | NaN

definition pow2 :: "int \<Rightarrow> rat" where
  "pow2 k = 2 powi k"

definition floor_log2 :: "rat \<Rightarrow> int" where
  "floor_log2 q =
     (let (a, b) = quotient_of q;
          k = int (floorlog 2 (nat a)) - int (floorlog 2 (nat b))
      in if pow2 k \<le> q then k else k - 1)"

definition round_half_even :: "rat \<Rightarrow> int" where
  "round_half_even q =
     (let f = \<lfloor>q\<rfloor>; r = q - of_int f in
      if r < 1 / 2 then f else if 1 / 2 < r then f + 1 else if even f then f else f + 1)"

definition quantum_exp :: "rat \<Rightarrow> int" where
  "quantum_exp q = max (floor_log2 \<bar>q\<bar> - 52) (- 1074)"

definition round_rat :: "rat \<Rightarrow> rat" where
  "round_rat q =
     (if q = 0 then 0
      else of_int (round_half_even (q / pow2 (quantum_exp q))) * pow2 (quantum_exp q))"

definition round_double :: "rat \<Rightarrow> double" where
  "round_double q =
     (let v = round_rat q in
      if v \<ge> 2 ^ 1024 then PInf else if v \<le> - (2 ^ 1024) then NInf else Fin v)"

section \<open>The operations of the source\<close>

instantiation double :: ord
begin

fun less_eq_double :: "double \<Rightarrow> double \<Rightarrow> bool" where
  "less_eq_double NaN _ = False"
| "less_eq_double _ NaN = False"
| "less_eq_double NInf _ = True"
| "less_eq_double _ PInf = True"
| "less_eq_double (Fin a) (Fin b) = (a \<le> b)"
| "less_eq_double _ _ = False"

fun less_double :: "double \<Rightarrow> double \<Rightarrow> bool" where
  "less_double NaN _ = False"
| "less_double _ NaN = False"
| "less_double (Fin a) (Fin b) = (a < b)"
| "less_double NInf (Fin _) = True"
| "less_double NInf PInf = True"
| "less_double (Fin _) PInf = True"
| "less_double _ _ = False"

instance ..

end

fun isfinite :: "double \<Rightarrow> bool" where
  "isfinite (Fin _) = True"
| "isfinite _ = False"

fun dabs :: "double \<Rightarrow> double" where
  "dabs (Fin a) = Fin \<bar>a\<bar>"
| "dabs PInf = PInf"
| "dabs NInf = PInf"
| "dabs NaN = NaN"

fun dneg :: "double \<Rightarrow> double" where
  "dneg (Fin a) = Fin (- a)"
| "dneg PInf = NInf"
| "dneg NInf = PInf"
| "dneg NaN = NaN"

fun dadd :: "double \<Rightarrow> double \<Rightarrow> double" where
  "dadd (Fin a) (Fin b) = round_double (a + b)"
| "dadd NaN _ = NaN"
| "dadd _ NaN = NaN"
| "dadd PInf NInf = NaN"
| "dadd NInf PInf = NaN"
| "dadd PInf _ = PInf"
| "dadd _ PInf = PInf"
| "dadd NInf _ = NInf"
| "dadd _ NInf = NInf"

definition dsub :: "double \<Rightarrow> double \<Rightarrow> double" where
  "dsub x y = dadd x (dneg y)"

text \<open>Products and quotients are used on finite operands only, with a non-zero divisor.\<close>

fun dmul :: "double \<Rightarrow> double \<Rightarrow> double" where
  "dmul (Fin a) (Fin b) = round_double (a * b)"
| "dmul _ _ = NaN"

fun ddiv :: "double \<Rightarrow> double \<Rightarrow> double" where
  "ddiv (Fin a) (Fin b) = (if b = 0 then NaN else round_double (a / b))"
| "ddiv _ _ = NaN"

definition double_of_int :: "int \<Rightarrow> double" where
  "double_of_int i = round_double (of_int i)"

section \<open>Facts about rounding\<close>

lemma pow2_pos [simp]: "0 < pow2 k"
  by (simp add: pow2_def)

lemma pow2_neq_0 [simp]: "pow2 k \<noteq> 0"
  using pow2_pos [of k] by linarith

lemma pow2_add: "pow2 (a + b) = pow2 a * pow2 b"
  by (simp add: pow2_def power_int_add)

lemma pow2_0 [simp]: "pow2 0 = 1"
  by (simp add: pow2_def)

lemma pow2_1 [simp]: "pow2 1 = 2"
  by (simp add: pow2_def)

lemma pow2_diff: "pow2 (a - b) = pow2 a / pow2 b"
  using pow2_add [of "a - b" b] by (simp add: field_simps)

lemma pow2_strict_mono: "a < b \<Longrightarrow> pow2 a < pow2 b"
  by (simp add: pow2_def power_int_strict_increasing)

lemma pow2_less_iff [simp]: "pow2 a < pow2 b \<longleftrightarrow> a < b"
  using pow2_strict_mono [of a b] pow2_strict_mono [of b a] by (metis linorder_neqE_linordered_idom order.asym)

lemma pow2_le_iff [simp]: "pow2 a \<le> pow2 b \<longleftrightarrow> a \<le> b"
  by (simp add: linorder_not_less [symmetric])

lemma pow2_of_nat: "pow2 (int n) = 2 ^ n"
  by (simp add: pow2_def)

text \<open>\<open>floor_log2\<close> is the binary exponent: \<open>2^k \<le> q < 2^(k+1)\<close>.\<close>

lemma floorlog_bounds: "0 < a \<Longrightarrow> pow2 (int (floorlog 2 a) - 1) \<le> of_nat a \<and> of_nat a < pow2 (int (floorlog 2 a))"
proof -
  assume a: "0 < a"
  have lo: "2 ^ (floorlog 2 a - 1) \<le> a" and hi: "a < 2 ^ floorlog 2 a"
    using a floorlog_bounds [of a 2] by simp_all
  have fl: "1 \<le> floorlog 2 a"
    using hi a by (cases "floorlog 2 a") auto
  have "pow2 (int (floorlog 2 a) - 1) = 2 ^ (floorlog 2 a - 1)"
    using fl pow2_of_nat [of "floorlog 2 a - 1"] by (simp add: of_nat_diff)
  moreover have "(2 :: rat) ^ (floorlog 2 a - 1) \<le> of_nat a"
    using lo by (metis of_nat_le_iff of_nat_numeral of_nat_power)
  moreover have "of_nat a < (2 :: rat) ^ floorlog 2 a"
    using hi by (metis of_nat_less_iff of_nat_numeral of_nat_power)
  ultimately show ?thesis by (simp add: pow2_of_nat)
qed

lemma floor_log2_bounds:
  assumes q: "0 < q"
  shows "pow2 (floor_log2 q) \<le> q" and "q < pow2 (floor_log2 q + 1)"
proof -
  obtain a b where ab: "quotient_of q = (a, b)" by (cases "quotient_of q") auto
  have b: "0 < b" using ab by (rule quotient_of_denom_pos)
  have qab: "q = of_int a / of_int b" using ab by (rule quotient_of_div)
  have a: "0 < a" using q b qab by (simp add: zero_less_divide_iff)
  define fa fb where "fa = int (floorlog 2 (nat a))" and "fb = int (floorlog 2 (nat b))"
  have A: "pow2 (fa - 1) \<le> of_int a" "of_int a < pow2 fa"
    using floorlog_bounds [of "nat a"] a by (simp_all add: fa_def)
  have B: "pow2 (fb - 1) \<le> of_int b" "of_int b < pow2 fb"
    using floorlog_bounds [of "nat b"] b by (simp_all add: fb_def)
  have bpos: "(0 :: rat) < of_int b" using b by simp
  have lo: "pow2 (fa - fb - 1) < q"
  proof -
    have "pow2 (fa - fb - 1) * of_int b < pow2 (fa - fb - 1) * pow2 fb"
      using B(2) by simp
    also have "\<dots> = pow2 (fa - 1)" by (simp add: pow2_add [symmetric])
    also have "\<dots> \<le> of_int a" by (rule A(1))
    finally show ?thesis using bpos by (simp add: qab pos_less_divide_eq)
  qed
  have hi: "q < pow2 (fa - fb + 1)"
  proof -
    have "of_int a < pow2 fa" by (rule A(2))
    also have "\<dots> = pow2 (fa - fb + 1) * pow2 (fb - 1)" by (simp add: pow2_add [symmetric])
    also have "\<dots> \<le> pow2 (fa - fb + 1) * of_int b" using B(1) by simp
    finally show ?thesis using bpos by (simp add: qab pos_divide_less_eq)
  qed
  have fl: "floor_log2 q = (if pow2 (fa - fb) \<le> q then fa - fb else fa - fb - 1)"
    by (simp add: floor_log2_def ab fa_def fb_def)
  show "pow2 (floor_log2 q) \<le> q" using lo by (simp add: fl)
  show "q < pow2 (floor_log2 q + 1)" using hi by (auto simp: fl not_le)
qed

lemma round_half_even_of_int [simp]: "round_half_even (of_int n) = n"
  by (simp add: round_half_even_def)

lemma round_half_even_range: "\<lfloor>q\<rfloor> \<le> round_half_even q \<and> round_half_even q \<le> \<lfloor>q\<rfloor> + 1"
  by (simp add: round_half_even_def Let_def)

lemma round_half_even_mono: "x \<le> y \<Longrightarrow> round_half_even x \<le> round_half_even y"
proof (cases "\<lfloor>x\<rfloor> = \<lfloor>y\<rfloor>")
  case True
  assume "x \<le> y"
  with True show ?thesis by (auto simp: round_half_even_def Let_def)
next
  case False
  assume "x \<le> y"
  then have "\<lfloor>x\<rfloor> \<le> \<lfloor>y\<rfloor>" by (rule floor_mono)
  with False have "\<lfloor>x\<rfloor> + 1 \<le> \<lfloor>y\<rfloor>" by linarith
  with round_half_even_range [of x] round_half_even_range [of y] show ?thesis by linarith
qed

lemma round_half_even_minus: "round_half_even (- q) = - round_half_even q"
proof (cases "q = of_int \<lfloor>q\<rfloor>")
  case True
  then show ?thesis by (metis of_int_minus round_half_even_of_int)
next
  case False
  then have "of_int \<lfloor>q\<rfloor> < q" using of_int_floor_le [of q] by linarith
  then have fl: "\<lfloor>- q\<rfloor> = - \<lfloor>q\<rfloor> - 1"
    by (intro floor_unique) (auto, linarith)
  show ?thesis by (auto simp: round_half_even_def Let_def fl)
qed

lemma round_rat_0 [simp]: "round_rat 0 = 0"
  by (simp add: round_rat_def)

lemma round_rat_minus [simp]: "round_rat (- q) = - round_rat q"
  by (simp add: round_rat_def quantum_exp_def round_half_even_minus)

text \<open>
  Values on the grid of a coarser exponent bound the rounding: if an integer multiple of the quantum lies
  above (below) \<open>q\<close>, it lies above (below) the rounded value.
\<close>

lemma round_rat_bound:
  assumes "q \<noteq> 0" and "quantum_exp q \<le> k"
  shows "q \<le> pow2 k \<Longrightarrow> round_rat q \<le> pow2 k" and "pow2 k \<le> q \<Longrightarrow> pow2 k \<le> round_rat q"
proof -
  let ?e = "quantum_exp q"
  define n :: int where "n = 2 ^ nat (k - ?e)"
  have "int (nat (k - ?e)) = k - ?e" using assms(2) by simp
  then have n: "of_int n = pow2 (k - ?e)" using pow2_of_nat [of "nat (k - ?e)"] by (simp add: n_def)
  have split: "pow2 k = of_int n * pow2 ?e" by (simp add: n pow2_add [symmetric])
  show "round_rat q \<le> pow2 k" if "q \<le> pow2 k"
  proof -
    have "q / pow2 ?e \<le> of_int n" using that by (simp add: split pos_divide_le_eq)
    then have "round_half_even (q / pow2 ?e) \<le> n"
      using round_half_even_mono by fastforce
    then show ?thesis using assms(1) by (simp add: round_rat_def split)
  qed
  show "pow2 k \<le> round_rat q" if "pow2 k \<le> q"
  proof -
    have "of_int n \<le> q / pow2 ?e" using that by (simp add: split pos_le_divide_eq)
    then have "n \<le> round_half_even (q / pow2 ?e)"
      using round_half_even_mono by fastforce
    then show ?thesis using assms(1) by (simp add: round_rat_def split)
  qed
qed

lemma floor_log2_mono: "0 < x \<Longrightarrow> x \<le> y \<Longrightarrow> floor_log2 x \<le> floor_log2 y"
proof -
  assume x: "0 < x" and xy: "x \<le> y"
  have "pow2 (floor_log2 x) < pow2 (floor_log2 y + 1)"
    using floor_log2_bounds(1) [OF x] floor_log2_bounds(2) [of y] x xy by linarith
  then show ?thesis by simp
qed

lemma round_rat_mono_pos:
  assumes x: "0 < x" and xy: "x \<le> y"
  shows "round_rat x \<le> round_rat y"
proof (cases "quantum_exp x = quantum_exp y")
  case True
  have "x / pow2 (quantum_exp y) \<le> y / pow2 (quantum_exp y)"
    using xy by (intro divide_right_mono) (simp_all add: order_less_imp_le)
  then have "round_half_even (x / pow2 (quantum_exp y)) \<le> round_half_even (y / pow2 (quantum_exp y))"
    by (rule round_half_even_mono)
  then show ?thesis using x xy True by (simp add: round_rat_def)
next
  case False
  let ?k = "floor_log2 y"
  have y: "0 < y" using x xy by linarith
  have le: "floor_log2 x \<le> ?k" using x xy by (rule floor_log2_mono)
  have less: "floor_log2 x < ?k" and ey: "quantum_exp y = ?k - 52" and ex: "quantum_exp x < ?k - 52"
    using False le x y by (auto simp: quantum_exp_def max_def split: if_splits)
  have "x < pow2 (floor_log2 x + 1)" using x by (rule floor_log2_bounds(2))
  also have "\<dots> \<le> pow2 ?k" using less by simp
  finally have "round_rat x \<le> pow2 ?k" using x ex by (intro round_rat_bound(1)) auto
  also have "\<dots> \<le> round_rat y"
    using y ey floor_log2_bounds(1) [OF y] by (intro round_rat_bound(2)) auto
  finally show ?thesis .
qed

lemma round_rat_nonneg: "0 \<le> q \<Longrightarrow> 0 \<le> round_rat q"
proof (cases "q = 0")
  case False
  assume "0 \<le> q"
  with False have "0 \<le> round_half_even (q / pow2 (quantum_exp q))"
    using round_half_even_mono [of 0 "q / pow2 (quantum_exp q)"] round_half_even_of_int [of 0]
    by (simp add: zero_le_divide_iff order_less_imp_le)
  with False show ?thesis by (simp add: round_rat_def zero_le_mult_iff order_less_imp_le)
qed simp

lemma round_rat_mono: "x \<le> y \<Longrightarrow> round_rat x \<le> round_rat y"
proof -
  assume xy: "x \<le> y"
  consider "0 < x" | "x \<le> 0" "0 \<le> y" | "y < 0" using xy by linarith
  then show ?thesis
  proof cases
    case 1
    then show ?thesis using xy by (rule round_rat_mono_pos)
  next
    case 2
    then have "0 \<le> round_rat (- x)" and "0 \<le> round_rat y" by (simp_all only: round_rat_nonneg neg_0_le_iff_le)
    then show ?thesis by simp
  next
    case 3
    then have "round_rat (- y) \<le> round_rat (- x)" using xy by (intro round_rat_mono_pos) auto
    then show ?thesis by simp
  qed
qed

lemma round_rat_abs: "\<bar>round_rat q\<bar> = round_rat \<bar>q\<bar>"
  using round_rat_nonneg [of q] round_rat_nonneg [of "- q"] by (cases "0 \<le> q") auto

lemma round_rat_of_int:
  assumes "\<bar>n\<bar> < 2 ^ 53"
  shows "round_rat (of_int n) = of_int n"
proof (cases "n = 0")
  case False
  let ?e = "quantum_exp (of_int n)"
  have pos: "(0 :: rat) < \<bar>of_int n\<bar>" using False by simp
  have "pow2 (floor_log2 \<bar>of_int n\<bar>) \<le> \<bar>of_int n\<bar>" using floor_log2_bounds(1) [OF pos] .
  also have "\<dots> = of_int \<bar>n\<bar>" by simp
  also have "\<dots> < of_int (2 ^ 53)" using assms by (simp only: of_int_less_iff)
  also have "\<dots> = pow2 53" using pow2_of_nat [of 53] by simp
  finally have "floor_log2 \<bar>of_int n\<bar> < 53" by simp
  then have e: "?e \<le> 0" by (simp add: quantum_exp_def)
  have "of_int n / pow2 ?e = of_int n * pow2 (- ?e)"
    using pow2_diff [of 0 ?e] by simp
  also have "\<dots> = of_int (n * 2 ^ nat (- ?e))"
    using e pow2_of_nat [of "nat (- ?e)"] by simp
  finally have "round_half_even (of_int n / pow2 ?e) = n * 2 ^ nat (- ?e)"
    by (metis round_half_even_of_int)
  moreover have "of_int (n * 2 ^ nat (- ?e)) * pow2 ?e = (of_int n :: rat)"
  proof -
    have "(2 :: rat) ^ nat (- ?e) * pow2 ?e = 1"
      using e pow2_of_nat [of "nat (- ?e)"] pow2_add [of "- ?e" ?e] by simp
    then show ?thesis by (simp add: mult.assoc)
  qed
  ultimately show ?thesis using False by (simp add: round_rat_def)
qed simp

lemma two_power_1024_bound: "\<bar>n\<bar> < 2 ^ 53 \<Longrightarrow> \<bar>of_int n :: rat\<bar> < 2 ^ 1024"
proof -
  assume n: "\<bar>n\<bar> < 2 ^ 53"
  have "\<bar>of_int n :: rat\<bar> = of_int \<bar>n\<bar>" by simp
  also have "\<dots> < of_int (2 ^ 53)" using n by (simp only: of_int_less_iff)
  also have "\<dots> = (2 :: rat) ^ 53" by simp
  also have "\<dots> < 2 ^ 1024" by (rule power_strict_increasing) simp_all
  finally show ?thesis .
qed

lemma double_of_int_exact: "\<bar>n\<bar> < 2 ^ 53 \<Longrightarrow> double_of_int n = Fin (of_int n)"
proof -
  assume n: "\<bar>n\<bar> < 2 ^ 53"
  show ?thesis
    using two_power_1024_bound [OF n]
    by (simp add: double_of_int_def round_double_def round_rat_of_int [OF n] Let_def abs_less_iff not_le
          del: power_numeral)
qed

lemma round_double_Fin: "\<bar>q\<bar> \<le> 2 ^ 52 \<Longrightarrow> round_double q = Fin (round_rat q)"
proof -
  assume q: "\<bar>q\<bar> \<le> 2 ^ 52"
  have i: "\<bar>2 ^ 52 :: int\<bar> < 2 ^ 53" by simp
  have "\<bar>round_rat q\<bar> \<le> round_rat (of_int (2 ^ 52))"
    using q by (simp only: round_rat_abs) (intro round_rat_mono, simp)
  also have "\<dots> = of_int (2 ^ 52)" using i by (rule round_rat_of_int)
  finally have "\<bar>round_rat q\<bar> < 2 ^ 1024"
    using two_power_1024_bound [OF i] by linarith
  then show ?thesis by (simp add: round_double_def Let_def abs_less_iff not_le del: power_numeral)
qed

end
