(* ===== verification/Ezo_Status.thy ===== *)
theory Ezo_Status
  imports Ezo_Double
begin

text \<open>
  The provider's operation status (\<^verbatim>\<open>src/i2c/status.hpp\<close>), the boundary mappings into it from the
  transport status of the shared SDK (\<^verbatim>\<open>src/i2c/bus.hpp\<close>) and from the result code of the EZO C driver
  (\<^verbatim>\<open>src/devices/common/sample_helpers.cpp\<close>), and the mapping out of it to the wire status code
  (\<^verbatim>\<open>src/core/ezo_provider_runtime.cpp\<close>).
\<close>

section \<open>Provider status\<close>

datatype StatusCode = Ok | InvalidArgument | NotFound | Unavailable | DeadlineExceeded | Cancelled | Internal

record Status =
  code :: StatusCode
  message :: string

definition Status_ok :: Status where
  "Status_ok = \<lparr>code = Ok, message = ''ok''\<rparr>"

definition is_ok :: "Status \<Rightarrow> bool" where
  "is_ok s \<longleftrightarrow> code s = Ok"

definition make_status :: "StatusCode \<Rightarrow> string \<Rightarrow> Status" where
  "make_status c m = \<lparr>code = c, message = m\<rparr>"

lemma is_ok_Status_ok [simp]: "is_ok Status_ok"
  by (simp add: is_ok_def Status_ok_def)

lemma is_ok_make_status [simp]: "is_ok (make_status c m) \<longleftrightarrow> c = Ok"
  by (simp add: is_ok_def make_status_def)

lemma code_make_status [simp]: "code (make_status c m) = c"
  by (simp add: make_status_def)

lemma message_make_status [simp]: "message (make_status c m) = m"
  by (simp add: make_status_def)

lemma code_Status_ok [simp]: "code Status_ok = Ok" "message Status_ok = ''ok''"
  by (simp_all add: Status_ok_def)

section \<open>Transport status of the SDK\<close>

text \<open>
  \<^verbatim>\<open>I2cStatus\<close> is built by its two named constructors \<^verbatim>\<open>I2cStatus::ok()\<close> and
  \<^verbatim>\<open>I2cStatus::failure(code, message)\<close>; it converts to true exactly when built by the first.
\<close>

datatype I2cError = I2cError_Ok | I2cError_NotOpen | I2cError_OpenFailed | I2cError_WriteFailed
  | I2cError_ReadFailed | I2cError_BusError | I2cError_InvalidArgument | I2cError_Timeout

datatype I2cStatus = I2c_ok | I2c_failure I2cError string

fun status_from_i2c :: "I2cStatus \<Rightarrow> Status" where
  "status_from_i2c I2c_ok = Status_ok"
| "status_from_i2c (I2c_failure c m) =
     \<lparr>code = (case c of
        I2cError_InvalidArgument \<Rightarrow> InvalidArgument
      | I2cError_Timeout \<Rightarrow> DeadlineExceeded
      | _ \<Rightarrow> Unavailable), message = m\<rparr>"

lemma status_from_i2c_ok_iff [simp]: "is_ok (status_from_i2c s) \<longleftrightarrow> s = I2c_ok"
  by (cases s) (simp_all add: is_ok_def split: I2cError.split)

section \<open>Result codes of the EZO driver\<close>

text \<open>
  The driver's \<^verbatim>\<open>ezo_result_t\<close> is a C enum: the six enumerators the source switches on, and any other
  integer value of the enum's type, which the source sends to its last return statement.
\<close>

datatype ezo_result = EZO_OK | EZO_ERR_INVALID_ARGUMENT | EZO_ERR_TRANSPORT | EZO_ERR_BUFFER_TOO_SMALL
  | EZO_ERR_PROTOCOL | EZO_ERR_PARSE | EZO_RESULT_VALUE nat

text \<open>\<^verbatim>\<open>ezo_result_name\<close> belongs to the driver and is a parameter here.\<close>

definition status_from_ezo_result :: "(ezo_result \<Rightarrow> string) \<Rightarrow> ezo_result \<Rightarrow> string \<Rightarrow> Status" where
  "status_from_ezo_result ezo_result_name result context =
     (if result = EZO_OK then Status_ok
      else case result of
        EZO_ERR_INVALID_ARGUMENT \<Rightarrow> make_status InvalidArgument (context @ '': '' @ ezo_result_name result)
      | EZO_ERR_TRANSPORT \<Rightarrow> make_status Unavailable (context @ '': '' @ ezo_result_name result)
      | EZO_ERR_BUFFER_TOO_SMALL \<Rightarrow> make_status Internal (context @ '': '' @ ezo_result_name result)
      | EZO_ERR_PROTOCOL \<Rightarrow> make_status Internal (context @ '': '' @ ezo_result_name result)
      | EZO_ERR_PARSE \<Rightarrow> make_status Internal (context @ '': '' @ ezo_result_name result)
      | _ \<Rightarrow> make_status Internal (context @ '': '' @ ezo_result_name result))"

lemma status_from_ezo_result_ok_iff [simp]:
  "is_ok (status_from_ezo_result nm r ctx) \<longleftrightarrow> r = EZO_OK"
  by (cases r) (simp_all add: status_from_ezo_result_def)

lemma status_from_ezo_result_OK [simp]: "status_from_ezo_result nm EZO_OK ctx = Status_ok"
  by (simp add: status_from_ezo_result_def)

section \<open>Wire status codes\<close>

datatype AdppCode = CODE_OK | CODE_INVALID_ARGUMENT | CODE_NOT_FOUND | CODE_UNAVAILABLE
  | CODE_DEADLINE_EXCEEDED | CODE_INTERNAL | CODE_OUT_OF_RANGE

fun map_i2c_status_code :: "StatusCode \<Rightarrow> AdppCode" where
  "map_i2c_status_code Ok = CODE_OK"
| "map_i2c_status_code InvalidArgument = CODE_INVALID_ARGUMENT"
| "map_i2c_status_code NotFound = CODE_NOT_FOUND"
| "map_i2c_status_code Unavailable = CODE_UNAVAILABLE"
| "map_i2c_status_code DeadlineExceeded = CODE_DEADLINE_EXCEEDED"
| "map_i2c_status_code Cancelled = CODE_UNAVAILABLE"
| "map_i2c_status_code Internal = CODE_INTERNAL"

lemma map_i2c_status_code_OK [simp]: "map_i2c_status_code c = CODE_OK \<longleftrightarrow> c = Ok"
  by (cases c) simp_all

text \<open>
  Errors survive every boundary of the provider. A transport failure, a driver result other than
  \<^verbatim>\<open>EZO_OK\<close> and a provider status that is not ok are each reported as a failure: no mapping turns an
  error into success or success into an error, at the executor's bus-open boundary, at the driver boundary
  and on the wire.
\<close>

theorem status_mappings_preserve_success:
  "(is_ok (status_from_i2c i) \<longleftrightarrow> i = I2c_ok) \<and>
   (is_ok (status_from_ezo_result nm r ctx) \<longleftrightarrow> r = EZO_OK) \<and>
   (map_i2c_status_code (code s) = CODE_OK \<longleftrightarrow> is_ok s)"
  by (intro conjI status_from_i2c_ok_iff status_from_ezo_result_ok_iff) (simp add: is_ok_def)

end
