(* ===== verification/Ezo_Config.thy ===== *)
theory Ezo_Config
  imports Ezo_Status
begin

text \<open>
  Provider configuration: the device families (\<^verbatim>\<open>src/devices/common/device_type.hpp\<close>), the resolved
  configuration and its loader (\<^verbatim>\<open>src/config/provider_config.cpp\<close>), the declared schema
  (\<^verbatim>\<open>src/config/config_schema.cpp\<close>) and the three intervals derived from the configuration
  (\<^verbatim>\<open>src/core/runtime_state.cpp\<close>). YAML parsing and schema validation belong to yaml-cpp and to the SDK:
  they are parameters of the loader, with what the loader relies on as the hypothesis \<open>validator_sound\<close>.
\<close>

section \<open>Device families\<close>

datatype EzoDeviceType = Ph | Orp | Ec | Do | Rtd | Hum

definition parse_device_type :: "string \<Rightarrow> string + EzoDeviceType" where
  "parse_device_type value =
     (if value = ''ph'' then Inr Ph
      else if value = ''orp'' then Inr Orp
      else if value = ''ec'' then Inr Ec
      else if value = ''do'' then Inr Do
      else if value = ''rtd'' then Inr Rtd
      else if value = ''hum'' then Inr Hum
      else Inl (''Invalid devices[].type: '' @ quoted value))"

fun to_string :: "EzoDeviceType \<Rightarrow> string" where
  "to_string Ph = ''ph''"
| "to_string Orp = ''orp''"
| "to_string Ec = ''ec''"
| "to_string Do = ''do''"
| "to_string Rtd = ''rtd''"
| "to_string Hum = ''hum''"

section \<open>Resolved configuration\<close>

record DeviceSpec =
  ds_id :: string
  ds_type :: EzoDeviceType
  ds_label :: string
  ds_address :: int

definition default_DeviceSpec :: DeviceSpec where
  "default_DeviceSpec = \<lparr>ds_id = '''', ds_type = Ph, ds_label = '''', ds_address = 0\<rparr>"

record ProviderConfig =
  config_file_path :: string
  provider_name :: string
  bus_path :: string
  query_delay_us :: int
  cfg_sample_interval_ms :: int
  timeout_ms :: int
  retry_count :: int
  devices :: "DeviceSpec list"

definition default_ProviderConfig :: ProviderConfig where
  "default_ProviderConfig =
     \<lparr>config_file_path = '''', provider_name = ''anolis-provider-ezo'', bus_path = '''',
      query_delay_us = 300000, cfg_sample_interval_ms = 2500, timeout_ms = 300, retry_count = 2,
      devices = []\<rparr>"

text \<open>
  \<^verbatim>\<open>std::hex\<close> prints an \<^verbatim>\<open>int\<close> as its 32-bit two's complement value; \<^verbatim>\<open>setw(2)\<close> with fill
  \<^verbatim>\<open>'0'\<close> pads on the left.
\<close>

definition format_i2c_address :: "int \<Rightarrow> string" where
  "format_i2c_address address =
     (let digits = show_hex (nat (address mod 4294967296)) in
      ''0x'' @ (if length digits < 2 then ''0'' @ digits else digits))"

definition summarize_config :: "ProviderConfig \<Rightarrow> string" where
  "summarize_config config =
     ''provider.name='' @ provider_name config @ '', hardware.bus_path='' @ bus_path config @
     '', hardware.query_delay_us='' @ show_int (query_delay_us config) @
     '', hardware.sample_interval_ms='' @ show_int (cfg_sample_interval_ms config) @
     '', hardware.timeout_ms='' @ show_int (timeout_ms config) @
     '', hardware.retry_count='' @ show_int (retry_count config) @
     '', discovery.mode=manual'' @
     '', devices='' @ show_nat (length (devices config))"

section \<open>Derived intervals\<close>

definition kMinQueryLatencyMs :: int where
  "kMinQueryLatencyMs = 50"

definition kMinSampleIntervalMs :: int where
  "kMinSampleIntervalMs = 50"

definition kMinStaleAfterMs :: int where
  "kMinStaleAfterMs = 500"

definition query_latency_ms :: "ProviderConfig \<Rightarrow> int" where
  "query_latency_ms config = max (trunc_div (query_delay_us config) 1000) kMinQueryLatencyMs"

definition sample_interval_ms :: "ProviderConfig \<Rightarrow> int" where
  "sample_interval_ms config = max (cfg_sample_interval_ms config) kMinSampleIntervalMs"

definition stale_after_ms :: "ProviderConfig \<Rightarrow> int" where
  "stale_after_ms config =
     (let bound = max (sample_interval_ms config * 3) kMinStaleAfterMs
      in to_int32 (min bound int_max))"

section \<open>Declared schema\<close>

datatype field_kind = string_field | integer_field | i2c_address_field

datatype openness = Closed | Open

datatype presence = Required | Optional

record field_decl =
  f_name :: string
  f_kind :: field_kind
  f_required :: bool
  f_unique :: bool
  f_non_empty :: bool
  f_const :: "string option"
  f_pattern :: "string option"
  f_enum :: "(string \<times> string) list"
  f_min_int :: "int option"
  f_max_int :: "int option"
  f_default_int :: "int option"
  f_default_string :: "string option"

definition field_of :: "field_kind \<Rightarrow> string \<Rightarrow> field_decl" where
  "field_of k n =
     \<lparr>f_name = n, f_kind = k, f_required = False, f_unique = False, f_non_empty = False, f_const = None,
      f_pattern = None, f_enum = [], f_min_int = None, f_max_int = None, f_default_int = None,
      f_default_string = None\<rparr>"

record object_decl =
  o_openness :: openness
  o_fields :: "field_decl list"

text \<open>
  The root object: its child objects with their presence, and its arrays of objects. The titles,
  descriptions and placeholders of the source only feed the emitted form and are left out.
\<close>

record schema_decl =
  s_openness :: openness
  s_children :: "(string \<times> object_decl \<times> presence) list"
  s_arrays :: "(string \<times> object_decl) list"

definition kIdentifierPattern :: string where
  "kIdentifierPattern = ''^[A-Za-z0-9_.-]{1,64}$''"

definition build_schema :: schema_decl where
  "build_schema =
     (let provider = \<lparr>o_openness = Closed, o_fields =
            [(field_of string_field ''name'')
               \<lparr>f_pattern := Some kIdentifierPattern, f_default_string := Some ''anolis-provider-ezo''\<rparr>]\<rparr>;
          hardware = \<lparr>o_openness = Closed, o_fields =
            [(field_of string_field ''bus_path'')\<lparr>f_required := True, f_non_empty := True\<rparr>,
             (field_of integer_field ''query_delay_us'')
               \<lparr>f_min_int := Some 1, f_max_int := Some 2147483647, f_default_int := Some 300000\<rparr>,
             (field_of integer_field ''sample_interval_ms'')
               \<lparr>f_min_int := Some 1, f_max_int := Some 86400000, f_default_int := Some 2500\<rparr>,
             (field_of integer_field ''timeout_ms'')
               \<lparr>f_min_int := Some 1, f_max_int := Some 2147483647, f_default_int := Some 300\<rparr>,
             (field_of integer_field ''retry_count'')
               \<lparr>f_min_int := Some 0, f_max_int := Some 2147483647, f_default_int := Some 2\<rparr>]\<rparr>;
          discovery = \<lparr>o_openness = Closed, o_fields =
            [(field_of string_field ''mode'')\<lparr>f_required := True, f_const := Some ''manual''\<rparr>]\<rparr>;
          device = \<lparr>o_openness = Closed, o_fields =
            [(field_of string_field ''id'')
               \<lparr>f_required := True, f_unique := True, f_pattern := Some kIdentifierPattern\<rparr>,
             (field_of string_field ''type'')
               \<lparr>f_required := True, f_enum := [(''ph'', ''pH Sensor''), (''do'', ''Dissolved Oxygen''),
                  (''ec'', ''Conductivity''), (''orp'', ''ORP''), (''rtd'', ''Temperature (RTD)''),
                  (''hum'', ''Humidity'')]\<rparr>,
             (field_of string_field ''label'')\<lparr>f_non_empty := True\<rparr>,
             (field_of i2c_address_field ''address'')\<lparr>f_required := True, f_unique := True\<rparr>]\<rparr>
      in \<lparr>s_openness = Closed,
          s_children = [(''provider'', provider, Optional), (''hardware'', hardware, Required),
             (''discovery'', discovery, Required)],
          s_arrays = [(''devices'', device)]\<rparr>)"

definition provider_schema :: schema_decl where
  "provider_schema = build_schema"

section \<open>Loading\<close>

text \<open>
  The YAML document (\<open>'y\<close> is a \<^verbatim>\<open>YAML::Node\<close>) and the SDK's validator and typed extractors, as the
  loader calls them. \<open>y_load_file\<close> returns the exception text of \<^verbatim>\<open>YAML::LoadFile\<close> or the root node;
  \<open>y_child\<close> is \<^verbatim>\<open>operator[]\<close>; \<open>y_elements\<close> is iteration over a sequence.
\<close>

record 'y config_api =
  y_load_file :: "string \<Rightarrow> string + 'y"
  y_child :: "'y \<Rightarrow> string \<Rightarrow> 'y"
  y_is_defined :: "'y \<Rightarrow> bool"
  y_is_sequence :: "'y \<Rightarrow> bool"
  y_elements :: "'y \<Rightarrow> 'y list"
  sdk_validate :: "schema_decl \<Rightarrow> 'y \<Rightarrow> string list"
  sdk_format_errors :: "string list \<Rightarrow> string"
  sdk_as_string :: "'y \<Rightarrow> string option"
  sdk_as_int64 :: "'y \<Rightarrow> int option"
  sdk_parse_i2c_address :: "'y \<Rightarrow> int option"
  fs_absolute :: "string \<Rightarrow> string"

definition set_if :: "'a option \<Rightarrow> ('a \<Rightarrow> 'c \<Rightarrow> 'c) \<Rightarrow> 'c \<Rightarrow> 'c" where
  "set_if v f c = (case v of None \<Rightarrow> c | Some x \<Rightarrow> f x c)"

definition load_device :: "('y, 'm) config_api_scheme \<Rightarrow> 'y \<Rightarrow> string + DeviceSpec" where
  "load_device api node =
     (let spec0 = set_if (sdk_as_string api (y_child api node ''id''))
                    (\<lambda>v s. s\<lparr>ds_id := v\<rparr>) default_DeviceSpec;
          typed = (case sdk_as_string api (y_child api node ''type'') of
                     None \<Rightarrow> Inr spec0
                   | Some t \<Rightarrow> (case parse_device_type t of Inl e \<Rightarrow> Inl e | Inr ty \<Rightarrow> Inr (spec0\<lparr>ds_type := ty\<rparr>)))
      in case typed of
           Inl e \<Rightarrow> Inl e
         | Inr spec1 \<Rightarrow>
             (let spec2 = spec1\<lparr>ds_label := (case sdk_as_string api (y_child api node ''label'') of
                                  None \<Rightarrow> ds_id spec1 | Some l \<Rightarrow> l)\<rparr>
              in Inr (set_if (sdk_parse_i2c_address api (y_child api node ''address''))
                        (\<lambda>v s. s\<lparr>ds_address := v\<rparr>) spec2)))"

fun load_devices :: "('y, 'm) config_api_scheme \<Rightarrow> 'y list \<Rightarrow> string + DeviceSpec list" where
  "load_devices api [] = Inr []"
| "load_devices api (n # ns) =
     (case load_device api n of
        Inl e \<Rightarrow> Inl e
      | Inr spec \<Rightarrow> (case load_devices api ns of Inl e \<Rightarrow> Inl e | Inr specs \<Rightarrow> Inr (spec # specs)))"

definition load_scalars :: "('y, 'm) config_api_scheme \<Rightarrow> string \<Rightarrow> 'y \<Rightarrow> ProviderConfig" where
  "load_scalars api path doc =
     (let config0 = default_ProviderConfig\<lparr>config_file_path := fs_absolute api path\<rparr>;
          config1 = set_if (sdk_as_string api (y_child api (y_child api doc ''provider'') ''name''))
                      (\<lambda>v c. c\<lparr>provider_name := v\<rparr>) config0;
          hardware = y_child api doc ''hardware'';
          config2 = set_if (sdk_as_string api (y_child api hardware ''bus_path''))
                      (\<lambda>v c. c\<lparr>bus_path := v\<rparr>) config1;
          config3 = set_if (sdk_as_int64 api (y_child api hardware ''query_delay_us''))
                      (\<lambda>v c. c\<lparr>query_delay_us := to_int32 v\<rparr>) config2;
          config4 = set_if (sdk_as_int64 api (y_child api hardware ''sample_interval_ms''))
                      (\<lambda>v c. c\<lparr>cfg_sample_interval_ms := to_int32 v\<rparr>) config3;
          config5 = set_if (sdk_as_int64 api (y_child api hardware ''timeout_ms''))
                      (\<lambda>v c. c\<lparr>timeout_ms := to_int32 v\<rparr>) config4
      in set_if (sdk_as_int64 api (y_child api hardware ''retry_count''))
           (\<lambda>v c. c\<lparr>retry_count := to_int32 v\<rparr>) config5)"

definition load_config :: "('y, 'm) config_api_scheme \<Rightarrow> string \<Rightarrow> string + ProviderConfig" where
  "load_config api path =
     (case y_load_file api path of
        Inl what \<Rightarrow> Inl (''Failed to parse config '' @ quoted path @ '': '' @ what)
      | Inr doc \<Rightarrow>
          (let errors = sdk_validate api provider_schema doc in
           if errors \<noteq> [] then
             Inl (''Invalid config '' @ quoted path @ '':'' @ [CHR 0x0A] @ sdk_format_errors api errors)
           else
             (let config = load_scalars api path doc;
                  devs = y_child api doc ''devices''
              in if y_is_defined api devs \<and> y_is_sequence api devs
                 then (case load_devices api (y_elements api devs) of
                         Inl e \<Rightarrow> Inl e
                       | Inr specs \<Rightarrow> Inr (config\<lparr>devices := devices config @ specs\<rparr>))
                 else Inr config)))"

section \<open>What the loader relies on of the validator\<close>

text \<open>
  A document that validates satisfies the constraints its schema declares: required fields are present,
  integers lie within their declared bounds, strings are among the declared values, I2C addresses are 7-bit
  addresses in the 0x08-0x77 range, and a field declared unique differs between the elements of its array.
\<close>

definition field_ok :: "('y, 'm) config_api_scheme \<Rightarrow> field_decl \<Rightarrow> 'y \<Rightarrow> bool" where
  "field_ok api f node =
     (case f_kind f of
        string_field \<Rightarrow>
          (case sdk_as_string api node of
             None \<Rightarrow> \<not> f_required f
           | Some v \<Rightarrow> (f_non_empty f \<longrightarrow> v \<noteq> '''') \<and> (\<forall>c \<in> set_option (f_const f). v = c) \<and>
               (f_enum f \<noteq> [] \<longrightarrow> v \<in> fst ` set (f_enum f)))
      | integer_field \<Rightarrow>
          (case sdk_as_int64 api node of
             None \<Rightarrow> \<not> f_required f
           | Some v \<Rightarrow> (\<forall>lo \<in> set_option (f_min_int f). lo \<le> v) \<and> (\<forall>hi \<in> set_option (f_max_int f). v \<le> hi))
      | i2c_address_field \<Rightarrow>
          (case sdk_parse_i2c_address api node of
             None \<Rightarrow> \<not> f_required f
           | Some v \<Rightarrow> 0x08 \<le> v \<and> v \<le> 0x77))"

definition object_ok :: "('y, 'm) config_api_scheme \<Rightarrow> object_decl \<Rightarrow> 'y \<Rightarrow> bool" where
  "object_ok api d node \<longleftrightarrow> (\<forall>f \<in> set (o_fields d). field_ok api f (y_child api node (f_name f)))"

definition unique_ok :: "('y, 'm) config_api_scheme \<Rightarrow> field_decl \<Rightarrow> 'y list \<Rightarrow> bool" where
  "unique_ok api f nodes \<longleftrightarrow>
     (f_unique f \<longrightarrow>
        (case f_kind f of
           string_field \<Rightarrow> distinct (map (\<lambda>n. sdk_as_string api (y_child api n (f_name f))) nodes)
         | integer_field \<Rightarrow> distinct (map (\<lambda>n. sdk_as_int64 api (y_child api n (f_name f))) nodes)
         | i2c_address_field \<Rightarrow> distinct (map (\<lambda>n. sdk_parse_i2c_address api (y_child api n (f_name f))) nodes)))"

definition schema_ok :: "('y, 'm) config_api_scheme \<Rightarrow> schema_decl \<Rightarrow> 'y \<Rightarrow> bool" where
  "schema_ok api s doc \<longleftrightarrow>
     (\<forall>(n, d, p) \<in> set (s_children s).
        p = Required \<or> y_is_defined api (y_child api doc n) \<longrightarrow> object_ok api d (y_child api doc n)) \<and>
     (\<forall>(n, d) \<in> set (s_arrays s).
        let a = y_child api doc n in
        y_is_defined api a \<and> y_is_sequence api a \<longrightarrow>
          (\<forall>e \<in> set (y_elements api a). object_ok api d e) \<and>
          (\<forall>f \<in> set (o_fields d). unique_ok api f (y_elements api a)))"

definition validator_sound :: "('y, 'm) config_api_scheme \<Rightarrow> bool" where
  "validator_sound api \<longleftrightarrow> (\<forall>s doc. sdk_validate api s doc = [] \<longrightarrow> schema_ok api s doc)"

section \<open>Lemmas\<close>

lemma sample_interval_ge: "50 \<le> sample_interval_ms c"
  by (simp add: sample_interval_ms_def kMinSampleIntervalMs_def)

lemma query_latency_ge: "50 \<le> query_latency_ms c"
  by (simp add: query_latency_ms_def kMinQueryLatencyMs_def)

lemma stale_after_eq: "stale_after_ms c = min (max (sample_interval_ms c * 3) 500) int_max"
  using sample_interval_ge [of c]
  by (simp add: stale_after_ms_def kMinStaleAfterMs_def Let_def to_int32_id int_max_def int_min_def)

lemma parse_device_type_to_string [simp]: "parse_device_type (to_string t) = Inr t"
  by (cases t) (simp_all add: parse_device_type_def)

lemma to_string_inject [simp]: "to_string s = to_string t \<longleftrightarrow> s = t"
  by (metis Inr_inject parse_device_type_to_string)

lemma show_hex_short: "n < 16 \<Longrightarrow> length (show_hex n) = 1"
  by (subst show_hex_def, subst show_digits.simps) simp

lemma show_hex_two: "16 \<le> n \<Longrightarrow> n < 256 \<Longrightarrow> length (show_hex n) = 2"
  by (subst show_hex_def, subst show_digits.simps, subst show_digits.simps) auto

lemma read_hex_pad: "read_digits 16 (CHR ''0'' # ds) = read_digits 16 ds"
  by (simp add: read_digits_def digit_value_def)

text \<open>The device object of the schema, and what a valid element of \<^verbatim>\<open>devices\<close> yields.\<close>

definition device_object :: object_decl where
  "device_object = snd (hd (s_arrays build_schema))"

definition hardware_object :: object_decl where
  "hardware_object = fst (snd (s_children build_schema ! 1))"

lemma set_if_simps [simp]: "set_if None f c = c" "set_if (Some x) f c = f x c"
  by (simp_all add: set_if_def)

lemma device_object_ok:
  assumes "object_ok api device_object n"
  obtains i t a where "sdk_as_string api (y_child api n ''id'') = Some i"
    and "sdk_as_string api (y_child api n ''type'') = Some (to_string t)"
    and "sdk_parse_i2c_address api (y_child api n ''address'') = Some a" and "0x08 \<le> a" "a \<le> 0x77"
proof -
  note ok = assms [unfolded object_ok_def device_object_def build_schema_def Let_def, simplified]
  from ok obtain i where "sdk_as_string api (y_child api n ''id'') = Some i"
    by (auto simp: field_ok_def field_of_def split: option.splits)
  moreover from ok obtain v where "sdk_as_string api (y_child api n ''type'') = Some v"
      and "v \<in> {''ph'', ''do'', ''ec'', ''orp'', ''rtd'', ''hum''}"
    by (auto simp: field_ok_def field_of_def split: option.splits)
  then have "\<exists>t. sdk_as_string api (y_child api n ''type'') = Some (to_string t)"
    by (auto intro: exI [of _ Ph] exI [of _ Do] exI [of _ Ec] exI [of _ Orp] exI [of _ Rtd] exI [of _ Hum])
  moreover from ok obtain a where "sdk_parse_i2c_address api (y_child api n ''address'') = Some a"
      and "0x08 \<le> a" "a \<le> 0x77"
    by (auto simp: field_ok_def field_of_def split: option.splits)
  ultimately show ?thesis using that by blast
qed

text \<open>
  What a document says, field by field: the value given, or the documented default of an optional field. \<open>describes\<close> relates
  a document to the configuration it stands for.
\<close>

definition or_default :: "'a option \<Rightarrow> 'a \<Rightarrow> 'a" where
  "or_default v x = (case v of None \<Rightarrow> x | Some y \<Rightarrow> y)"

definition describes_device :: "('y, 'm) config_api_scheme \<Rightarrow> 'y \<Rightarrow> DeviceSpec \<Rightarrow> bool" where
  "describes_device api node s \<longleftrightarrow>
     sdk_as_string api (y_child api node ''id'') = Some (ds_id s) \<and>
     sdk_as_string api (y_child api node ''type'') = Some (to_string (ds_type s)) \<and>
     ds_label s = or_default (sdk_as_string api (y_child api node ''label'')) (ds_id s) \<and>
     sdk_parse_i2c_address api (y_child api node ''address'') = Some (ds_address s)"

definition describes :: "('y, 'm) config_api_scheme \<Rightarrow> string \<Rightarrow> 'y \<Rightarrow> ProviderConfig \<Rightarrow> bool" where
  "describes api path doc c \<longleftrightarrow>
     (let hardware = y_child api doc ''hardware''; devs = y_child api doc ''devices'' in
      config_file_path c = fs_absolute api path \<and>
      provider_name c = or_default (sdk_as_string api (y_child api (y_child api doc ''provider'') ''name'')) ''anolis-provider-ezo'' \<and>
      sdk_as_string api (y_child api hardware ''bus_path'') = Some (bus_path c) \<and>
      query_delay_us c = or_default (sdk_as_int64 api (y_child api hardware ''query_delay_us'')) 300000 \<and>
      cfg_sample_interval_ms c = or_default (sdk_as_int64 api (y_child api hardware ''sample_interval_ms'')) 2500 \<and>
      timeout_ms c = or_default (sdk_as_int64 api (y_child api hardware ''timeout_ms'')) 300 \<and>
      retry_count c = or_default (sdk_as_int64 api (y_child api hardware ''retry_count'')) 2 \<and>
      list_all2 (describes_device api)
        (if y_is_defined api devs \<and> y_is_sequence api devs then y_elements api devs else []) (devices c))"

lemma load_device_describes:
  assumes "object_ok api device_object n"
  shows "\<exists>spec. load_device api n = Inr spec \<and> describes_device api n spec \<and> 0x08 \<le> ds_address spec \<and> ds_address spec \<le> 0x77"
proof -
  from device_object_ok [OF assms] obtain i t a where "sdk_as_string api (y_child api n ''id'') = Some i"
    "sdk_as_string api (y_child api n ''type'') = Some (to_string t)"
    "sdk_parse_i2c_address api (y_child api n ''address'') = Some a" "0x08 \<le> a" "a \<le> 0x77" by blast
  then show ?thesis by (simp add: load_device_def describes_device_def or_default_def Let_def split: option.split)
qed

lemma load_devices_describes:
  assumes "\<forall>n \<in> set ns. object_ok api device_object n"
  shows "\<exists>specs. load_devices api ns = Inr specs \<and> list_all2 (describes_device api) ns specs \<and>
    (\<forall>s \<in> set specs. 0x08 \<le> ds_address s \<and> ds_address s \<le> 0x77)"
  using assms
proof (induction ns)
  case (Cons n ns)
  then show ?case using load_device_describes [of api n] by force
qed simp

lemma hardware_field_range:
  assumes "object_ok api hardware_object n" and "sdk_as_int64 api (y_child api n f) = Some v"
  shows "f = ''query_delay_us'' \<Longrightarrow> 1 \<le> v \<and> v \<le> int_max"
    and "f = ''sample_interval_ms'' \<Longrightarrow> 1 \<le> v \<and> v \<le> 86400000"
    and "f = ''timeout_ms'' \<Longrightarrow> 1 \<le> v \<and> v \<le> int_max"
    and "f = ''retry_count'' \<Longrightarrow> 0 \<le> v \<and> v \<le> int_max"
  using assms
  by (simp_all add: object_ok_def hardware_object_def build_schema_def Let_def field_ok_def field_of_def int_max_def)

lemma set_if_inv: "P c \<Longrightarrow> (\<And>x c. v = Some x \<Longrightarrow> P c \<Longrightarrow> P (f x c)) \<Longrightarrow> P (set_if v f c)"
  by (cases v) simp_all

definition scalars_ok :: "ProviderConfig \<Rightarrow> bool" where
  "scalars_ok c \<longleftrightarrow>
     query_delay_us c \<in> {1..int_max} \<and> cfg_sample_interval_ms c \<in> {1..86400000} \<and>
     timeout_ms c \<in> {1..int_max} \<and> retry_count c \<in> {0..int_max}"

lemma load_scalars_ok:
  assumes hw: "object_ok api hardware_object (y_child api doc ''hardware'')"
  shows "scalars_ok (load_scalars api path doc) \<and> devices (load_scalars api path doc) = []"
proof -
  note rng = hardware_field_range [OF hw]
  have id32: "to_int32 v = v" if "0 \<le> v" "v \<le> int_max" for v
    using that by (simp add: to_int32_id int_min_def)
  show ?thesis
    unfolding load_scalars_def Let_def
    by (intro set_if_inv [where P = "\<lambda>c. scalars_ok c \<and> devices c = []"])
      (use rng in \<open>auto simp: scalars_ok_def default_ProviderConfig_def id32 int_max_def\<close>)
qed

text \<open>An optional setting overrides the default.\<close>

lemma set_provider_name: "set_if v (\<lambda>x c. c\<lparr>provider_name := x\<rparr>) c = c\<lparr>provider_name := or_default v (provider_name c)\<rparr>" for c :: ProviderConfig
  by (cases v) (simp_all add: or_default_def)

lemma set_bus_path: "set_if v (\<lambda>x c. c\<lparr>bus_path := x\<rparr>) c = c\<lparr>bus_path := or_default v (bus_path c)\<rparr>" for c :: ProviderConfig
  by (cases v) (simp_all add: or_default_def)

lemma set_query_delay_us:
  "set_if v (\<lambda>x c. c\<lparr>query_delay_us := to_int32 x\<rparr>) c = c\<lparr>query_delay_us := or_default (map_option to_int32 v) (query_delay_us c)\<rparr>"
  for c :: ProviderConfig
  by (cases v) (simp_all add: or_default_def)

lemma set_cfg_sample_interval_ms:
  "set_if v (\<lambda>x c. c\<lparr>cfg_sample_interval_ms := to_int32 x\<rparr>) c = c\<lparr>cfg_sample_interval_ms := or_default (map_option to_int32 v) (cfg_sample_interval_ms c)\<rparr>"
  for c :: ProviderConfig
  by (cases v) (simp_all add: or_default_def)

lemma set_timeout_ms:
  "set_if v (\<lambda>x c. c\<lparr>timeout_ms := to_int32 x\<rparr>) c = c\<lparr>timeout_ms := or_default (map_option to_int32 v) (timeout_ms c)\<rparr>"
  for c :: ProviderConfig
  by (cases v) (simp_all add: or_default_def)

lemma set_retry_count:
  "set_if v (\<lambda>x c. c\<lparr>retry_count := to_int32 x\<rparr>) c = c\<lparr>retry_count := or_default (map_option to_int32 v) (retry_count c)\<rparr>"
  for c :: ProviderConfig
  by (cases v) (simp_all add: or_default_def)

lemmas set_fields = set_provider_name set_bus_path set_query_delay_us set_cfg_sample_interval_ms set_timeout_ms set_retry_count

text \<open>Within the declared bounds the narrowing casts change nothing.\<close>

lemma setting_kept:
  assumes "object_ok api hardware_object n"
  shows "map_option to_int32 (sdk_as_int64 api (y_child api n ''query_delay_us'')) = sdk_as_int64 api (y_child api n ''query_delay_us'')"
    and "map_option to_int32 (sdk_as_int64 api (y_child api n ''sample_interval_ms'')) = sdk_as_int64 api (y_child api n ''sample_interval_ms'')"
    and "map_option to_int32 (sdk_as_int64 api (y_child api n ''timeout_ms'')) = sdk_as_int64 api (y_child api n ''timeout_ms'')"
    and "map_option to_int32 (sdk_as_int64 api (y_child api n ''retry_count'')) = sdk_as_int64 api (y_child api n ''retry_count'')"
proof -
  have kept: "map_option to_int32 r = r" if "\<And>v. r = Some v \<Longrightarrow> 0 \<le> v \<and> v \<le> int_max" for r
    using that by (cases r) (simp_all add: to_int32_id int_min_def)
  note range = hardware_field_range [OF assms]
  show "map_option to_int32 (sdk_as_int64 api (y_child api n ''query_delay_us'')) = sdk_as_int64 api (y_child api n ''query_delay_us'')"
    by (rule kept) (use range(1) [OF _ refl] in force)
  show "map_option to_int32 (sdk_as_int64 api (y_child api n ''sample_interval_ms'')) = sdk_as_int64 api (y_child api n ''sample_interval_ms'')"
    by (rule kept) (use range(2) [OF _ refl] in \<open>force simp: int_max_def\<close>)
  show "map_option to_int32 (sdk_as_int64 api (y_child api n ''timeout_ms'')) = sdk_as_int64 api (y_child api n ''timeout_ms'')"
    by (rule kept) (use range(3) [OF _ refl] in force)
  show "map_option to_int32 (sdk_as_int64 api (y_child api n ''retry_count'')) = sdk_as_int64 api (y_child api n ''retry_count'')"
    by (rule kept) (use range(4) [OF _ refl] in force)
qed

lemma load_scalars_describes:
  assumes hw: "object_ok api hardware_object (y_child api doc ''hardware'')"
    and "list_all2 (describes_device api)
        (if y_is_defined api (y_child api doc ''devices'') \<and> y_is_sequence api (y_child api doc ''devices'')
         then y_elements api (y_child api doc ''devices'') else []) devs"
  shows "describes api path doc ((load_scalars api path doc)\<lparr>devices := devs\<rparr>)"
proof -
  obtain b where "sdk_as_string api (y_child api (y_child api doc ''hardware'') ''bus_path'') = Some b"
    using hw by (auto simp: object_ok_def hardware_object_def build_schema_def Let_def field_ok_def field_of_def split: option.splits)
  then show ?thesis using assms(2)
    by (simp add: describes_def load_scalars_def set_fields setting_kept [OF hw] default_ProviderConfig_def Let_def)
      (simp add: or_default_def)
qed

text \<open>A valid document always loads, and the configuration is the one it describes and within what the schema declares.\<close>

definition config_ok :: "ProviderConfig \<Rightarrow> bool" where
  "config_ok c \<longleftrightarrow> scalars_ok c \<and>
     distinct (map ds_id (devices c)) \<and> distinct (map ds_address (devices c)) \<and>
     (\<forall>d \<in> set (devices c). 0x08 \<le> ds_address d \<and> ds_address d \<le> 0x77)"

lemma load_config_fields:
  assumes ok: "schema_ok api provider_schema doc" and load: "y_load_file api path = Inr doc"
    and valid: "sdk_validate api provider_schema doc = []"
  shows "\<exists>c. load_config api path = Inr c \<and> describes api path doc c \<and> config_ok c"
proof -
  let ?devs = "y_child api doc ''devices''"
  define nodes where "nodes = (if y_is_defined api ?devs \<and> y_is_sequence api ?devs then y_elements api ?devs else [])"
  note s = ok [unfolded schema_ok_def provider_schema_def build_schema_def Let_def, simplified]
  have hw: "object_ok api hardware_object (y_child api doc ''hardware'')" using s by (simp add: hardware_object_def build_schema_def)
  have nodes: "\<forall>n \<in> set nodes. object_ok api device_object n"
    "distinct (map (\<lambda>n. sdk_as_string api (y_child api n ''id'')) nodes)"
    "distinct (map (\<lambda>n. sdk_parse_i2c_address api (y_child api n ''address'')) nodes)"
    using s by (simp_all add: nodes_def device_object_def build_schema_def unique_ok_def field_of_def)
  from load_devices_describes [OF nodes(1)] obtain specs where specs: "load_devices api nodes = Inr specs"
    "list_all2 (describes_device api) nodes specs" "\<forall>s \<in> set specs. 0x08 \<le> ds_address s \<and> ds_address s \<le> 0x77" by blast
  have keys: "map (\<lambda>n. sdk_as_string api (y_child api n ''id'')) nodes = map (Some \<circ> ds_id) specs"
    "map (\<lambda>n. sdk_parse_i2c_address api (y_child api n ''address'')) nodes = map (Some \<circ> ds_address) specs"
    using specs(2) by (induction rule: list_all2_induct) (simp_all add: describes_device_def)
  have "distinct (map ds_id specs)" "distinct (map ds_address specs)"
    using nodes(2,3) unfolding keys by (simp_all add: distinct_map inj_on_def)
  moreover have "load_config api path = Inr ((load_scalars api path doc)\<lparr>devices := specs\<rparr>)"
    using specs(1) load_scalars_ok [OF hw, of path] by (auto simp: load_config_def load valid nodes_def Let_def)
  moreover have "scalars_ok ((load_scalars api path doc)\<lparr>devices := specs\<rparr>)"
    using load_scalars_ok [OF hw, of path] by (simp add: scalars_ok_def)
  ultimately show ?thesis
    using load_scalars_describes [OF hw specs(2) [unfolded nodes_def], of path] specs(3) by (auto simp: config_ok_def)
qed

section \<open>Properties\<close>

text \<open>
  C40: the freshness bound is never shorter than the refresh cadence (the failure of ezo#114). For every
  configuration the bound lies between 500 ms and \<open>INT_MAX\<close>; for every interval an \<^verbatim>\<open>int\<close> can hold it is at
  least the declared interval, the 64-bit product and the final cast never wrap, and unless the clamp to
  \<open>INT_MAX\<close> applies the bound is exactly three intervals, floored at 500 ms.
\<close>

theorem stale_bound_covers_cadence:
  assumes "cfg_sample_interval_ms c \<le> int_max"
  shows "500 \<le> stale_after_ms c \<and> stale_after_ms c \<le> int_max \<and>
    sample_interval_ms c \<le> stale_after_ms c \<and> cfg_sample_interval_ms c \<le> stale_after_ms c \<and>
    (sample_interval_ms c * 3 \<le> int_max \<longrightarrow> stale_after_ms c = max (sample_interval_ms c * 3) 500)"
  using assms sample_interval_ge [of c]
  by (auto simp: stale_after_eq int_max_def sample_interval_ms_def kMinSampleIntervalMs_def)

theorem stale_bound_covers_cadence_witness:
  "let c = default_ProviderConfig\<lparr>cfg_sample_interval_ms := int_max\<rparr> in
   500 \<le> stale_after_ms c \<and> stale_after_ms c = int_max"
  using stale_bound_covers_cadence [of "default_ProviderConfig\<lparr>cfg_sample_interval_ms := int_max\<rparr>"]
  by (simp add: Let_def)

text \<open>
  Device family names round-trip. A string parses to a family exactly when it is the family's printed
  name; every other string is rejected with the runtime error that quotes it.
\<close>

theorem parse_device_type_iff:
  "(parse_device_type v = Inr t \<longleftrightarrow> v = to_string t) \<and>
   ((\<nexists>t. v = to_string t) \<longleftrightarrow> parse_device_type v = Inl (''Invalid devices[].type: '' @ quoted v))"
proof -
  have *: "parse_device_type v = Inr t \<longleftrightarrow> v = to_string t" for t
    by (cases t) (auto simp: parse_device_type_def)
  moreover have "(\<exists>t. parse_device_type v = Inr t) \<or> parse_device_type v = Inl (''Invalid devices[].type: '' @ quoted v)"
    by (simp add: parse_device_type_def)
  ultimately show ?thesis by (metis Inl_Inr_False)
qed

text \<open>
  An address prints as \<^verbatim>\<open>0x\<close> and hexadecimal digits that read back to the address, and a bus address
  (below 0x100) prints as exactly four characters, so distinct addresses print differently.
\<close>

theorem format_i2c_address_roundtrip:
  assumes "0 \<le> a" and "a \<le> int_max"
  shows "take 2 (format_i2c_address a) = ''0x'' \<and>
    read_digits 16 (drop 2 (format_i2c_address a)) = nat a \<and>
    (a < 256 \<longrightarrow> length (format_i2c_address a) = 4)"
proof -
  have m: "a mod 4294967296 = a" using assms by (simp add: int_max_def)
  have rd: "read_digits 16 (show_hex n) = n" for n by (simp add: show_hex_def read_show_digits)
  have len: "length (show_hex (nat a)) = 1 \<or> length (show_hex (nat a)) = 2" if "a < 256"
    using that show_hex_short [of "nat a"] show_hex_two [of "nat a"] by (cases "nat a < 16") auto
  show ?thesis using len
    by (auto simp: format_i2c_address_def m rd Let_def read_hex_pad)
qed

theorem format_i2c_address_roundtrip_witness:
  "read_digits 16 (drop 2 (format_i2c_address 0x63)) = 0x63 \<and> length (format_i2c_address 0x63) = 4"
  using format_i2c_address_roundtrip [of "0x63"] by (simp add: int_max_def)

text \<open>
  C28: loading a configuration. A document that does not parse is refused with the parser's error, and one that does not
  validate with the validator's errors, each with the path. If the SDK validator is sound for the schema, every other
  document loads (no device type throws), and every field of the configuration is the value the document gives under the
  field's own key, unchanged by the narrowing casts, or the documented default when the document gives none: the devices in
  their order, with the id as the default label. The settings are in the declared ranges, device
  ids and addresses are pairwise distinct, and every address is a 7-bit bus address.
\<close>

theorem load_config_correct:
  assumes "validator_sound api"
  shows "case y_load_file api path of
      Inl what \<Rightarrow> load_config api path = Inl (''Failed to parse config '' @ quoted path @ '': '' @ what)
    | Inr doc \<Rightarrow>
        (case sdk_validate api provider_schema doc of
           [] \<Rightarrow> \<exists>c. load_config api path = Inr c \<and> describes api path doc c \<and> config_ok c
         | e # es \<Rightarrow> load_config api path =
             Inl (''Invalid config '' @ quoted path @ '':'' @ [CHR 0x0A] @ sdk_format_errors api (e # es)))"
proof (cases "y_load_file api path")
  case (Inr doc)
  show ?thesis
  proof (cases "sdk_validate api provider_schema doc")
    case Nil
    then have "schema_ok api provider_schema doc" using assms by (simp add: validator_sound_def)
    from load_config_fields [OF this Inr Nil] show ?thesis using Inr Nil by simp
  qed (simp add: Inr load_config_def)
qed (simp add: load_config_def)

text \<open>
  A concrete instance for the witness: documents as nested association lists, a validator that checks the
  schema, and a document with two devices.
\<close>

datatype demo_node = DUndef | DStr string | DInt int | DMap "(string \<times> demo_node) list" | DSeq "demo_node list"

fun demo_child :: "demo_node \<Rightarrow> string \<Rightarrow> demo_node" where
  "demo_child (DMap kvs) k = (case map_of kvs k of None \<Rightarrow> DUndef | Some v \<Rightarrow> v)"
| "demo_child _ k = DUndef"

definition demo_doc :: demo_node where
  "demo_doc = DMap
     [(''hardware'', DMap [(''bus_path'', DStr ''mock://bench''), (''sample_interval_ms'', DInt 1000)]),
      (''discovery'', DMap [(''mode'', DStr ''manual'')]),
      (''devices'', DSeq
         [DMap [(''id'', DStr ''ph0''), (''type'', DStr ''ph''), (''address'', DInt 0x63)],
          DMap [(''id'', DStr ''do0''), (''type'', DStr ''do''), (''address'', DInt 0x61)]])]"

definition demo_api0 :: "demo_node config_api" where
  "demo_api0 =
     \<lparr>y_load_file = (\<lambda>p. if p = ''ezo.yaml'' then Inr demo_doc else Inl ''bad file''),
      y_child = demo_child, y_is_defined = (\<lambda>n. n \<noteq> DUndef),
      y_is_sequence = (\<lambda>n. case n of DSeq _ \<Rightarrow> True | _ \<Rightarrow> False),
      y_elements = (\<lambda>n. case n of DSeq ns \<Rightarrow> ns | _ \<Rightarrow> []),
      sdk_validate = (\<lambda>_ _. []), sdk_format_errors = concat,
      sdk_as_string = (\<lambda>n. case n of DStr s \<Rightarrow> Some s | _ \<Rightarrow> None),
      sdk_as_int64 = (\<lambda>n. case n of DInt i \<Rightarrow> Some i | _ \<Rightarrow> None),
      sdk_parse_i2c_address = (\<lambda>n. case n of DInt i \<Rightarrow> if 8 \<le> i \<and> i \<le> 0x77 then Some i else None | _ \<Rightarrow> None),
      fs_absolute = (\<lambda>p. ''/etc/'' @ p)\<rparr>"

definition demo_api :: "demo_node config_api" where
  "demo_api = demo_api0\<lparr>sdk_validate := (\<lambda>s doc. if schema_ok demo_api0 s doc then [] else [''invalid''])\<rparr>"

lemma schema_ok_validate_update [simp]:
  "field_ok (api\<lparr>sdk_validate := v\<rparr>) f n = field_ok api f n"
  "object_ok (api\<lparr>sdk_validate := v\<rparr>) d n = object_ok api d n"
  "unique_ok (api\<lparr>sdk_validate := v\<rparr>) f ns = unique_ok api f ns"
  "schema_ok (api\<lparr>sdk_validate := v\<rparr>) s n = schema_ok api s n"
proof -
  show f: "field_ok (api\<lparr>sdk_validate := v\<rparr>) f n = field_ok api f n" for f n
    by (simp add: field_ok_def split: field_kind.split)
  show o: "object_ok (api\<lparr>sdk_validate := v\<rparr>) d n = object_ok api d n" for d n
    by (simp add: object_ok_def f)
  show u: "unique_ok (api\<lparr>sdk_validate := v\<rparr>) f ns = unique_ok api f ns" for f ns
    by (simp add: unique_ok_def split: field_kind.split)
  show "schema_ok (api\<lparr>sdk_validate := v\<rparr>) s n = schema_ok api s n"
    by (simp add: schema_ok_def o u)
qed

lemma demo_validator_sound: "validator_sound demo_api"
  by (simp add: validator_sound_def demo_api_def)

lemma demo_doc_valid: "sdk_validate demo_api provider_schema demo_doc = []"
  by (simp add: demo_api_def provider_schema_def build_schema_def schema_ok_def object_ok_def unique_ok_def
      field_ok_def field_of_def demo_doc_def demo_api0_def Let_def)

lemma demo_api_sel:
  "y_child demo_api = demo_child" "y_is_defined demo_api n \<longleftrightarrow> n \<noteq> DUndef"
  "y_is_sequence demo_api (DSeq ns)" "y_elements demo_api (DSeq ns) = ns"
  "sdk_as_string demo_api n = (case n of DStr s \<Rightarrow> Some s | _ \<Rightarrow> None)" "sdk_as_int64 demo_api n = (case n of DInt i \<Rightarrow> Some i | _ \<Rightarrow> None)"
  "sdk_parse_i2c_address demo_api (DInt i) = (if 8 \<le> i \<and> i \<le> 0x77 then Some i else None)"
  by (simp_all add: demo_api_def demo_api0_def)

theorem load_config_correct_witness:
  "\<exists>c. load_config demo_api ''ezo.yaml'' = Inr c \<and> bus_path c = ''mock://bench'' \<and> provider_name c = ''anolis-provider-ezo'' \<and>
     cfg_sample_interval_ms c = 1000 \<and> timeout_ms c = 300 \<and> query_delay_us c = 300000 \<and> retry_count c = 2 \<and>
     map ds_id (devices c) = [''ph0'', ''do0''] \<and> map ds_type (devices c) = [Ph, Do] \<and> map ds_address (devices c) = [0x63, 0x61]"
proof -
  have load: "y_load_file demo_api ''ezo.yaml'' = Inr demo_doc" by (simp add: demo_api_def demo_api0_def)
  from load_config_correct [OF demo_validator_sound, of "''ezo.yaml''"] obtain c
    where c: "load_config demo_api ''ezo.yaml'' = Inr c" "describes demo_api ''ezo.yaml'' demo_doc c"
    using load demo_doc_valid by auto
  have "list_all2 (describes_device demo_api) [DMap [(''id'', DStr ''ph0''), (''type'', DStr ''ph''), (''address'', DInt 0x63)],
      DMap [(''id'', DStr ''do0''), (''type'', DStr ''do''), (''address'', DInt 0x61)]] (devices c)"
    and scalars: "bus_path c = ''mock://bench''" "provider_name c = ''anolis-provider-ezo''" "cfg_sample_interval_ms c = 1000"
      "timeout_ms c = 300" "query_delay_us c = 300000" "retry_count c = 2"
    using c(2) by (simp_all add: describes_def or_default_def demo_api_sel demo_doc_def Let_def)
  then obtain z za where z: "devices c = [z, za]" "ds_id z = ''ph0''" "to_string (ds_type z) = to_string Ph" "ds_address z = 0x63"
      "ds_id za = ''do0''" "to_string (ds_type za) = to_string Do" "ds_address za = 0x61"
    by (auto simp: describes_device_def demo_api_sel list_all2_Cons1 simp del: to_string_inject)
  have "ds_type z = Ph" "ds_type za = Do" using z(3,6) by (simp_all only: to_string_inject)
  with z c(1) scalars show ?thesis by (intro exI [of _ c]) simp
qed

end
