(* ===== verification/Ezo_Bus.thy ===== *)
theory Ezo_Bus
  imports Ezo_Config
begin

text \<open>
  The raw-byte transport: the virtual interface \<^verbatim>\<open>I2cBus\<close> of the SDK as a record of operations on a bus
  state, the contract its clients rely on as the locale \<open>i2c_bus\<close>, the no-hardware bus
  (\<^verbatim>\<open>src/i2c/noop_i2c_bus.cpp\<close>), and the bridge that hands a bus to the EZO C driver
  (\<^verbatim>\<open>src/i2c/ezo_i2c_bridge.cpp\<close>).
\<close>

section \<open>The interface\<close>

record IoStats =
  io_ok :: u64
  io_failed :: u64
  io_retried_attempts :: u64

definition zero_IoStats :: IoStats where
  "zero_IoStats = \<lparr>io_ok = 0, io_failed = 0, io_retried_attempts = 0\<rparr>"

text \<open>
  One field per virtual function. \<open>tx_data\<close> is a byte list (its length is \<^verbatim>\<open>tx_len\<close>); the receive
  buffer is given by whether its pointer is non-null and its length. A receiving operation yields the
  status and what it stored: \<open>None\<close> when it left \<^verbatim>\<open>*rx_received\<close> alone, and \<open>Some bytes\<close> when it set
  \<^verbatim>\<open>*rx_received\<close> to the length of \<open>bytes\<close> and wrote them.
\<close>

record 'b bus_ops =
  bus_open :: "'b \<Rightarrow> I2cStatus \<times> 'b"
  bus_close :: "'b \<Rightarrow> 'b"
  bus_is_open :: "'b \<Rightarrow> bool"
  bus_bus_path :: "'b \<Rightarrow> string"
  bus_write :: "u8 \<Rightarrow> u8 list \<Rightarrow> 'b \<Rightarrow> I2cStatus \<times> 'b"
  bus_read :: "u8 \<Rightarrow> bool \<Rightarrow> nat \<Rightarrow> 'b \<Rightarrow> (I2cStatus \<times> u8 list option) \<times> 'b"
  bus_write_then_read :: "u8 \<Rightarrow> u8 list \<Rightarrow> bool \<Rightarrow> nat \<Rightarrow> 'b \<Rightarrow> (I2cStatus \<times> u8 list option) \<times> 'b"
  bus_delay_us :: "u32 \<Rightarrow> 'b \<Rightarrow> 'b"
  bus_io_stats_for :: "u8 \<Rightarrow> 'b \<Rightarrow> IoStats"

text \<open>
  What a client relies on: opening and closing do what they say, a transaction on a closed bus fails without
  touching the bus, and neither a transaction nor a delay opens or closes the bus.
\<close>

locale i2c_bus =
  fixes ops :: "'b bus_ops"
  assumes open_opens: "bus_open ops b = (I2c_ok, b') \<Longrightarrow> bus_is_open ops b'"
    and close_closes: "\<not> bus_is_open ops (bus_close ops b)"
    and closed_transaction: "\<not> bus_is_open ops b \<Longrightarrow> bus_write_then_read ops a tx nn n b = (r, b') \<Longrightarrow>
      fst r \<noteq> I2c_ok \<and> b' = b"
    and transaction_keeps_open: "bus_write_then_read ops a tx nn n b = (r, b') \<Longrightarrow> bus_is_open ops b' = bus_is_open ops b"
    and delay_keeps_open: "bus_is_open ops (bus_delay_us ops d b) = bus_is_open ops b"

section \<open>The no-hardware bus\<close>

record NoopI2cBus =
  noop_bus_path :: string
  noop_opened :: bool

definition NoopI2cBus_new :: "string \<Rightarrow> NoopI2cBus" where
  "NoopI2cBus_new path = \<lparr>noop_bus_path = path, noop_opened = False\<rparr>"

definition noop_open :: "NoopI2cBus \<Rightarrow> I2cStatus \<times> NoopI2cBus" where
  "noop_open b = (I2c_ok, b\<lparr>noop_opened := True\<rparr>)"

definition noop_close :: "NoopI2cBus \<Rightarrow> NoopI2cBus" where
  "noop_close b = b\<lparr>noop_opened := False\<rparr>"

definition noop_write :: "u8 \<Rightarrow> u8 list \<Rightarrow> NoopI2cBus \<Rightarrow> I2cStatus \<times> NoopI2cBus" where
  "noop_write address tx b =
     (if \<not> noop_opened b then (I2c_failure I2cError_NotOpen ''bus not open'', b)
      else (I2c_failure I2cError_BusError ''hardware integration disabled in this build'', b))"

definition noop_read :: "u8 \<Rightarrow> bool \<Rightarrow> nat \<Rightarrow> NoopI2cBus \<Rightarrow> (I2cStatus \<times> u8 list option) \<times> NoopI2cBus" where
  "noop_read address rx_data rx_len b =
     (if \<not> noop_opened b then ((I2c_failure I2cError_NotOpen ''bus not open'', Some []), b)
      else ((I2c_failure I2cError_BusError ''hardware integration disabled in this build'', Some []), b))"

definition noop_write_then_read ::
    "u8 \<Rightarrow> u8 list \<Rightarrow> bool \<Rightarrow> nat \<Rightarrow> NoopI2cBus \<Rightarrow> (I2cStatus \<times> u8 list option) \<times> NoopI2cBus" where
  "noop_write_then_read address tx rx_data rx_len b =
     (if \<not> noop_opened b then ((I2c_failure I2cError_NotOpen ''bus not open'', Some []), b)
      else ((I2c_failure I2cError_BusError ''hardware integration disabled in this build'', Some []), b))"

definition noop_ops :: "NoopI2cBus bus_ops" where
  "noop_ops =
     \<lparr>bus_open = noop_open, bus_close = noop_close, bus_is_open = noop_opened, bus_bus_path = noop_bus_path,
      bus_write = noop_write, bus_read = noop_read, bus_write_then_read = noop_write_then_read,
      bus_delay_us = (\<lambda>_ b. b), bus_io_stats_for = (\<lambda>_ _. zero_IoStats)\<rparr>"

interpretation noop: i2c_bus noop_ops
  by unfold_locales
    (auto simp: noop_ops_def noop_open_def noop_close_def noop_write_then_read_def split: if_splits)

section \<open>The bridge to the EZO driver\<close>

text \<open>
  The driver calls back with the bus as its transport context (a null context is \<open>None\<close>) and understands
  only its own result codes.
\<close>

type_synonym 'b transport =
  "'b option \<Rightarrow> u8 \<Rightarrow> u8 list \<Rightarrow> bool \<Rightarrow> nat \<Rightarrow> (ezo_result \<times> u8 list option) \<times> 'b option"

definition transport_write_then_read :: "('b, 'm) bus_ops_scheme \<Rightarrow> 'b transport" where
  "transport_write_then_read ops ctx address tx_data rx_data rx_len =
     (case ctx of
        None \<Rightarrow> ((EZO_ERR_INVALID_ARGUMENT, None), None)
      | Some bus \<Rightarrow>
          (case bus_write_then_read ops address tx_data rx_data rx_len bus of
             ((status, rx), bus') \<Rightarrow>
               ((if status = I2c_ok then EZO_OK else EZO_ERR_TRANSPORT, rx), Some bus')))"

context i2c_bus
begin

lemma transport_closed:
  assumes "\<not> bus_is_open ops b" and "transport_write_then_read ops (Some b) a tx nn n = ((r, rx), ctx)"
  shows "r = EZO_ERR_TRANSPORT \<and> ctx = Some b"
  using assms closed_transaction [OF assms(1)]
  by (auto simp: transport_write_then_read_def split: prod.splits)

lemma transport_keeps_open:
  assumes "transport_write_then_read ops (Some b) a tx nn n = (r, ctx)"
  obtains b' where "ctx = Some b'" and "bus_is_open ops b' = bus_is_open ops b"
  using assms by (auto simp: transport_write_then_read_def transaction_keeps_open split: prod.splits)

end

end
