(* ===== verification/Ezo_Executor.thy ===== *)
theory Ezo_Executor
  imports Ezo_Bus
begin

text \<open>
  The serialized bus executor (\<^verbatim>\<open>src/i2c/bus_executor.cpp\<close>). Callers, the worker thread and the stopping
  thread are interleaved: every lock region, atomic access, promise operation and bus access is one
  transition of \<open>step\<close>. The invariant rule for traces is the locale \<open>trace_invariant\<close>. The second half
  is the executor as one caller at a time sees it, \<open>submit\<close>, and the proof that each of its outcomes is
  an execution of the interleaved system.
\<close>

section \<open>Traces and their invariants\<close>

inductive steps :: "('s \<Rightarrow> 'l \<Rightarrow> 's \<Rightarrow> bool) \<Rightarrow> 's \<Rightarrow> 'l list \<Rightarrow> 's \<Rightarrow> bool" for R s where
  steps_refl: "steps R s [] s"
| steps_snoc: "steps R s tr s' \<Longrightarrow> R s' l s'' \<Longrightarrow> steps R s (tr @ [l]) s''"

lemma steps_trans:
  assumes "steps R s' tr' s''" and "steps R s tr s'"
  shows "steps R s (tr @ tr') s''"
  using assms
proof (induction rule: steps.induct)
  case (steps_snoc tr1 s1 l s2)
  then have "steps R s ((tr @ tr1) @ [l]) s2" by (blast intro: steps.steps_snoc)
  then show ?case by simp
qed simp

lemma steps_Cons: "R s l s' \<Longrightarrow> steps R s' tr s'' \<Longrightarrow> steps R s (l # tr) s''"
  using steps_trans [of R s' tr s'' s "[l]"] steps_snoc [OF steps_refl, of R s l s'] by simp

lemma steps_one: "R s l s' \<Longrightarrow> steps R s [l] s'"
  using steps_snoc [OF steps_refl, of R s l s'] by simp

locale trace_invariant =
  fixes start_state :: "'s \<Rightarrow> bool" and trans :: "'s \<Rightarrow> 'l \<Rightarrow> 's \<Rightarrow> bool" and good :: "'l list \<Rightarrow> 's \<Rightarrow> bool"
  assumes good_start: "start_state s \<Longrightarrow> good [] s"
    and good_step: "good tr s \<Longrightarrow> trans s l s' \<Longrightarrow> good (tr @ [l]) s'"
begin

lemma good_steps: "steps trans s tr s' \<Longrightarrow> start_state s \<Longrightarrow> good tr s'"
  by (induction rule: steps.induct) (auto intro: good_start good_step)

end

section \<open>State of the executor\<close>

record BusExecutorMetrics =
  submitted :: u64
  started :: u64
  succeeded :: u64
  failed :: u64
  timed_out :: u64
  cancelled :: u64
  queue_depth :: u64
  metrics_last_error :: string

definition zero_metrics :: BusExecutorMetrics where
  "zero_metrics = \<lparr>submitted = 0, started = 0, succeeded = 0, failed = 0, timed_out = 0, cancelled = 0,
     queue_depth = 0, metrics_last_error = ''''\<rparr>"

text \<open>
  A task is shared by its caller and the worker; \<open>promise\<close> is \<open>None\<close> until a status is set. The fields
  \<open>task_timeout\<close> and \<open>caller\<close> are the local state of the \<^verbatim>\<open>submit\<close> call that queued it: it waits, it has
  seen its wait expire, it has set the flag, or it has returned.
\<close>

datatype caller_pc = Waiting | Expired | Flagged | Returned Status

record 'b Task =
  task_name :: string
  task_job :: "'b \<Rightarrow> Status \<times> 'b"
  promise :: "Status option"
  timed_out_flag :: bool
  task_timeout :: int
  caller :: caller_pc

text \<open>
  Where the worker thread is: not started, at the condition variable, holding a task it popped, having set
  the promise of a task it skips, inside the job, with the job's result not yet looked at, about to
  count it because the flag was not set, with the promise not yet set, or out of its loop. The stopping thread is outside \<^verbatim>\<open>stop\<close>, in
  \<^verbatim>\<open>join\<close>, past it, or past closing the bus.
\<close>

datatype worker_pc = NoThread | AtWait | Took nat | SkipSet nat | Running nat | Ended nat Status
  | Counting nat Status | Counted nat Status | Exited

datatype stop_pc = NotStopping | Joining | Joined | Closed_bus

record 'b BusExecutor =
  ex_bus :: "'b option"
  ex_queue :: "nat list"
  ex_running :: bool
  ex_stopping :: bool
  ex_worker :: worker_pc
  ex_metrics :: BusExecutorMetrics
  tasks :: "'b Task list"
  stopper :: stop_pc

definition BusExecutor_new :: "'b option \<Rightarrow> 'b BusExecutor" where
  "BusExecutor_new b = \<lparr>ex_bus = b, ex_queue = [], ex_running = False, ex_stopping = False, ex_worker = NoThread,
     ex_metrics = zero_metrics, tasks = [], stopper = NotStopping\<rparr>"

definition upd_task :: "nat \<Rightarrow> ('b Task \<Rightarrow> 'b Task) \<Rightarrow> 'b BusExecutor \<Rightarrow> 'b BusExecutor" where
  "upd_task t f e = e\<lparr>tasks := (tasks e)[t := f (tasks e ! t)]\<rparr>"

definition upd_metrics :: "(BusExecutorMetrics \<Rightarrow> BusExecutorMetrics) \<Rightarrow> 'b BusExecutor \<Rightarrow> 'b BusExecutor" where
  "upd_metrics f e = e\<lparr>ex_metrics := f (ex_metrics e)\<rparr>"

text \<open>\<^verbatim>\<open>set_value\<close> on a satisfied promise throws, and the catch leaves the promise as it is.\<close>

definition safe_set_promise :: "nat \<Rightarrow> Status \<Rightarrow> 'b BusExecutor \<Rightarrow> 'b BusExecutor" where
  "safe_set_promise t st = upd_task t (\<lambda>k. case promise k of None \<Rightarrow> k\<lparr>promise := Some st\<rparr> | Some _ \<Rightarrow> k)"

section \<open>Operations, region by region\<close>

definition exec_start :: "('b, 'm) bus_ops_scheme \<Rightarrow> 'b BusExecutor \<Rightarrow> Status \<times> 'b BusExecutor" where
  "exec_start ops e =
     (if ex_running e then (Status_ok, e)
      else case ex_bus e of
        None \<Rightarrow> (make_status Internal ''missing bus'', e)
      | Some b \<Rightarrow>
          (case bus_open ops b of
             (opened, b') \<Rightarrow>
               let open_status = status_from_i2c opened; e' = e\<lparr>ex_bus := Some b'\<rparr> in
               if \<not> is_ok open_status
               then (open_status, upd_metrics (metrics_last_error_update (\<lambda>_. message open_status)) e')
               else (Status_ok, e'\<lparr>ex_stopping := False, ex_running := True, ex_worker := AtWait\<rparr>)))"

text \<open>The caller: queueing, then the end of the wait, the flag, and the two ways to return.\<close>

definition submit_refused :: "'b BusExecutor \<Rightarrow> bool" where
  "submit_refused e \<longleftrightarrow> \<not> ex_running e \<or> ex_stopping e"

definition submit_enqueue ::
    "string \<Rightarrow> int \<Rightarrow> ('b \<Rightarrow> Status \<times> 'b) \<Rightarrow> 'b BusExecutor \<Rightarrow> 'b BusExecutor" where
  "submit_enqueue job_name timeout job e =
     (let q = ex_queue e @ [length (tasks e)] in
      upd_metrics (\<lambda>m. m\<lparr>submitted := submitted m + 1, queue_depth := of_nat (length q)\<rparr>)
        (e\<lparr>ex_queue := q,
           tasks := tasks e @ [\<lparr>task_name = job_name, task_job = job, promise = None, timed_out_flag = False,
                               task_timeout = timeout, caller = Waiting\<rparr>]\<rparr>))"

definition timeout_message :: "string \<Rightarrow> string" where
  "timeout_message job_name = ''job '' @ quoted job_name @ '' timed out''"

definition deadline_status :: "string \<Rightarrow> Status" where
  "deadline_status job_name = make_status DeadlineExceeded (timeout_message job_name)"

definition late_metrics :: "string \<Rightarrow> BusExecutorMetrics \<Rightarrow> BusExecutorMetrics" where
  "late_metrics job_name m = m\<lparr>timed_out := timed_out m + 1, metrics_last_error := timeout_message job_name\<rparr>"

definition submit_deadline :: "nat \<Rightarrow> 'b BusExecutor \<Rightarrow> 'b BusExecutor" where
  "submit_deadline t e =
     (let job_name = task_name (tasks e ! t) in
      upd_task t (caller_update (\<lambda>_. Returned (deadline_status job_name)))
        (upd_metrics (late_metrics job_name) e))"

text \<open>The worker: popping a task, skipping it, running it, counting its result.\<close>

definition worker_take :: "nat \<Rightarrow> nat list \<Rightarrow> 'b BusExecutor \<Rightarrow> 'b BusExecutor" where
  "worker_take t rest e =
     upd_metrics (\<lambda>m. m\<lparr>queue_depth := of_nat (length rest), started := started m + 1\<rparr>)
       (e\<lparr>ex_queue := rest, ex_worker := Took t\<rparr>)"

definition skipped_status :: Status where
  "skipped_status = make_status Cancelled ''task skipped because caller timed out''"

definition count_result :: "Status \<Rightarrow> BusExecutorMetrics \<Rightarrow> BusExecutorMetrics" where
  "count_result st m =
     (if is_ok st then m\<lparr>succeeded := succeeded m + 1\<rparr>
      else m\<lparr>failed := failed m + 1, metrics_last_error := message st\<rparr>)"

text \<open>The stopping thread: the first lock region drains the queue in order.\<close>

definition stopped_status :: Status where
  "stopped_status = make_status Cancelled ''executor stopped before task execution''"

fun cancel_pending :: "nat list \<Rightarrow> 'b BusExecutor \<Rightarrow> 'b BusExecutor" where
  "cancel_pending [] e = e"
| "cancel_pending (t # ts) e =
     cancel_pending ts
       (upd_metrics (\<lambda>m. m\<lparr>cancelled := cancelled m + 1\<rparr>) (safe_set_promise t stopped_status e))"

definition stop_begin :: "'b BusExecutor \<Rightarrow> 'b BusExecutor" where
  "stop_begin e =
     cancel_pending (ex_queue e)
       (upd_metrics (\<lambda>m. m\<lparr>queue_depth := 0\<rparr>)
         (e\<lparr>ex_stopping := True, ex_queue := [], stopper := Joining\<rparr>))"

definition close_bus :: "('b, 'm) bus_ops_scheme \<Rightarrow> 'b BusExecutor \<Rightarrow> 'b BusExecutor" where
  "close_bus ops e = e\<lparr>ex_bus := map_option (bus_close ops) (ex_bus e)\<rparr>"

section \<open>The interleaved system\<close>

datatype label = L_Start Status | L_StartAgain | L_Refused | L_Enqueue nat | L_WaitExpired nat | L_Flag nat | L_Deadline nat
  | L_Return nat Status | L_Take nat | L_Skip nat | L_CountSkip nat | L_Begin nat | L_End nat Status
  | L_NotLate nat Status | L_Count nat Status | L_NoCount nat Status | L_Resolve nat Status | L_Exit
  | L_StopIdle | L_StopBegin nat | L_Join | L_Close | L_StopEnd

text \<open>
  \<^verbatim>\<open>stop\<close> is entered by one thread at a time: the runtime calls it on the executor it has just taken out of
  the shared pointer, and the destructor runs after that.
\<close>

inductive step :: "('b, 'm) bus_ops_scheme \<Rightarrow> 'b BusExecutor \<Rightarrow> label \<Rightarrow> 'b BusExecutor \<Rightarrow> bool"
  for ops where
  start: "\<not> ex_running e \<Longrightarrow> exec_start ops e = (st, e') \<Longrightarrow> step ops e (L_Start st) e'"
| start_again: "ex_running e \<Longrightarrow> step ops e L_StartAgain e"
| refused: "submit_refused e \<Longrightarrow> step ops e L_Refused e"
| enqueue: "\<not> submit_refused e \<Longrightarrow>
    step ops e (L_Enqueue (length (tasks e))) (submit_enqueue job_name timeout job e)"
| wait_expired: "t < length (tasks e) \<Longrightarrow> caller (tasks e ! t) = Waiting \<Longrightarrow> 0 < task_timeout (tasks e ! t) \<Longrightarrow>
    promise (tasks e ! t) = None \<Longrightarrow>
    step ops e (L_WaitExpired t) (upd_task t (caller_update (\<lambda>_. Expired)) e)"
| flag: "t < length (tasks e) \<Longrightarrow> caller (tasks e ! t) = Expired \<Longrightarrow>
    step ops e (L_Flag t) (upd_task t (\<lambda>k. k\<lparr>timed_out_flag := True, caller := Flagged\<rparr>) e)"
| deadline: "t < length (tasks e) \<Longrightarrow> caller (tasks e ! t) = Flagged \<Longrightarrow>
    step ops e (L_Deadline t) (submit_deadline t e)"
| return_get: "t < length (tasks e) \<Longrightarrow> caller (tasks e ! t) = Waiting \<Longrightarrow> promise (tasks e ! t) = Some st \<Longrightarrow>
    step ops e (L_Return t st) (upd_task t (caller_update (\<lambda>_. Returned st)) e)"
| take: "ex_worker e = AtWait \<Longrightarrow> ex_queue e = t # rest \<Longrightarrow> step ops e (L_Take t) (worker_take t rest e)"
| worker_exit: "ex_worker e = AtWait \<Longrightarrow> ex_stopping e \<Longrightarrow> ex_queue e = [] \<Longrightarrow>
    step ops e L_Exit (e\<lparr>ex_worker := Exited\<rparr>)"
| skip: "ex_worker e = Took t \<Longrightarrow> timed_out_flag (tasks e ! t) \<Longrightarrow>
    step ops e (L_Skip t) (safe_set_promise t skipped_status (e\<lparr>ex_worker := SkipSet t\<rparr>))"
| count_skip: "ex_worker e = SkipSet t \<Longrightarrow>
    step ops e (L_CountSkip t) (upd_metrics (\<lambda>m. m\<lparr>cancelled := cancelled m + 1\<rparr>) (e\<lparr>ex_worker := AtWait\<rparr>))"
| job_begin: "ex_worker e = Took t \<Longrightarrow> \<not> timed_out_flag (tasks e ! t) \<Longrightarrow>
    step ops e (L_Begin t) (e\<lparr>ex_worker := Running t\<rparr>)"
| job_end: "ex_worker e = Running t \<Longrightarrow> ex_bus e = Some b \<Longrightarrow> task_job (tasks e ! t) b = (st, b') \<Longrightarrow>
    step ops e (L_End t st) (e\<lparr>ex_bus := Some b', ex_worker := Ended t st\<rparr>)"
| not_late: "ex_worker e = Ended t st \<Longrightarrow> \<not> timed_out_flag (tasks e ! t) \<Longrightarrow>
    step ops e (L_NotLate t st) (e\<lparr>ex_worker := Counting t st\<rparr>)"
| count: "ex_worker e = Counting t st \<Longrightarrow>
    step ops e (L_Count t st) (upd_metrics (count_result st) (e\<lparr>ex_worker := Counted t st\<rparr>))"
| no_count: "ex_worker e = Ended t st \<Longrightarrow> timed_out_flag (tasks e ! t) \<Longrightarrow>
    step ops e (L_NoCount t st) (e\<lparr>ex_worker := Counted t st\<rparr>)"
| resolve: "ex_worker e = Counted t st \<Longrightarrow>
    step ops e (L_Resolve t st) (safe_set_promise t st (e\<lparr>ex_worker := AtWait\<rparr>))"
| stop_idle: "stopper e = NotStopping \<Longrightarrow> \<not> ex_running e \<Longrightarrow> step ops e L_StopIdle (close_bus ops e)"
| stop_begins: "stopper e = NotStopping \<Longrightarrow> ex_running e \<Longrightarrow>
    step ops e (L_StopBegin (length (ex_queue e))) (stop_begin e)"
| join: "stopper e = Joining \<Longrightarrow> ex_worker e = Exited \<Longrightarrow>
    step ops e L_Join (e\<lparr>ex_worker := NoThread, stopper := Joined\<rparr>)"
| stop_close: "stopper e = Joined \<Longrightarrow> step ops e L_Close ((close_bus ops e)\<lparr>stopper := Closed_bus\<rparr>)"
| stop_end: "stopper e = Closed_bus \<Longrightarrow>
    step ops e L_StopEnd (e\<lparr>ex_running := False, ex_stopping := False, stopper := NotStopping\<rparr>)"

lemma executor_update_simps [simp]:
  "ex_bus (upd_task t f e) = ex_bus e" "ex_queue (upd_task t f e) = ex_queue e"
  "ex_running (upd_task t f e) = ex_running e" "ex_stopping (upd_task t f e) = ex_stopping e"
  "ex_worker (upd_task t f e) = ex_worker e" "ex_metrics (upd_task t f e) = ex_metrics e"
  "stopper (upd_task t f e) = stopper e" "length (tasks (upd_task t f e)) = length (tasks e)"
  "ex_bus (upd_metrics g e) = ex_bus e" "ex_queue (upd_metrics g e) = ex_queue e"
  "ex_running (upd_metrics g e) = ex_running e" "ex_stopping (upd_metrics g e) = ex_stopping e"
  "ex_worker (upd_metrics g e) = ex_worker e" "tasks (upd_metrics g e) = tasks e"
  "stopper (upd_metrics g e) = stopper e" "ex_metrics (upd_metrics g e) = g (ex_metrics e)"
  by (simp_all add: upd_task_def upd_metrics_def)

lemma nth_upd_task [simp]:
  "u < length (tasks e) \<Longrightarrow> tasks (upd_task t f e) ! u = (if u = t then f (tasks e ! u) else tasks e ! u)"
  by (auto simp: upd_task_def nth_list_update)

lemma safe_set_promise_simps [simp]:
  "ex_bus (safe_set_promise t st e) = ex_bus e" "ex_queue (safe_set_promise t st e) = ex_queue e"
  "ex_running (safe_set_promise t st e) = ex_running e" "ex_stopping (safe_set_promise t st e) = ex_stopping e"
  "ex_worker (safe_set_promise t st e) = ex_worker e" "ex_metrics (safe_set_promise t st e) = ex_metrics e"
  "stopper (safe_set_promise t st e) = stopper e"
  "length (tasks (safe_set_promise t st e)) = length (tasks e)"
  by (simp_all add: safe_set_promise_def)

lemma nth_safe_set_promise:
  "u < length (tasks e) \<Longrightarrow> tasks (safe_set_promise t st e) ! u =
     (if u = t \<and> promise (tasks e ! u) = None then (tasks e ! u)\<lparr>promise := Some st\<rparr> else tasks e ! u)"
  by (auto simp: safe_set_promise_def split: option.split)

lemma cancel_pending_simps [simp]:
  "ex_bus (cancel_pending ts e) = ex_bus e" "ex_queue (cancel_pending ts e) = ex_queue e"
  "ex_running (cancel_pending ts e) = ex_running e" "ex_stopping (cancel_pending ts e) = ex_stopping e"
  "ex_worker (cancel_pending ts e) = ex_worker e" "stopper (cancel_pending ts e) = stopper e"
  "length (tasks (cancel_pending ts e)) = length (tasks e)"
  by (induction ts e rule: cancel_pending.induct) simp_all

lemma metrics_cancel_pending [simp]:
  "ex_metrics (cancel_pending ts e) = (ex_metrics e)\<lparr>cancelled := cancelled (ex_metrics e) + of_nat (length ts)\<rparr>"
  by (induction ts e rule: cancel_pending.induct) (simp_all add: algebra_simps)

lemma nth_cancel_pending:
  "u < length (tasks e) \<Longrightarrow> tasks (cancel_pending ts e) ! u =
     (if u \<in> set ts \<and> promise (tasks e ! u) = None then (tasks e ! u)\<lparr>promise := Some stopped_status\<rparr>
      else tasks e ! u)"
  by (induction ts e rule: cancel_pending.induct) (auto simp: nth_safe_set_promise)

text \<open>The task the worker holds with its promise still unset.\<close>

fun held :: "worker_pc \<Rightarrow> nat list" where
  "held (Took t) = [t]"
| "held (Running t) = [t]"
| "held (Ended t st) = [t]"
| "held (Counting t st) = [t]"
| "held (Counted t st) = [t]"
| "held _ = []"

fun control_ok :: "stop_pc \<Rightarrow> bool \<Rightarrow> bool \<Rightarrow> worker_pc \<Rightarrow> nat list \<Rightarrow> bool" where
  "control_ok NotStopping run stp w q =
     (\<not> stp \<and> (if run then w \<noteq> NoThread \<and> w \<noteq> Exited else w = NoThread \<and> q = []))"
| "control_ok Joining run stp w q = (stp \<and> run \<and> w \<noteq> NoThread \<and> q = [])"
| "control_ok _ run stp w q = (stp \<and> run \<and> w = NoThread \<and> q = [])"

definition control_inv :: "'b BusExecutor \<Rightarrow> bool" where
  "control_inv e \<longleftrightarrow> control_ok (stopper e) (ex_running e) (ex_stopping e) (ex_worker e) (ex_queue e) \<and>
     (ex_running e \<longrightarrow> ex_bus e \<noteq> None)"

definition promise_inv :: "'b BusExecutor \<Rightarrow> bool" where
  "promise_inv e \<longleftrightarrow>
     distinct (ex_queue e @ held (ex_worker e)) \<and>
     (\<forall>t \<in> set (ex_queue e @ held (ex_worker e)). t < length (tasks e)) \<and>
     (\<forall>t < length (tasks e). promise (tasks e ! t) = None \<longleftrightarrow> t \<in> set (ex_queue e @ held (ex_worker e)))"

fun caller_ok :: "'b Task \<Rightarrow> bool" where
  "caller_ok k = (case caller k of
      Waiting \<Rightarrow> \<not> timed_out_flag k
    | Expired \<Rightarrow> \<not> timed_out_flag k \<and> 0 < task_timeout k
    | Flagged \<Rightarrow> timed_out_flag k \<and> 0 < task_timeout k
    | Returned st \<Rightarrow> (if timed_out_flag k then st = deadline_status (task_name k) \<and> 0 < task_timeout k
                     else promise k = Some st))"

declare caller_ok.simps [simp del]

definition caller_inv :: "'b BusExecutor \<Rightarrow> bool" where
  "caller_inv e \<longleftrightarrow> list_all caller_ok (tasks e)"

lemmas executor_ops = late_metrics_def submit_enqueue_def submit_deadline_def worker_take_def stop_begin_def close_bus_def
  submit_refused_def Let_def

lemma exec_start_refused:
  assumes "exec_start ops e = (st, e')" and "\<not> ex_running e" and "\<not> is_ok st"
  shows "ex_running e' = ex_running e \<and> ex_stopping e' = ex_stopping e \<and> ex_worker e' = ex_worker e \<and>
    ex_queue e' = ex_queue e \<and> tasks e' = tasks e \<and> stopper e' = stopper e \<and>
    (\<exists>msg. ex_metrics e' = (ex_metrics e)\<lparr>metrics_last_error := msg\<rparr>)"
proof (cases "ex_bus e")
  case None
  then have "e' = e" using assms(1,2) by (simp add: exec_start_def)
  then show ?thesis by (metis BusExecutorMetrics.surjective BusExecutorMetrics.update_convs(8))
next
  case (Some b)
  obtain s b' where "bus_open ops b = (s, b')" by fastforce
  then show ?thesis using assms Some by (cases "is_ok (status_from_i2c s)") (auto simp: exec_start_def Let_def)
qed

lemma exec_start_opened:
  assumes "exec_start ops e = (st, e')" and "\<not> ex_running e" and "is_ok st"
  obtains b where "e' = e\<lparr>ex_bus := Some b, ex_stopping := False, ex_running := True, ex_worker := AtWait\<rparr>"
proof (cases "ex_bus e")
  case None
  then show ?thesis using assms by (auto simp: exec_start_def)
next
  case (Some b)
  obtain s b' where "bus_open ops b = (s, b')" by fastforce
  then have "e' = e\<lparr>ex_bus := Some b', ex_stopping := False, ex_running := True, ex_worker := AtWait\<rparr>"
    using assms Some by (cases "is_ok (status_from_i2c s)") (auto simp: exec_start_def Let_def)
  then show ?thesis by (rule that)
qed

lemma exec_start_frame:
  assumes "exec_start ops e = (st, e')" and "\<not> ex_running e"
  obtains msg where "ex_queue e' = ex_queue e" and "tasks e' = tasks e" and "stopper e' = stopper e"
    and "ex_worker e' = (if is_ok st then AtWait else ex_worker e)"
    and "ex_metrics e' = (ex_metrics e)\<lparr>metrics_last_error := msg\<rparr>"
proof (cases "is_ok st")
  case True
  obtain b where "e' = e\<lparr>ex_bus := Some b, ex_stopping := False, ex_running := True, ex_worker := AtWait\<rparr>"
    by (rule exec_start_opened [OF assms True])
  then show ?thesis using that [of "metrics_last_error (ex_metrics e)"] True by simp
next
  case False
  obtain msg where "ex_metrics e' = (ex_metrics e)\<lparr>metrics_last_error := msg\<rparr>"
    using exec_start_refused [OF assms False] by blast
  then show ?thesis using that [of msg] exec_start_refused [OF assms False] False by simp
qed

lemma control_inv_move:
  assumes "control_inv e" and "ex_worker e \<noteq> NoThread" and "ex_worker e' \<noteq> NoThread" and "ex_worker e' \<noteq> Exited"
    and "stopper e' = stopper e" and "ex_running e' = ex_running e" and "ex_stopping e' = ex_stopping e"
    and "ex_queue e = [] \<longrightarrow> ex_queue e' = []" and "ex_bus e \<noteq> None \<longrightarrow> ex_bus e' \<noteq> None"
  shows "control_inv e'"
  using assms by (cases "stopper e") (auto simp: control_inv_def split: if_splits)

lemma control_inv_step:
  assumes "step ops e l e'" and "control_inv e"
  shows "control_inv e'"
  using assms
proof (induction rule: step.induct)
  case (start e st e')
  then have idle: "stopper e = NotStopping" by (cases "stopper e") (simp_all add: control_inv_def)
  show ?case
  proof (cases "is_ok st")
    case True
    obtain b where "e' = e\<lparr>ex_bus := Some b, ex_stopping := False, ex_running := True, ex_worker := AtWait\<rparr>"
      by (rule exec_start_opened [OF start(2,1) True])
    then show ?thesis using start(1,3) idle by (simp add: control_inv_def)
  next
    case False
    from exec_start_refused [OF start(2,1) this] start(1,3) show ?thesis by (simp add: control_inv_def)
  qed
next
  case (enqueue e job_name timeout job)
  then show ?case by (cases "stopper e") (simp_all add: control_inv_def executor_ops)
next
  case (worker_exit e)
  then show ?case by (cases "stopper e") (simp_all add: control_inv_def)
qed ((simp add: control_inv_def executor_ops; fail) | (rule control_inv_move, assumption, simp_all add: executor_ops)[1])+

lemma promise_inv_move:
  assumes "promise_inv e" and "ex_queue e' = ex_queue e" and "held (ex_worker e') = held (ex_worker e)"
    and "length (tasks e') = length (tasks e)"
    and "\<And>t. t < length (tasks e) \<Longrightarrow> promise (tasks e' ! t) = promise (tasks e ! t)"
  shows "promise_inv e'"
  using assms by (simp add: promise_inv_def)

lemma promise_inv_settle:
  assumes "promise_inv e" and "held (ex_worker e) = [t]" and "held w = []"
  shows "promise_inv (safe_set_promise t st (e\<lparr>ex_worker := w\<rparr>))"
  using assms by (auto simp: promise_inv_def nth_safe_set_promise)

lemma promise_inv_step:
  assumes "step ops e l e'" and "control_inv e" and "promise_inv e"
  shows "promise_inv e'"
  using assms
proof (induction rule: step.induct)
  case (start e st e')
  then have "ex_worker e = NoThread" by (cases "stopper e") (simp_all add: control_inv_def)
  with start show ?case by (elim exec_start_frame) (auto simp: promise_inv_def)
next
  case (enqueue e job_name timeout job)
  then show ?case by (auto simp: promise_inv_def executor_ops nth_append intro: less_SucI)
next
  case (take e t rest)
  then show ?case by (auto simp: promise_inv_def executor_ops)
next
  case (stop_begins e)
  then show ?case by (auto simp: promise_inv_def executor_ops nth_cancel_pending)
next
  case (skip e t)
  then show ?case by (intro promise_inv_settle) simp_all
next
  case (resolve e t st)
  then show ?case by (intro promise_inv_settle) simp_all
qed ((rule promise_inv_move, assumption, simp_all add: executor_ops)[1])+

lemma list_all_upd_task:
  assumes "list_all P (tasks e)" and "t < length (tasks e) \<Longrightarrow> P (tasks e ! t) \<Longrightarrow> P (f (tasks e ! t))"
  shows "list_all P (tasks (upd_task t f e))"
  using assms by (auto simp: list_all_length nth_upd_task)

lemma caller_ok_promise: "caller_ok k \<Longrightarrow> promise k = None \<Longrightarrow> caller_ok (k\<lparr>promise := Some st\<rparr>)"
  by (auto simp: caller_ok.simps split: caller_pc.splits if_splits)

lemma caller_inv_safe_set_promise: "caller_inv e \<Longrightarrow> caller_inv (safe_set_promise t st e)"
  by (auto simp: caller_inv_def list_all_length nth_safe_set_promise caller_ok_promise)

lemma caller_inv_cancel_pending: "caller_inv e \<Longrightarrow> caller_inv (cancel_pending ts e)"
  by (auto simp: caller_inv_def list_all_length nth_cancel_pending caller_ok_promise)

lemma caller_inv_cong [simp]:
  "caller_inv (e\<lparr>ex_bus := b\<rparr>) = caller_inv e" "caller_inv (e\<lparr>ex_queue := q\<rparr>) = caller_inv e"
  "caller_inv (e\<lparr>ex_running := r\<rparr>) = caller_inv e" "caller_inv (e\<lparr>ex_stopping := r\<rparr>) = caller_inv e"
  "caller_inv (e\<lparr>ex_worker := w\<rparr>) = caller_inv e" "caller_inv (e\<lparr>stopper := p\<rparr>) = caller_inv e"
  "caller_inv (upd_metrics g e) = caller_inv e"
  by (simp_all add: caller_inv_def)

lemma caller_inv_step:
  assumes "step ops e l e'" and "caller_inv e"
  shows "caller_inv e'"
  using assms
proof (induction rule: step.induct)
  case (start e st e')
  from exec_start_frame [OF start(2,1)] start(3) show ?case by (metis caller_inv_def)
next
  case (enqueue e job_name timeout job)
  then show ?case by (simp add: caller_inv_def executor_ops caller_ok.simps)
qed (simp_all add: executor_ops caller_inv_safe_set_promise caller_inv_cancel_pending,
  auto simp: caller_inv_def caller_ok.simps intro!: list_all_upd_task)

section \<open>Order, exclusion and counting along a trace\<close>

text \<open>Task numbers are handed out in submission order. \<open>ahead\<close> are the tasks that may still run.\<close>

definition begins :: "label list \<Rightarrow> nat list" where
  "begins tr = concat (map (\<lambda>l. case l of L_Begin t \<Rightarrow> [t] | _ \<Rightarrow> []) tr)"

definition ahead :: "'b BusExecutor \<Rightarrow> nat list" where
  "ahead e = (case ex_worker e of Took t \<Rightarrow> [t] | _ \<Rightarrow> []) @ ex_queue e"

definition order_inv :: "label list \<Rightarrow> 'b BusExecutor \<Rightarrow> bool" where
  "order_inv tr e \<longleftrightarrow> sorted_wrt (<) (begins tr @ ahead e) \<and> (\<forall>t \<in> set (begins tr @ ahead e). t < length (tasks e))"

text \<open>
  The abstract bus: at most one user at a time. \<open>bus_user\<close> replays the bus accesses of a trace and is \<open>None\<close>
  as soon as one of them meets another in progress.
\<close>

fun bus_access :: "nat option option \<Rightarrow> label \<Rightarrow> nat option option" where
  "bus_access None l = None"
| "bus_access (Some u) (L_Begin t) = (if u = None then Some (Some t) else None)"
| "bus_access (Some u) (L_End t st) = (if u = Some t then Some None else None)"
| "bus_access (Some u) (L_Start st) = (if u = None then Some None else None)"
| "bus_access (Some u) L_StopIdle = (if u = None then Some None else None)"
| "bus_access (Some u) L_Close = (if u = None then Some None else None)"
| "bus_access (Some u) l = Some u"

definition bus_user :: "label list \<Rightarrow> nat option option" where
  "bus_user tr = foldl bus_access (Some None) tr"

fun using_bus :: "worker_pc \<Rightarrow> nat option" where
  "using_bus (Running t) = Some t"
| "using_bus _ = None"

fun touches_bus :: "label \<Rightarrow> bool" where
  "touches_bus (L_Begin _) = True"
| "touches_bus (L_End _ _) = True"
| "touches_bus (L_Start _) = True"
| "touches_bus L_StopIdle = True"
| "touches_bus L_Close = True"
| "touches_bus _ = False"

lemma begins_snoc [simp]: "begins (tr @ [l]) = begins tr @ (case l of L_Begin t \<Rightarrow> [t] | _ \<Rightarrow> [])"
  by (simp add: begins_def)

lemma bus_user_snoc [simp]: "bus_user (tr @ [l]) = bus_access (bus_user tr) l"
  by (simp add: bus_user_def)

lemma order_inv_step:
  assumes "step ops e l e'" and "control_inv e" and "order_inv tr e"
  shows "order_inv (tr @ [l]) e'"
  using assms
proof (induction rule: step.induct)
  case (start e st e')
  then have "ex_worker e = NoThread" by (cases "stopper e") (simp_all add: control_inv_def)
  with start show ?case by (elim exec_start_frame) (auto simp: order_inv_def ahead_def)
next
  case (enqueue e job_name timeout job)
  then show ?case
    by (auto simp: order_inv_def ahead_def executor_ops sorted_wrt_append less_Suc_eq)
next
  case (stop_begins e)
  then show ?case by (auto simp: order_inv_def ahead_def executor_ops sorted_wrt_append)
qed (auto simp: order_inv_def ahead_def executor_ops sorted_wrt_append split: worker_pc.splits)

lemma bus_user_step:
  assumes "step ops e l e'" and "control_inv e" and "bus_user tr = Some (using_bus (ex_worker e))"
  shows "bus_user (tr @ [l]) = Some (using_bus (ex_worker e'))"
  using assms
proof (induction rule: step.induct)
  case (start e st e')
  then have "ex_worker e = NoThread" by (cases "stopper e") (simp_all add: control_inv_def)
  with start show ?case by (elim exec_start_frame) auto
next
  case (stop_idle e)
  then have "ex_worker e = NoThread" by (simp add: control_inv_def)
  with stop_idle show ?case by (simp add: close_bus_def)
next
  case (stop_close e)
  then have "ex_worker e = NoThread" by (simp add: control_inv_def)
  with stop_close show ?case by (simp add: close_bus_def)
qed (simp_all add: executor_ops)

text \<open>Occurrences of events in a trace, and their relation to the counters and to what is in flight.\<close>

definition tally :: "(label \<Rightarrow> nat) \<Rightarrow> label list \<Rightarrow> nat" where
  "tally f tr = sum_list (map f tr)"

lemma tally_snoc [simp]: "tally f (tr @ [l]) = tally f tr + f l" "tally f [] = 0"
  by (simp_all add: tally_def)

fun ev_enqueue :: "label \<Rightarrow> nat" where
  "ev_enqueue (L_Enqueue _) = 1" | "ev_enqueue _ = 0"

fun ev_take :: "label \<Rightarrow> nat" where
  "ev_take (L_Take _) = 1" | "ev_take _ = 0"

fun ev_success :: "label \<Rightarrow> nat" where
  "ev_success (L_Count _ st) = (if is_ok st then 1 else 0)" | "ev_success _ = 0"

fun ev_failure :: "label \<Rightarrow> nat" where
  "ev_failure (L_Count _ st) = (if is_ok st then 0 else 1)" | "ev_failure _ = 0"

fun ev_deadline :: "label \<Rightarrow> nat" where
  "ev_deadline (L_Deadline _) = 1" | "ev_deadline _ = 0"

fun ev_skip :: "label \<Rightarrow> nat" where
  "ev_skip (L_CountSkip _) = 1" | "ev_skip _ = 0"

fun ev_late :: "label \<Rightarrow> nat" where
  "ev_late (L_NoCount _ _) = 1" | "ev_late _ = 0"

fun ev_stop_cancel :: "label \<Rightarrow> nat" where
  "ev_stop_cancel (L_StopBegin n) = n" | "ev_stop_cancel _ = 0"

fun in_flight :: "worker_pc \<Rightarrow> nat" where
  "in_flight (Took _) = 1" | "in_flight (SkipSet _) = 1" | "in_flight (Running _) = 1"
| "in_flight (Ended _ _) = 1" | "in_flight (Counting _ _) = 1" | "in_flight _ = 0"

definition metrics_match :: "label list \<Rightarrow> BusExecutorMetrics \<Rightarrow> bool" where
  "metrics_match tr m \<longleftrightarrow>
     submitted m = of_nat (tally ev_enqueue tr) \<and> started m = of_nat (tally ev_take tr) \<and>
     succeeded m = of_nat (tally ev_success tr) \<and> failed m = of_nat (tally ev_failure tr) \<and>
     timed_out m = of_nat (tally ev_deadline tr) \<and>
     cancelled m = of_nat (tally ev_skip tr + tally ev_stop_cancel tr)"

definition account_inv :: "label list \<Rightarrow> 'b BusExecutor \<Rightarrow> bool" where
  "account_inv tr e \<longleftrightarrow>
     metrics_match tr (ex_metrics e) \<and> queue_depth (ex_metrics e) = of_nat (length (ex_queue e)) \<and>
     tally ev_enqueue tr = tally ev_take tr + tally ev_stop_cancel tr + length (ex_queue e) \<and>
     tally ev_take tr = tally ev_skip tr + tally ev_success tr + tally ev_failure tr + tally ev_late tr
       + in_flight (ex_worker e)"

lemma account_inv_step:
  assumes "step ops e l e'" and "control_inv e" and "account_inv tr e"
  shows "account_inv (tr @ [l]) e'"
  using assms
proof (induction rule: step.induct)
  case (start e st e')
  then have "ex_worker e = NoThread" by (cases "stopper e") (simp_all add: control_inv_def)
  with start show ?case by (elim exec_start_frame) (auto simp: account_inv_def metrics_match_def)
qed (simp_all add: account_inv_def metrics_match_def executor_ops count_result_def)

definition executor_good :: "label list \<Rightarrow> 'b BusExecutor \<Rightarrow> bool" where
  "executor_good tr e \<longleftrightarrow> control_inv e \<and> promise_inv e \<and> caller_inv e \<and> order_inv tr e \<and>
     bus_user tr = Some (using_bus (ex_worker e)) \<and> account_inv tr e"

definition fresh_executor :: "'b BusExecutor \<Rightarrow> bool" where
  "fresh_executor e \<longleftrightarrow> e = BusExecutor_new (ex_bus e)"

lemma fresh_executor_new [simp]: "fresh_executor (BusExecutor_new b)"
  by (simp add: fresh_executor_def BusExecutor_new_def)

interpretation executor: trace_invariant fresh_executor "step ops" executor_good for ops :: "('b, 'm) bus_ops_scheme"
proof unfold_locales
  fix e :: "'b BusExecutor"
  assume "fresh_executor e"
  then obtain b where "e = BusExecutor_new b" by (auto simp: fresh_executor_def)
  then show "executor_good [] e"
    by (simp add: executor_good_def BusExecutor_new_def control_inv_def promise_inv_def caller_inv_def
        order_inv_def ahead_def begins_def bus_user_def account_inv_def metrics_match_def zero_metrics_def)
next
  fix tr l and e e' :: "'b BusExecutor"
  assume "executor_good tr e" and s: "step ops e l e'"
  then show "executor_good (tr @ [l]) e'"
    using control_inv_step [OF s] promise_inv_step [OF s] caller_inv_step [OF s] order_inv_step [OF s]
      bus_user_step [OF s, where tr = tr] account_inv_step [OF s]
    by (simp add: executor_good_def)
qed

section \<open>Progress\<close>

fun worker_label :: "label \<Rightarrow> bool" where
  "worker_label (L_Take _) = True" | "worker_label (L_Skip _) = True" | "worker_label (L_CountSkip _) = True"
| "worker_label (L_Begin _) = True" | "worker_label (L_End _ _) = True" | "worker_label (L_Count _ _) = True"
| "worker_label (L_NotLate _ _) = True" | "worker_label (L_NoCount _ _) = True" | "worker_label (L_Resolve _ _) = True" | "worker_label _ = False"

fun stage :: "worker_pc \<Rightarrow> nat" where
  "stage (Took _) = 6" | "stage (Running _) = 5" | "stage (Ended _ _) = 4" | "stage (Counting _ _) = 3"
| "stage (Counted _ _) = 2"
| "stage (SkipSet _) = 1" | "stage _ = 0"

definition remaining_work :: "'b BusExecutor \<Rightarrow> nat" where
  "remaining_work e = 7 * length (ex_queue e) + stage (ex_worker e)"

text \<open>A live worker with work left can always make a step, and every step of its own leaves less to do.\<close>

definition live :: "'b BusExecutor \<Rightarrow> bool" where
  "live e \<longleftrightarrow> ex_bus e \<noteq> None \<and> ex_worker e \<noteq> NoThread \<and> ex_worker e \<noteq> Exited"

lemma worker_can_step:
  assumes "live e" and "0 < remaining_work e"
  shows "\<exists>l e'. step ops e l e' \<and> worker_label l \<and> remaining_work e' < remaining_work e \<and> live e' \<and>
    length (tasks e') = length (tasks e)"
    (is "?goal")
proof -
  have made: ?goal
    if "step ops e l e'" and "worker_label l \<and> remaining_work e' < remaining_work e \<and> live e' \<and>
      length (tasks e') = length (tasks e)" for l e'
    using that by blast
  show ?thesis
  proof (cases "ex_worker e")
    case AtWait
    then obtain t rest where q: "ex_queue e = t # rest"
      using assms(2) by (cases "ex_queue e") (auto simp: remaining_work_def)
    show ?thesis
      by (rule made [OF step.take [OF AtWait q]])
        (use assms q AtWait in \<open>simp add: remaining_work_def live_def worker_take_def\<close>)
  next
    case (Took t)
    then show ?thesis
      by (cases "timed_out_flag (tasks e ! t)")
        (rule made [OF step.skip [OF Took]] made [OF step.job_begin [OF Took]], assumption,
          use assms in \<open>simp add: remaining_work_def live_def\<close>)+
  next
    case (SkipSet t)
    show ?thesis
      by (rule made [OF step.count_skip [OF SkipSet]])
        (use assms SkipSet in \<open>simp add: remaining_work_def live_def\<close>)
  next
    case (Running t)
    obtain b st b' where "ex_bus e = Some b" "task_job (tasks e ! t) b = (st, b')"
      using assms(1) by (metis live_def not_None_eq surj_pair)
    then show ?thesis
      by (rule made [OF step.job_end [OF Running]]) (use assms Running in \<open>simp add: remaining_work_def live_def\<close>)
  next
    case (Ended t st)
    then show ?thesis
      by (cases "timed_out_flag (tasks e ! t)")
        (rule made [OF step.no_count [OF Ended]] made [OF step.not_late [OF Ended]], assumption,
          use assms in \<open>simp add: remaining_work_def live_def\<close>)+
  next
    case (Counting t st)
    show ?thesis
      by (rule made [OF step.count [OF Counting]])
        (use assms Counting in \<open>simp add: remaining_work_def live_def\<close>)
  next
    case (Counted t st)
    show ?thesis
      by (rule made [OF step.resolve [OF Counted]])
        (use assms Counted in \<open>simp add: remaining_work_def live_def\<close>)
  qed (use assms in \<open>simp_all add: live_def\<close>)
qed

lemma worker_drains:
  assumes "live e"
  shows "\<exists>tr e'. steps (step ops) e tr e' \<and> list_all worker_label tr \<and> remaining_work e' = 0 \<and> live e' \<and>
    length (tasks e') = length (tasks e)"
  using assms
proof (induction "remaining_work e" arbitrary: e rule: less_induct)
  case less
  show ?case
  proof (cases "remaining_work e = 0")
    case True
    then show ?thesis using less.prems by (intro exI [of _ "[]"] exI [of _ e]) (simp add: steps_refl)
  next
    case False
    then obtain l e1 where one: "step ops e l e1" "worker_label l" "remaining_work e1 < remaining_work e"
      "live e1" "length (tasks e1) = length (tasks e)"
      using worker_can_step [OF less.prems, of ops] by auto
    then obtain tr e' where "steps (step ops) e1 tr e'" "list_all worker_label tr" "remaining_work e' = 0"
      "live e'" "length (tasks e') = length (tasks e1)"
      using less.hyps by meson
    with one show ?thesis by (intro exI [of _ "l # tr"] exI [of _ e']) (auto intro: steps_Cons)
  qed
qed

lemma live_iff: "control_inv e \<Longrightarrow> ex_running e \<Longrightarrow> \<not> ex_stopping e \<Longrightarrow> live e"
  by (cases "stopper e") (simp_all add: control_inv_def live_def)

lemma held_live: "control_inv e \<Longrightarrow> t \<in> set (ex_queue e @ held (ex_worker e)) \<Longrightarrow> live e"
  by (cases "stopper e"; cases "ex_worker e") (auto simp: control_inv_def live_def split: if_splits)

lemma drained_resolved:
  assumes "promise_inv e" and "remaining_work e = 0" and "live e" and "t < length (tasks e)"
  shows "promise (tasks e ! t) \<noteq> None"
  using assms by (cases "ex_worker e") (auto simp: promise_inv_def remaining_work_def live_def)

section \<open>Stopping\<close>

definition stop_inv :: "('b, 'm) bus_ops_scheme \<Rightarrow> label list \<Rightarrow> 'b BusExecutor \<Rightarrow> bool" where
  "stop_inv ops tr e \<longleftrightarrow> control_inv e \<and>
     (stopper e = Closed_bus \<longrightarrow> (\<exists>b. ex_bus e = Some (bus_close ops b)))"

interpretation stopping: trace_invariant fresh_executor "step ops" "stop_inv ops" for ops :: "('b, 'm) bus_ops_scheme"
proof unfold_locales
  fix e :: "'b BusExecutor"
  assume fresh: "fresh_executor e"
  then obtain b where "e = BusExecutor_new b" by (auto simp: fresh_executor_def)
  with executor.good_start [OF fresh] show "stop_inv ops [] e"
    by (simp add: stop_inv_def executor_good_def BusExecutor_new_def)
next
  fix tr l and e e' :: "'b BusExecutor"
  assume "stop_inv ops tr e" and s: "step ops e l e'"
  then have "control_inv e" and closed: "stopper e = Closed_bus \<Longrightarrow> \<exists>b. ex_bus e = Some (bus_close ops b)"
    by (simp_all add: stop_inv_def)
  from s this have "stopper e' = Closed_bus \<Longrightarrow> \<exists>b. ex_bus e' = Some (bus_close ops b)"
  proof (induction rule: step.induct)
    case (start e st e')
    then have "stopper e = NotStopping" by (cases "stopper e") (simp_all add: control_inv_def)
    moreover have "stopper e' = stopper e" by (rule exec_start_frame [OF start(2,1)])
    ultimately show ?case using start by simp
  next
    case (job_end e t b st b')
    then show ?case by (simp add: control_inv_def)
  next
    case (stop_close e)
    then show ?case by (auto simp: close_bus_def control_inv_def)
  qed (simp_all add: executor_ops)
  with control_inv_step [OF s \<open>control_inv e\<close>] show "stop_inv ops (tr @ [l]) e'" by (simp add: stop_inv_def)
qed

context i2c_bus
begin

text \<open>When \<^verbatim>\<open>stop\<close> returns the bus is closed, on every bus that keeps the contract.\<close>

lemma stop_closes_bus:
  assumes "steps (step ops) (BusExecutor_new b) tr e" and "step ops e L_StopEnd e'"
  shows "\<exists>b'. ex_bus e' = Some b' \<and> \<not> bus_is_open ops b'"
  using stopping.good_steps [OF assms(1)] assms(2)
  by (auto simp: stop_inv_def close_closes elim: step.cases)

end

section \<open>One caller at a time\<close>

text \<open>
  The runtime's calls of \<^verbatim>\<open>submit\<close> come one after another. How a call fares against its deadline is up to
  the scheduler: the job is done in time, or the deadline passes while it is queued, while it runs, or
  while its result is being reported. A job writes its outputs to a shared object, which the caller may read after
  \<^verbatim>\<open>submit\<close> returns: \<open>Some out\<close> is the object as the job left it, \<open>None\<close> as the caller made it. After a deadline
  that passes during the job the caller may see either.
\<close>

datatype schedule = InTime | LateQueued | LateRunning bool | LateCounted bool

definition submit ::
    "string \<Rightarrow> int \<Rightarrow> ('b, Status \<times> 'o) state \<Rightarrow> schedule \<Rightarrow> 'b BusExecutor \<Rightarrow> (Status \<times> 'o option) \<times> 'b BusExecutor" where
  "submit job_name timeout job sched e =
     (if submit_refused e then ((make_status Unavailable ''executor is not running'', None), e)
      else case run_state job (the (ex_bus e)) of ((st, out), b') \<Rightarrow>
        let m = (ex_metrics e)\<lparr>submitted := submitted (ex_metrics e) + 1, started := started (ex_metrics e) + 1,
                  queue_depth := 0\<rparr>;
            late = late_metrics job_name;
            ran = e\<lparr>ex_bus := Some b'\<rparr>
        in case (if 0 < timeout then sched else InTime) of
             InTime \<Rightarrow> ((st, Some out), ran\<lparr>ex_metrics := count_result st m\<rparr>)
           | LateQueued \<Rightarrow>
               ((deadline_status job_name, None),
                e\<lparr>ex_metrics := (late m)\<lparr>cancelled := cancelled m + 1\<rparr>\<rparr>)
           | LateRunning seen \<Rightarrow>
               ((deadline_status job_name, if seen then Some out else None), ran\<lparr>ex_metrics := late m\<rparr>)
           | LateCounted after \<Rightarrow>
               ((deadline_status job_name, Some out),
                ran\<lparr>ex_metrics := (if after then count_result st (late m) else late (count_result st m))\<rparr>))"

definition exec_stop :: "('b, 'm) bus_ops_scheme \<Rightarrow> 'b BusExecutor \<Rightarrow> 'b BusExecutor" where
  "exec_stop ops e =
     (if \<not> ex_running e then close_bus ops e
      else (close_bus ops (stop_begin e))
             \<lparr>ex_worker := NoThread, ex_running := False, ex_stopping := False, stopper := NotStopping\<rparr>)"

text \<open>Between calls the worker waits and nothing is queued. The tasks of finished calls are garbage.\<close>

definition idle :: "'b BusExecutor \<Rightarrow> bool" where
  "idle e \<longleftrightarrow> ex_running e \<and> \<not> ex_stopping e \<and> ex_queue e = [] \<and> ex_worker e = AtWait \<and> stopper e = NotStopping \<and>
     ex_bus e \<noteq> None"

definition view :: "'b BusExecutor \<Rightarrow> 'b BusExecutor" where
  "view e = e\<lparr>tasks := []\<rparr>"

definition plain_job :: "('b, Status \<times> 'o) state \<Rightarrow> 'b \<Rightarrow> Status \<times> 'b" where
  "plain_job job b = (case run_state job b of ((st, out), b') \<Rightarrow> (st, b'))"

text \<open>The state while the call of the last task \<open>k\<close> is in progress.\<close>

definition during :: "'b Task list \<Rightarrow> 'b \<Rightarrow> worker_pc \<Rightarrow> BusExecutorMetrics \<Rightarrow> 'b Task \<Rightarrow> 'b BusExecutor" where
  "during ts b w m k =
     \<lparr>ex_bus = Some b, ex_queue = [], ex_running = True, ex_stopping = False, ex_worker = w, ex_metrics = m,
      tasks = ts @ [k], stopper = NotStopping\<rparr>"

definition accepted :: "BusExecutorMetrics \<Rightarrow> BusExecutorMetrics" where
  "accepted m = m\<lparr>submitted := submitted m + 1, started := started m + 1, queue_depth := 0\<rparr>"

definition new_task :: "string \<Rightarrow> int \<Rightarrow> ('b \<Rightarrow> Status \<times> 'b) \<Rightarrow> 'b Task" where
  "new_task job_name timeout job =
     \<lparr>task_name = job_name, task_job = job, promise = None, timed_out_flag = False, task_timeout = timeout,
      caller = Waiting\<rparr>"

lemma during_begin:
  "\<not> timed_out_flag k \<Longrightarrow>
     step ops (during ts b (Took (length ts)) m k) (L_Begin (length ts))
       (during ts b (Running (length ts)) m k)"
  using step.job_begin [of "during ts b (Took (length ts)) m k" "length ts" ops]
  by (simp add: during_def)

lemma during_end:
  "task_job k b = (st, b') \<Longrightarrow>
     step ops (during ts b (Running (length ts)) m k) (L_End (length ts) st)
       (during ts b' (Ended (length ts) st) m k)"
  using step.job_end [of "during ts b (Running (length ts)) m k" "length ts" b st b' ops]
  by (simp add: during_def)

lemma during_not_late:
  "\<not> timed_out_flag k \<Longrightarrow>
     step ops (during ts b (Ended (length ts) st) m k) (L_NotLate (length ts) st)
       (during ts b (Counting (length ts) st) m k)"
  using step.not_late [of "during ts b (Ended (length ts) st) m k" "length ts" st ops]
  by (simp add: during_def)

lemma during_no_count:
  "timed_out_flag k \<Longrightarrow>
     step ops (during ts b (Ended (length ts) st) m k) (L_NoCount (length ts) st)
       (during ts b (Counted (length ts) st) m k)"
  using step.no_count [of "during ts b (Ended (length ts) st) m k" "length ts" st ops]
  by (simp add: during_def)

lemma during_count:
  "step ops (during ts b (Counting t st) m k) (L_Count t st) (during ts b (Counted t st) (count_result st m) k)"
  using step.count [of "during ts b (Counting t st) m k" t st ops] by (simp add: during_def upd_metrics_def)

lemma during_resolve:
  "promise k = None \<Longrightarrow>
     step ops (during ts b (Counted (length ts) st) m k) (L_Resolve (length ts) st)
       (during ts b AtWait m (k\<lparr>promise := Some st\<rparr>))"
  using step.resolve [of "during ts b (Counted (length ts) st) m k" "length ts" st ops]
  by (simp add: during_def safe_set_promise_def upd_task_def)

lemma during_skip:
  "timed_out_flag k \<Longrightarrow> promise k = None \<Longrightarrow>
     step ops (during ts b (Took (length ts)) m k) (L_Skip (length ts))
       (during ts b (SkipSet (length ts)) m (k\<lparr>promise := Some skipped_status\<rparr>))"
  using step.skip [of "during ts b (Took (length ts)) m k" "length ts" ops]
  by (simp add: during_def safe_set_promise_def upd_task_def)

lemma during_count_skip:
  "step ops (during ts b (SkipSet t) m k) (L_CountSkip t) (during ts b AtWait (m\<lparr>cancelled := cancelled m + 1\<rparr>) k)"
  using step.count_skip [of "during ts b (SkipSet t) m k" t ops] by (simp add: during_def upd_metrics_def)

lemma during_late:
  assumes "caller k = Waiting" and "0 < task_timeout k" and "promise k = None"
  shows "steps (step ops) (during ts b w m k) [L_WaitExpired (length ts), L_Flag (length ts)]
    (during ts b w m (k\<lparr>timed_out_flag := True, caller := Flagged\<rparr>))"
  using step.wait_expired [of "length ts" "during ts b w m k" ops]
    step.flag [of "length ts" "during ts b w m (k\<lparr>caller := Expired\<rparr>)" ops] assms
  by (intro steps_Cons [OF _ steps_one]) (auto simp: during_def upd_task_def)

lemma during_deadline:
  "caller k = Flagged \<Longrightarrow>
     step ops (during ts b w m k) (L_Deadline (length ts))
       (during ts b w (late_metrics (task_name k) m)
         (k\<lparr>caller := Returned (deadline_status (task_name k))\<rparr>))"
  using step.deadline [of "length ts" "during ts b w m k" ops]
  by (simp add: during_def submit_deadline_def upd_task_def upd_metrics_def Let_def)

lemma during_return:
  "caller k = Waiting \<Longrightarrow> promise k = Some st \<Longrightarrow>
     step ops (during ts b w m k) (L_Return (length ts) st) (during ts b w m (k\<lparr>caller := Returned st\<rparr>))"
  using step.return_get [of "length ts" "during ts b w m k" st ops]
  by (simp add: during_def upd_task_def)

lemma during_accept:
  assumes "idle e" and "ex_bus e = Some b"
  shows "steps (step ops) e [L_Enqueue (length (tasks e)), L_Take (length (tasks e))]
    (during (tasks e) b (Took (length (tasks e))) (accepted (ex_metrics e)) (new_task job_name timeout job))"
proof -
  have "step ops e (L_Enqueue (length (tasks e))) (submit_enqueue job_name timeout job e)"
    using assms by (intro step.enqueue) (simp add: idle_def submit_refused_def)
  moreover have "step ops (submit_enqueue job_name timeout job e) (L_Take (length (tasks e)))
      (worker_take (length (tasks e)) [] (submit_enqueue job_name timeout job e))"
    using assms by (intro step.take) (simp_all add: idle_def executor_ops)
  moreover have "worker_take (length (tasks e)) [] (submit_enqueue job_name timeout job e) =
      during (tasks e) b (Took (length (tasks e))) (accepted (ex_metrics e)) (new_task job_name timeout job)"
    using assms
    by (cases e; cases "ex_metrics e") (simp add: idle_def executor_ops during_def accepted_def new_task_def upd_metrics_def)
  ultimately show ?thesis by (intro steps_Cons [OF _ steps_one]) simp_all
qed

lemma during_done:
  assumes "idle e" and "promise k \<noteq> None"
  shows "idle (during (tasks e) b AtWait m k) \<and>
    view (during (tasks e) b AtWait m k) = view (e\<lparr>ex_bus := Some b, ex_metrics := m\<rparr>) \<and>
    caller (tasks (during (tasks e) b AtWait m k) ! length (tasks e)) = caller k"
  using assms by (cases e) (simp add: idle_def view_def during_def)

text \<open>What a call may do in the interleaved system, from an idle state to an idle state.\<close>

definition reaches :: "('b, 'm) bus_ops_scheme \<Rightarrow> 'b BusExecutor \<Rightarrow> 'b BusExecutor \<Rightarrow> bool" where
  "reaches ops e e' \<longleftrightarrow> (\<exists>tr. steps (step ops) e tr e')"

lemma reaches_refl: "reaches ops e e"
  unfolding reaches_def by (blast intro: steps_refl)

lemma reaches_step: "step ops e l e' \<Longrightarrow> reaches ops e' e'' \<Longrightarrow> reaches ops e e''"
  unfolding reaches_def by (blast intro: steps_Cons)

lemma reaches_steps: "steps (step ops) e tr e' \<Longrightarrow> reaches ops e' e'' \<Longrightarrow> reaches ops e e''"
  unfolding reaches_def by (blast intro: steps_trans)

definition simulated ::
    "('b, 'm) bus_ops_scheme \<Rightarrow> 'b BusExecutor \<Rightarrow> Status \<Rightarrow> 'b BusExecutor \<Rightarrow> bool" where
  "simulated ops e st e2 \<longleftrightarrow>
     (\<exists>e'. reaches ops e e' \<and> idle e' \<and> view e' = view e2 \<and>
        caller (tasks e' ! length (tasks e)) = Returned st)"

lemma simulatedI:
  assumes "idle e" and "promise k \<noteq> None" and "caller k = Returned st"
    and "reaches ops e (during (tasks e) b AtWait m k)"
  shows "simulated ops e st (e\<lparr>ex_bus := Some b, ex_metrics := m\<rparr>)"
  using assms during_done [OF assms(1,2), of b m] unfolding simulated_def by metis

text \<open>The steps of a call from where it is accepted, and from where its deadline has passed.\<close>

lemma simulated_in_time:
  assumes "idle e" and "ex_bus e = Some b" and "job b = (st, b')"
  shows "simulated ops e st (e\<lparr>ex_bus := Some b', ex_metrics := count_result st (accepted (ex_metrics e))\<rparr>)"
proof (rule simulatedI [OF assms(1)])
  let ?k = "new_task n 0 job :: 'a Task"
  have k: "\<not> timed_out_flag ?k" "task_job ?k b = (st, b')" "promise ?k = None" "caller ?k = Waiting"
    by (simp_all add: new_task_def assms(3))
  show "reaches ops e (during (tasks e) b' AtWait (count_result st (accepted (ex_metrics e)))
      (?k\<lparr>promise := Some st, caller := Returned st\<rparr>))"
    by (rule reaches_steps [OF during_accept [OF assms(1,2)]], rule reaches_step [OF during_begin [OF k(1)]],
        rule reaches_step [OF during_end [OF k(2)]], rule reaches_step [OF during_not_late [OF k(1)]],
        rule reaches_step [OF during_count], rule reaches_step [OF during_resolve [OF k(3)]],
        rule reaches_step [OF during_return]) (simp add: k, simp, rule reaches_refl)
qed simp_all

definition late_task :: "string \<Rightarrow> int \<Rightarrow> ('b \<Rightarrow> Status \<times> 'b) \<Rightarrow> 'b Task" where
  "late_task n timeout job = (new_task n timeout job)
     \<lparr>timed_out_flag := True, caller := Returned (deadline_status n)\<rparr>"

lemma late_task_simps [simp]:
  "timed_out_flag (late_task n timeout job)" "promise (late_task n timeout job) = None"
  "task_job (late_task n timeout job) = job" "caller (late_task n timeout job) = Returned (deadline_status n)"
  "\<not> timed_out_flag (new_task n timeout job)" "task_job (new_task n timeout job) = job"
  by (simp_all add: late_task_def new_task_def)

lemma reaches_late:
  assumes "0 < timeout" and "reaches ops (during ts b w (late_metrics n m) (late_task n timeout job)) e"
  shows "reaches ops (during ts b w m (new_task n timeout job)) e"
proof -
  let ?f = "(new_task n timeout job)\<lparr>timed_out_flag := True, caller := Flagged\<rparr>"
  have "steps (step ops) (during ts b w m (new_task n timeout job))
      [L_WaitExpired (length ts), L_Flag (length ts)] (during ts b w m ?f)"
    by (rule during_late) (simp_all add: new_task_def assms(1))
  moreover have "step ops (during ts b w m ?f) (L_Deadline (length ts))
      (during ts b w (late_metrics n m) (late_task n timeout job))"
    using during_deadline [of ?f ops ts b w m] by (simp add: new_task_def late_task_def)
  ultimately show ?thesis using assms(2) by (blast intro: reaches_steps reaches_step)
qed

lemma job_ends:
  assumes "job b = (st, b')"
  shows "step ops (during ts b (Running (length ts)) m (new_task n timeout job)) (L_End (length ts) st)
      (during ts b' (Ended (length ts) st) m (new_task n timeout job))"
    and "step ops (during ts b (Running (length ts)) m (late_task n timeout job)) (L_End (length ts) st)
      (during ts b' (Ended (length ts) st) m (late_task n timeout job))"
  using assms by (auto intro: during_end)

lemma simulated_late_queued:
  assumes "idle e" and "ex_bus e = Some b" and "0 < (timeout :: int)"
  shows "simulated ops e (deadline_status n) (e\<lparr>ex_bus := Some b, ex_metrics :=
    (late_metrics n (accepted (ex_metrics e)))
      \<lparr>cancelled := cancelled (late_metrics n (accepted (ex_metrics e))) + 1\<rparr>\<rparr>)"
  by (rule simulatedI [OF assms(1), where k = "(late_task n timeout (Pair Status_ok))\<lparr>promise := Some skipped_status\<rparr>"],
      simp, simp, rule reaches_steps [OF during_accept [OF assms(1,2)]], rule reaches_late [OF assms(3)],
      rule reaches_step [OF during_skip], simp, simp, rule reaches_step [OF during_count_skip], rule reaches_refl)

lemma simulated_late_running:
  assumes "idle e" and "ex_bus e = Some b" and "0 < (timeout :: int)" and "job b = (st :: Status, b')"
  shows "simulated ops e (deadline_status n)
    (e\<lparr>ex_bus := Some b', ex_metrics := late_metrics n (accepted (ex_metrics e))\<rparr>)"
  by (rule simulatedI [OF assms(1), where k = "(late_task n timeout job)\<lparr>promise := Some st\<rparr>"], simp, simp,
      rule reaches_steps [OF during_accept [OF assms(1,2)]], rule reaches_step [OF during_begin], simp,
      rule reaches_late [OF assms(3)], rule reaches_step [OF job_ends(2) [where job = job, OF assms(4)]],
      rule reaches_step [OF during_no_count], simp, rule reaches_step [OF during_resolve], simp, rule reaches_refl)

lemma simulated_late_counted:
  assumes "idle e" and "ex_bus e = Some b" and "0 < (timeout :: int)" and "job b = (st :: Status, b')"
  shows "simulated ops e (deadline_status n)
    (e\<lparr>ex_bus := Some b', ex_metrics := late_metrics n (count_result st (accepted (ex_metrics e)))\<rparr>)"
  by (rule simulatedI [OF assms(1), where k = "(late_task n timeout job)\<lparr>promise := Some st\<rparr>"], simp, simp,
      rule reaches_steps [OF during_accept [OF assms(1,2)]], rule reaches_step [OF during_begin], simp,
      rule reaches_step [OF job_ends(1) [where job = job, OF assms(4)]], rule reaches_step [OF during_not_late], simp,
      rule reaches_step [OF during_count], rule reaches_late [OF assms(3)],
      rule reaches_step [OF during_resolve], simp, rule reaches_refl)

lemma simulated_late_counting:
  assumes "idle e" and "ex_bus e = Some b" and "0 < (timeout :: int)" and "job b = (st :: Status, b')"
  shows "simulated ops e (deadline_status n)
    (e\<lparr>ex_bus := Some b', ex_metrics := count_result st (late_metrics n (accepted (ex_metrics e)))\<rparr>)"
  by (rule simulatedI [OF assms(1), where k = "(late_task n timeout job)\<lparr>promise := Some st\<rparr>"], simp, simp,
      rule reaches_steps [OF during_accept [OF assms(1,2)]], rule reaches_step [OF during_begin], simp,
      rule reaches_step [OF job_ends(1) [where job = job, OF assms(4)]], rule reaches_step [OF during_not_late], simp,
      rule reaches_late [OF assms(3)], rule reaches_step [OF during_count],
      rule reaches_step [OF during_resolve], simp, rule reaches_refl)

text \<open>Stopping an idle executor in one go is a run of the stopping thread and the worker.\<close>

lemma exec_stop_refines:
  assumes "idle e"
  shows "reaches ops e (exec_stop ops e)"
proof -
  have "step ops e (L_StopBegin (length (ex_queue e))) (stop_begin e)"
    using assms by (intro step.stop_begins) (simp_all add: idle_def)
  moreover have "step ops (stop_begin e) L_Exit (stop_begin e\<lparr>ex_worker := Exited\<rparr>)"
    using assms by (intro step.worker_exit) (simp_all add: idle_def stop_begin_def)
  moreover have "step ops (stop_begin e\<lparr>ex_worker := Exited\<rparr>) L_Join
      (stop_begin e\<lparr>ex_worker := NoThread, stopper := Joined\<rparr>)"
    using step.join [of "stop_begin e\<lparr>ex_worker := Exited\<rparr>" ops] by (simp add: stop_begin_def)
  moreover have "step ops (stop_begin e\<lparr>ex_worker := NoThread, stopper := Joined\<rparr>) L_Close
      (close_bus ops (stop_begin e)\<lparr>ex_worker := NoThread, stopper := Closed_bus\<rparr>)"
    using step.stop_close [of "stop_begin e\<lparr>ex_worker := NoThread, stopper := Joined\<rparr>" ops]
    by (cases "stop_begin e") (simp add: close_bus_def)
  moreover have "step ops (close_bus ops (stop_begin e)\<lparr>ex_worker := NoThread, stopper := Closed_bus\<rparr>) L_StopEnd
      (exec_stop ops e)"
    using step.stop_end [of "close_bus ops (stop_begin e)\<lparr>ex_worker := NoThread, stopper := Closed_bus\<rparr>" ops] assms
    by (cases "stop_begin e") (simp add: exec_stop_def idle_def close_bus_def)
  ultimately show ?thesis by (blast intro: reaches_step reaches_refl)
qed

section \<open>Properties\<close>

text \<open>
  C1: the executor serializes the bus. In every interleaving of callers, worker and stopping thread, jobs
  begin in the order in which they were submitted, none begins twice, and no two users of the bus
  overlap: neither two jobs, nor a job and the opening or closing of the bus.
\<close>

theorem executor_serializes:
  assumes "steps (step ops) (BusExecutor_new b) tr e"
  shows "sorted_wrt (<) (begins tr) \<and> distinct (begins tr) \<and> bus_user tr = Some (using_bus (ex_worker e))"
proof -
  have "executor_good tr e" by (rule executor.good_steps [OF assms]) simp
  then show ?thesis
    by (auto simp: executor_good_def order_inv_def sorted_wrt_append strict_sorted_iff)
qed

text \<open>A small run for the witnesses: an executor on the no-hardware bus, started, with one job begun.\<close>

definition demo_new :: "NoopI2cBus BusExecutor" where
  "demo_new = BusExecutor_new (Some (NoopI2cBus_new ''/dev/i2c-1''))"

definition demo_started :: "NoopI2cBus BusExecutor" where
  "demo_started = snd (exec_start noop_ops demo_new)"

definition demo_begun :: "NoopI2cBus BusExecutor" where
  "demo_begun = during [] (NoopI2cBus_new ''/dev/i2c-1''\<lparr>noop_opened := True\<rparr>) (Running 0)
     (accepted zero_metrics) (new_task ''sample:ph'' 0 (Pair Status_ok))"

lemma demo_started_eq:
  "demo_started = \<lparr>ex_bus = Some (NoopI2cBus_new ''/dev/i2c-1''\<lparr>noop_opened := True\<rparr>), ex_queue = [],
     ex_running = True, ex_stopping = False, ex_worker = AtWait, ex_metrics = zero_metrics, tasks = [],
     stopper = NotStopping\<rparr>"
  by (simp add: demo_started_def demo_new_def exec_start_def BusExecutor_new_def noop_ops_def noop_open_def)

lemma demo_start: "step noop_ops demo_new (L_Start Status_ok) demo_started"
  by (rule step.start) (simp_all add: demo_started_def demo_new_def exec_start_def BusExecutor_new_def noop_ops_def
      noop_open_def)

lemma demo_run: "steps (step noop_ops) demo_new [L_Start Status_ok, L_Enqueue 0, L_Take 0, L_Begin 0] demo_begun"
proof -
  have "idle demo_started" by (simp add: demo_started_eq idle_def)
  then have "steps (step noop_ops) demo_started [L_Enqueue 0, L_Take 0]
      (during [] (NoopI2cBus_new ''/dev/i2c-1''\<lparr>noop_opened := True\<rparr>) (Took 0) (accepted zero_metrics)
        (new_task ''sample:ph'' 0 (Pair Status_ok)))"
    using during_accept [of demo_started "NoopI2cBus_new ''/dev/i2c-1''\<lparr>noop_opened := True\<rparr>" noop_ops
        "''sample:ph''" 0 "Pair Status_ok"] by (simp add: demo_started_eq)
  moreover have "step noop_ops (during [] (NoopI2cBus_new ''/dev/i2c-1''\<lparr>noop_opened := True\<rparr>) (Took 0)
      (accepted zero_metrics) (new_task ''sample:ph'' 0 (Pair Status_ok))) (L_Begin 0) demo_begun"
    using during_begin [of "new_task ''sample:ph'' 0 (Pair Status_ok)" noop_ops "[]"] by (simp add: demo_begun_def)
  ultimately have "steps (step noop_ops) demo_started [L_Enqueue 0, L_Take 0, L_Begin 0] demo_begun"
    using steps_snoc by fastforce
  with demo_start show ?thesis by (rule steps_Cons)
qed

theorem executor_serializes_witness:
  "sorted_wrt (<) (begins [L_Start Status_ok, L_Enqueue 0, L_Take 0, L_Begin 0]) \<and>
   bus_user [L_Start Status_ok, L_Enqueue 0, L_Take 0, L_Begin 0] = Some (Some 0)"
  using executor_serializes [OF demo_run [unfolded demo_new_def]] by (simp add: demo_begun_def during_def)

text \<open>
  C3: promises are neither lost nor set twice. In every reachable state the tasks whose promise is unset are
  exactly those queued or held by the worker, so the guard in \<^verbatim>\<open>safe_set_promise\<close> never has anything to
  catch; and a call that has returned gave either the status of its own task or its own deadline error, the latter
  only with a positive timeout.
\<close>

theorem executor_promises:
  assumes "steps (step ops) (BusExecutor_new b) tr e" and "t < length (tasks e)"
  shows "(promise (tasks e ! t) = None \<longleftrightarrow> t \<in> set (ex_queue e @ held (ex_worker e))) \<and>
    (\<forall>st. caller (tasks e ! t) = Returned st \<longrightarrow> promise (tasks e ! t) = Some st \<or>
       st = deadline_status (task_name (tasks e ! t)) \<and> 0 < task_timeout (tasks e ! t))"
proof -
  have "executor_good tr e" by (rule executor.good_steps [OF assms(1)]) simp
  then have "promise_inv e" and "caller_ok (tasks e ! t)"
    using assms(2) by (simp_all add: executor_good_def caller_inv_def list_all_length)
  then show ?thesis using assms(2) by (auto simp: promise_inv_def caller_ok.simps split: if_splits)
qed

theorem executor_promises_witness:
  "promise (tasks demo_begun ! 0) = None \<longleftrightarrow> 0 \<in> set (ex_queue demo_begun @ held (ex_worker demo_begun))"
  using executor_promises [OF demo_run [unfolded demo_new_def], of 0] by (simp add: demo_begun_def during_def)

text \<open>
  C27: the metrics count what happened. In every reachable state each counter is the number of its events in the
  trace (modulo \<open>2 ^ 64\<close>), the published queue depth is the length of the queue, every submitted task is queued,
  started or cancelled by a stop, and every started task is in progress or was counted exactly once as
  succeeded, failed, skipped, or finished after its caller had left.
\<close>

theorem executor_accounts:
  assumes "steps (step ops) (BusExecutor_new b) tr e"
  shows "metrics_match tr (ex_metrics e) \<and> queue_depth (ex_metrics e) = of_nat (length (ex_queue e)) \<and>
    tally ev_enqueue tr = tally ev_take tr + tally ev_stop_cancel tr + length (ex_queue e) \<and>
    tally ev_take tr = tally ev_skip tr + tally ev_success tr + tally ev_failure tr + tally ev_late tr
      + in_flight (ex_worker e)"
proof -
  have "executor_good tr e" by (rule executor.good_steps [OF assms]) simp
  then show ?thesis by (simp add: executor_good_def account_inv_def)
qed

theorem executor_accounts_witness:
  "submitted (ex_metrics demo_begun) = 1 \<and> started (ex_metrics demo_begun) = 1 \<and> succeeded (ex_metrics demo_begun) = 0"
  using executor_accounts [OF demo_run [unfolded demo_new_def]] by (simp add: metrics_match_def tally_def)

text \<open>
  C4: the worker is never stuck. From every reachable state of a running executor that is not being stopped, and from
  every state in which some promise is unset, the worker by itself can go on until every promise is set, each of
  its steps leaving less work.
\<close>

theorem executor_progress:
  assumes "steps (step ops) (BusExecutor_new b) tr e"
    and "ex_running e \<and> \<not> ex_stopping e \<or> (\<exists>t < length (tasks e). promise (tasks e ! t) = None)"
  shows "\<exists>tr' e'. steps (step ops) e tr' e' \<and> list_all worker_label tr' \<and> length (tasks e') = length (tasks e) \<and>
    (\<forall>t < length (tasks e'). promise (tasks e' ! t) \<noteq> None)"
proof -
  have good: "executor_good tr e" by (rule executor.good_steps [OF assms(1)]) simp
  then have "live e"
    using assms(2) by (auto simp: executor_good_def promise_inv_def intro: live_iff held_live)
  then obtain tr' e' where run: "steps (step ops) e tr' e'" "list_all worker_label tr'" "remaining_work e' = 0"
    "live e'" "length (tasks e') = length (tasks e)"
    using worker_drains [of e ops] by blast
  have "executor_good (tr @ tr') e'"
    by (rule executor.good_steps [OF steps_trans [OF run(1) assms(1)]]) simp
  then have "\<forall>t < length (tasks e'). promise (tasks e' ! t) \<noteq> None"
    using run(3,4) drained_resolved [of e'] by (simp add: executor_good_def)
  with run(1,2,5) show ?thesis by blast
qed

theorem executor_progress_witness:
  "\<exists>tr' e'. steps (step noop_ops) demo_begun tr' e' \<and> length (tasks e') = 1 \<and> promise (tasks e' ! 0) \<noteq> None"
  using executor_progress [OF demo_run [unfolded demo_new_def]] by (fastforce simp: demo_begun_def during_def)

text \<open>
  C5: when \<^verbatim>\<open>stop\<close> returns nothing is outstanding: every promise ever handed out is set, the queue is empty, the
  worker thread is gone and the executor no longer counts as running.
\<close>

theorem stop_resolves_everything:
  assumes "steps (step ops) (BusExecutor_new b) tr e" and "step ops e L_StopEnd e'"
  shows "(\<forall>t < length (tasks e'). promise (tasks e' ! t) \<noteq> None) \<and> ex_queue e' = [] \<and> ex_worker e' = NoThread \<and>
    \<not> ex_running e' \<and> submit_refused e'"
proof -
  have good: "executor_good tr e" by (rule executor.good_steps [OF assms(1)]) simp
  have closed: "stopper e = Closed_bus" and e': "e' = e\<lparr>ex_running := False, ex_stopping := False, stopper := NotStopping\<rparr>"
    using assms(2) by (auto elim: step.cases)
  have "ex_queue e = [] \<and> ex_worker e = NoThread"
    using good closed by (simp add: executor_good_def control_inv_def)
  then show ?thesis using good e' by (auto simp: executor_good_def promise_inv_def submit_refused_def)
qed

definition demo_closing :: "NoopI2cBus BusExecutor" where
  "demo_closing = demo_started\<lparr>ex_bus := Some (NoopI2cBus_new ''/dev/i2c-1''), ex_stopping := True,
     ex_worker := NoThread, stopper := Closed_bus\<rparr>"

lemma demo_stop:
  "steps (step noop_ops) demo_new [L_Start Status_ok, L_StopBegin 0, L_Exit, L_Join, L_Close] demo_closing"
proof -
  have "step noop_ops demo_started (L_StopBegin 0) (stop_begin demo_started)"
    using step.stop_begins [of demo_started noop_ops] by (simp add: demo_started_eq)
  moreover have "step noop_ops (stop_begin demo_started) L_Exit (stop_begin demo_started\<lparr>ex_worker := Exited\<rparr>)"
    by (rule step.worker_exit) (simp_all add: demo_started_eq stop_begin_def)
  moreover have "step noop_ops (stop_begin demo_started\<lparr>ex_worker := Exited\<rparr>) L_Join
      (stop_begin demo_started\<lparr>ex_worker := NoThread, stopper := Joined\<rparr>)"
    using step.join [of "stop_begin demo_started\<lparr>ex_worker := Exited\<rparr>" noop_ops]
    by (simp add: demo_started_eq stop_begin_def)
  moreover have "step noop_ops (stop_begin demo_started\<lparr>ex_worker := NoThread, stopper := Joined\<rparr>) L_Close demo_closing"
    using step.stop_close [of "stop_begin demo_started\<lparr>ex_worker := NoThread, stopper := Joined\<rparr>" noop_ops]
    by (simp add: demo_started_eq demo_closing_def stop_begin_def close_bus_def noop_ops_def noop_close_def
        NoopI2cBus_new_def upd_metrics_def zero_metrics_def)
  ultimately show ?thesis using demo_start by (blast intro: steps_Cons steps_one)
qed

theorem stop_resolves_everything_witness:
  "\<exists>e'. step noop_ops demo_closing L_StopEnd e' \<and> ex_worker e' = NoThread \<and> submit_refused e'"
proof -
  have "step noop_ops demo_closing L_StopEnd (demo_closing\<lparr>ex_running := False, ex_stopping := False, stopper := NotStopping\<rparr>)"
    by (rule step.stop_end) (simp add: demo_closing_def)
  with stop_resolves_everything [OF demo_stop [unfolded demo_new_def]] show ?thesis by blast
qed



end
