(* ===== verification/Ezo_Linear.thy ===== *)
theory Ezo_Linear
  imports Ezo_Executor
begin

text \<open>
  The executor of \<open>Ezo_Executor\<close> against a reference that has no threads: the uses of the bus carried out one after the
  other. Every interleaving leaves the bus as the reference does, and gives every caller the answer its job has there.
\<close>

section \<open>The reference\<close>

datatype bus_use = Use_open | Use_job nat | Use_close

fun sequential :: "('b, 'm) bus_ops_scheme \<Rightarrow> (nat \<Rightarrow> 'b \<Rightarrow> Status \<times> 'b) \<Rightarrow> bus_use list \<Rightarrow> 'b \<Rightarrow> (nat \<times> Status) list \<times> 'b" where
  "sequential ops job [] b = ([], b)"
| "sequential ops job (Use_open # us) b = sequential ops job us (snd (bus_open ops b))"
| "sequential ops job (Use_job t # us) b = (case job t b of (st, b') \<Rightarrow> map_prod (Cons (t, st)) id (sequential ops job us b'))"
| "sequential ops job (Use_close # us) b = sequential ops job us (bus_close ops b)"

text \<open>The uses of the bus in a trace of the executor, and the answers its jobs gave.\<close>

fun use_of :: "label \<Rightarrow> bus_use list" where
  "use_of (L_Start _) = [Use_open]"
| "use_of (L_End t _) = [Use_job t]"
| "use_of L_StopIdle = [Use_close]"
| "use_of L_Close = [Use_close]"
| "use_of _ = []"

definition uses :: "label list \<Rightarrow> bus_use list" where
  "uses tr = concat (map use_of tr)"

fun answer_of :: "label \<Rightarrow> (nat \<times> Status) list" where
  "answer_of (L_End t st) = [(t, st)]"
| "answer_of _ = []"

definition answers :: "label list \<Rightarrow> (nat \<times> Status) list" where
  "answers tr = concat (map answer_of tr)"

definition jobs :: "'b BusExecutor \<Rightarrow> nat \<Rightarrow> 'b \<Rightarrow> Status \<times> 'b" where
  "jobs e t = task_job (tasks e ! t)"

lemma trace_parts [simp]:
  "uses (tr @ [l]) = uses tr @ use_of l" "answers (tr @ [l]) = answers tr @ answer_of l" "uses [] = []" "answers [] = []"
  by (simp_all add: uses_def answers_def)

lemma sequential_append:
  "sequential ops job (us @ vs) b =
     (case sequential ops job us b of (rs, b') \<Rightarrow> map_prod ((@) rs) id (sequential ops job vs b'))"
  by (induction ops job us b rule: sequential.induct) (simp_all add: prod.map_comp comp_def map_prod_def split: prod.splits)

lemma sequential_cong:
  "(\<And>t. Use_job t \<in> set us \<Longrightarrow> job t = job' t) \<Longrightarrow> sequential ops job us b = sequential ops job' us b"
  by (induction ops job us b rule: sequential.induct) (simp_all split: prod.split)

section \<open>The simulation\<close>

text \<open>The job whose answer the worker carries, and the job on the bus.\<close>

fun carried :: "worker_pc \<Rightarrow> (nat \<times> Status) list" where
  "carried (Ended t st) = [(t, st)]"
| "carried (Counting t st) = [(t, st)]"
| "carried (Counted t st) = [(t, st)]"
| "carried _ = []"

fun on_bus :: "worker_pc \<Rightarrow> nat list" where
  "on_bus (Running t) = [t]"
| "on_bus _ = []"

definition linear_inv :: "('b, 'm) bus_ops_scheme \<Rightarrow> 'b \<Rightarrow> label list \<Rightarrow> 'b BusExecutor \<Rightarrow> bool" where
  "linear_inv ops b tr e \<longleftrightarrow>
     (\<exists>b'. sequential ops (jobs e) (uses tr) b = (answers tr, b') \<and> ex_bus e = Some b') \<and>
     begins tr = map fst (answers tr) @ on_bus (ex_worker e) \<and>
     (\<forall>t. Use_job t \<in> set (uses tr) \<longrightarrow> t < length (tasks e)) \<and>
     set (carried (ex_worker e)) \<subseteq> set (answers tr) \<and>
     (\<forall>t < length (tasks e). \<forall>st. promise (tasks e ! t) = Some st \<longrightarrow>
        (t, st) \<in> set (answers tr) \<or> st = skipped_status \<or> st = stopped_status)"

lemma linear_move:
  assumes "linear_inv ops b tr e" and "use_of l = []" and "answer_of l = []" and "ex_bus e' = ex_bus e"
    and "length (tasks e) \<le> length (tasks e')" and "\<And>t. t < length (tasks e) \<Longrightarrow> jobs e' t = jobs e t"
    and "on_bus (ex_worker e') = on_bus (ex_worker e) @ begins [l]"
    and "set (carried (ex_worker e')) \<subseteq> set (carried (ex_worker e))"
    and "\<And>t st. t < length (tasks e') \<Longrightarrow> promise (tasks e' ! t) = Some st \<Longrightarrow>
      t < length (tasks e) \<and> promise (tasks e ! t) = Some st \<or> (t, st) \<in> set (carried (ex_worker e)) \<or>
      st = skipped_status \<or> st = stopped_status"
  shows "linear_inv ops b (tr @ [l]) e'"
proof -
  have parts: "uses (tr @ [l]) = uses tr" "answers (tr @ [l]) = answers tr" using assms(2,3) by simp_all
  have "\<And>t. Use_job t \<in> set (uses tr) \<Longrightarrow> t < length (tasks e)" using assms(1) by (simp add: linear_inv_def)
  then have jobs: "sequential ops (jobs e') (uses tr) b = sequential ops (jobs e) (uses tr) b"
    using assms(6) by (intro sequential_cong) simp
  have "begins (tr @ [l]) = begins tr @ begins [l]" by (simp add: begins_def)
  then have order: "begins (tr @ [l]) = map fst (answers tr) @ on_bus (ex_worker e')"
    using assms(1,7) by (simp add: linear_inv_def)
  have "(t, st) \<in> set (answers tr) \<or> st = skipped_status \<or> st = stopped_status"
    if "t < length (tasks e')" "promise (tasks e' ! t) = Some st" for t st
    using assms(9) [OF that] assms(1) by (auto simp: linear_inv_def)
  then show ?thesis
    unfolding linear_inv_def parts jobs order using assms(1,4,5,8)
    by (auto simp: linear_inv_def intro: less_le_trans)
qed

lemma linear_use:
  assumes "linear_inv ops b tr e" and "ex_bus e = Some b'" and "tasks e' = tasks e"
    and "sequential ops (jobs e) (use_of l) b' = (answer_of l, b'')" and "ex_bus e' = Some b''"
    and "on_bus (ex_worker e) = map fst (answer_of l)" and "begins [l] = []" and "on_bus (ex_worker e') = []"
    and "\<And>t. Use_job t \<in> set (use_of l) \<Longrightarrow> t < length (tasks e)"
    and "set (carried (ex_worker e')) \<subseteq> set (answer_of l)"
  shows "linear_inv ops b (tr @ [l]) e'"
proof -
  have "jobs e' = jobs e" using assms(3) by (simp add: jobs_def fun_eq_iff)
  then have "sequential ops (jobs e') (uses (tr @ [l])) b = (answers (tr @ [l]), b'')"
    using assms(1,2,4) by (simp add: linear_inv_def sequential_append)
  moreover have "begins (tr @ [l]) = begins tr @ begins [l]" by (simp add: begins_def)
  ultimately show ?thesis using assms unfolding linear_inv_def by auto
qed

lemma linear_step:
  assumes "step ops e l e'" and "executor_good tr e" and "linear_inv ops b tr e"
  shows "linear_inv ops b (tr @ [l]) e'"
proof -
  have bus: "\<exists>b'. ex_bus e = Some b'" using assms(3) by (auto simp: linear_inv_def)
  have control: "control_inv e" and promise: "promise_inv e" using assms(2) by (simp_all add: executor_good_def)
  from assms(1,3) bus control promise show ?thesis
  proof (induction rule: step.induct)
    case (start e st e')
    then obtain b' where b': "ex_bus e = Some b'" by blast
    obtain s b'' where opened: "bus_open ops b' = (s, b'')" by fastforce
    have "ex_worker e = NoThread" using start(1,5) by (cases "stopper e") (simp_all add: control_inv_def)
    moreover have "ex_bus e' = Some b'' \<and> tasks e' = tasks e \<and> ex_worker e' \<in> {ex_worker e, AtWait}"
      using start(1,2) b' opened by (auto simp: exec_start_def Let_def upd_metrics_def split: if_splits)
    ultimately show ?case using start(3) b' opened by (auto intro!: linear_use simp: begins_def)
  next
    case (job_end e t b' st b'')
    then show ?case by (auto intro!: linear_use simp: begins_def jobs_def promise_inv_def)
  next
    case (stop_idle e)
    then have "ex_worker e = NoThread" by (simp add: control_inv_def)
    then show ?case using stop_idle by (auto intro!: linear_use simp: begins_def close_bus_def)
  next
    case (stop_close e)
    then have "ex_worker e = NoThread" by (simp add: control_inv_def)
    then show ?case using stop_close by (auto intro!: linear_use simp: begins_def close_bus_def)
  next
    case (enqueue e job_name timeout job)
    then show ?case by (auto intro!: linear_move simp: begins_def executor_ops jobs_def nth_append split: if_splits)
  next
    case (stop_begins e)
    then show ?case
      by (intro linear_move [of ops b tr e]) (auto simp: begins_def executor_ops jobs_def nth_cancel_pending split: if_splits)
  next
    case (skip e t)
    then show ?case by (intro linear_move [of ops b tr e]) (auto simp: begins_def jobs_def nth_safe_set_promise split: if_splits)
  next
    case (resolve e t st)
    then show ?case by (intro linear_move [of ops b tr e]) (auto simp: begins_def jobs_def nth_safe_set_promise split: if_splits)
  qed ((rule linear_move, assumption, auto simp: begins_def executor_ops jobs_def split: if_splits)[1])+
qed

interpretation linear: trace_invariant "\<lambda>e. e = BusExecutor_new (Some b)" "step ops" "\<lambda>tr e. executor_good tr e \<and> linear_inv ops b tr e"
  for ops :: "('b, 'm) bus_ops_scheme" and b
proof unfold_locales
  fix e :: "'b BusExecutor"
  assume "e = BusExecutor_new (Some b)"
  then show "executor_good [] e \<and> linear_inv ops b [] e"
    using executor.good_start [OF fresh_executor_new, of "Some b"] by (simp add: linear_inv_def begins_def) (simp add: BusExecutor_new_def)
next
  fix tr l and e e' :: "'b BusExecutor"
  assume "executor_good tr e \<and> linear_inv ops b tr e" and s: "step ops e l e'"
  then show "executor_good (tr @ [l]) e' \<and> linear_inv ops b (tr @ [l]) e'"
    using executor.good_step [OF _ s] linear_step [OF s] by blast
qed

section \<open>Property\<close>

text \<open>
  C2: The executor is linearizable. Whatever callers, worker and stopping thread do, the bus is in the state that
  opening it, running the jobs that ended and closing it one after the other leave it in; those jobs ended in the order
  of their submission and gave the answers they give there; and a call that has returned got the answer of its own
  job, or its deadline error, or the notice that its job was skipped or cancelled.
\<close>

theorem executor_linearizes:
  assumes "steps (step ops) (BusExecutor_new (Some b)) tr e"
  shows "\<exists>results b'. sequential ops (jobs e) (uses tr) b = (results, b') \<and> ex_bus e = Some b' \<and>
    sorted_wrt (<) (map fst results) \<and>
    (\<forall>t < length (tasks e). \<forall>st. caller (tasks e ! t) = Returned st \<longrightarrow> (t, st) \<in> set results \<or>
       st = deadline_status (task_name (tasks e ! t)) \<or> st = skipped_status \<or> st = stopped_status)"
proof -
  have good: "executor_good tr e" "linear_inv ops b tr e" using linear.good_steps [OF assms] by blast+
  have "(t, st) \<in> set (answers tr) \<or> st = deadline_status (task_name (tasks e ! t)) \<or> st = skipped_status \<or> st = stopped_status"
    if t: "t < length (tasks e)" "caller (tasks e ! t) = Returned st" for t st
  proof -
    have "caller_ok (tasks e ! t)" using good(1) t(1) by (simp add: executor_good_def caller_inv_def list_all_length)
    then have "promise (tasks e ! t) = Some st \<or> st = deadline_status (task_name (tasks e ! t))"
      using t(2) by (auto simp: caller_ok.simps split: if_splits)
    then show ?thesis using good(2) t(1) by (auto simp: linear_inv_def)
  qed
  moreover have "sorted_wrt (<) (begins tr)" using good(1) by (simp add: executor_good_def order_inv_def sorted_wrt_append)
  then have "sorted_wrt (<) (map fst (answers tr))" using good(2) by (simp add: linear_inv_def sorted_wrt_append)
  ultimately show ?thesis using good(2) unfolding linear_inv_def by blast
qed

definition demo_ended :: "NoopI2cBus BusExecutor" where
  "demo_ended = demo_begun\<lparr>ex_worker := Ended 0 Status_ok\<rparr>"

lemma demo_run_end:
  "steps (step noop_ops) demo_new ([L_Start Status_ok, L_Enqueue 0, L_Take 0, L_Begin 0] @ [L_End 0 Status_ok]) demo_ended"
proof (rule steps_snoc [OF demo_run])
  have "step noop_ops demo_begun (L_End 0 Status_ok)
      (demo_begun\<lparr>ex_bus := Some (NoopI2cBus_new ''/dev/i2c-1''\<lparr>noop_opened := True\<rparr>), ex_worker := Ended 0 Status_ok\<rparr>)"
    by (rule step.job_end) (simp_all add: demo_begun_def during_def new_task_def)
  then show "step noop_ops demo_begun (L_End 0 Status_ok) demo_ended"
    by (simp add: demo_ended_def demo_begun_def during_def)
qed

theorem executor_linearizes_witness:
  "fst (sequential noop_ops (jobs demo_ended) [Use_open, Use_job 0] (NoopI2cBus_new ''/dev/i2c-1'')) = [(0, Status_ok)] \<and>
   ex_bus demo_ended = Some (snd (sequential noop_ops (jobs demo_ended) [Use_open, Use_job 0] (NoopI2cBus_new ''/dev/i2c-1'')))"
  using executor_linearizes [OF demo_run_end [unfolded demo_new_def]]
  by (auto simp: uses_def jobs_def demo_ended_def demo_begun_def during_def new_task_def)

end
