(* ===== verification/Ezo_Driver.thy ===== *)
theory Ezo_Driver
  imports Ezo_Bus
begin

text \<open>
  The EZO C driver (a third-party library, fetched at build time) as the record of functions the provider
  calls, a parameter of every definition that uses it, and the family-independent helpers over it: binding
  a device (\<^verbatim>\<open>src/i2c/ezo_i2c_bridge.cpp\<close>), waiting, reading a command's response code and writing signal
  slots (\<^verbatim>\<open>src/devices/common/sample_helpers.cpp\<close>).

  Code that touches the bus is a \<open>state\<close> computation over the bus (\<^verbatim>\<open>HOL-Library.State_Monad\<close>): the bus is
  the driver's transport context, so every driver call reads and updates it.
\<close>

section \<open>The driver's types\<close>

datatype ezo_product = EZO_PRODUCT_UNKNOWN | EZO_PRODUCT_PH | EZO_PRODUCT_ORP | EZO_PRODUCT_EC | EZO_PRODUCT_DO
  | EZO_PRODUCT_RTD | EZO_PRODUCT_HUM | EZO_PRODUCT_VALUE nat

datatype ezo_device_status = EZO_STATUS_UNKNOWN | EZO_STATUS_SUCCESS | EZO_STATUS_FAIL | EZO_STATUS_NOT_READY
  | EZO_STATUS_NO_DATA | EZO_STATUS_VALUE nat

datatype ezo_command_kind = EZO_COMMAND_GENERIC | EZO_COMMAND_CALIBRATION

datatype ezo_do_salinity_unit = EZO_DO_SALINITY_UNIT_MICROSIEMENS | EZO_DO_SALINITY_UNIT_VALUE nat

record ezo_device_info =
  product_id :: ezo_product
  product_code :: string
  firmware_version :: string

text \<open>A timing hint is its \<^verbatim>\<open>wait_ms\<close>; a \<^verbatim>\<open>send\<close> returns the result code and the hint it filled in.\<close>

type_synonym sent = "ezo_result \<times> u32"

record ec_reading =
  ec_present_mask :: u32
  conductivity_us_cm :: double
  total_dissolved_solids_ppm :: double
  salinity_ppt :: double
  specific_gravity :: double

record do_reading =
  do_present_mask :: u32
  milligrams_per_liter :: double
  percent_saturation :: double

record hum_reading =
  hum_present_mask :: u32
  relative_humidity_percent :: double
  air_temperature_c :: double
  dew_point_c :: double

text \<open>
  The functions and macro constants of the driver's headers that the provider uses. \<open>'h\<close> is
  \<^verbatim>\<open>ezo_i2c_device_t\<close>, of which the provider itself reads only whether \<^verbatim>\<open>transport_context\<close> is non-null.
\<close>

record ('b, 'h) ezo_driver =
  ezo_result_name :: "ezo_result \<Rightarrow> string"
  device_zero :: 'h
  ezo_device_init :: "u8 \<Rightarrow> 'b transport \<Rightarrow> 'h \<Rightarrow> ezo_result \<times> 'h"
  has_transport_context :: "'h \<Rightarrow> bool"
  ezo_read_response :: "'h \<Rightarrow> nat \<Rightarrow> ('b, ezo_result \<times> ezo_device_status) state"
  ezo_control_send_info_query :: "'h \<Rightarrow> ezo_product \<Rightarrow> ('b, sent) state"
  ezo_control_read_info :: "'h \<Rightarrow> ('b, ezo_result \<times> ezo_device_info) state"
  ezo_control_send_find :: "'h \<Rightarrow> ezo_product \<Rightarrow> ('b, sent) state"
  ezo_control_send_led_set :: "'h \<Rightarrow> ezo_product \<Rightarrow> u8 \<Rightarrow> ('b, sent) state"
  ezo_control_send_sleep :: "'h \<Rightarrow> ezo_product \<Rightarrow> ('b, sent) state"
  ezo_product_resolve_timing_hint :: "ezo_product \<Rightarrow> ezo_command_kind \<Rightarrow> ezo_result \<times> u32"
  ezo_product_get_metadata :: "ezo_product \<Rightarrow> string option"
  ezo_ph_send_read :: "'h \<Rightarrow> ('b, sent) state"
  ezo_ph_read_response :: "'h \<Rightarrow> ('b, ezo_result \<times> double) state"
  ezo_ph_send_calibration_query :: "'h \<Rightarrow> ('b, sent) state"
  ezo_ph_read_calibration_status :: "'h \<Rightarrow> ('b, ezo_result \<times> nat) state"
  ezo_ph_send_temperature_query :: "'h \<Rightarrow> ('b, sent) state"
  ezo_ph_read_temperature :: "'h \<Rightarrow> ('b, ezo_result \<times> double) state"
  ezo_ph_send_temperature_set :: "'h \<Rightarrow> double \<Rightarrow> u8 \<Rightarrow> ('b, sent) state"
  ezo_ph_send_calibration :: "'h \<Rightarrow> int \<Rightarrow> double \<Rightarrow> u8 \<Rightarrow> ('b, sent) state"
  ezo_ph_send_clear_calibration :: "'h \<Rightarrow> ('b, sent) state"
  ezo_orp_send_read :: "'h \<Rightarrow> ('b, sent) state"
  ezo_orp_read_response :: "'h \<Rightarrow> ('b, ezo_result \<times> double) state"
  ezo_rtd_send_read :: "'h \<Rightarrow> ('b, sent) state"
  ezo_rtd_read_response_celsius :: "'h \<Rightarrow> ('b, ezo_result \<times> double) state"
  ezo_ec_send_output_query :: "'h \<Rightarrow> ('b, sent) state"
  ezo_ec_read_output_config :: "'h \<Rightarrow> ('b, ezo_result \<times> u32) state"
  ezo_ec_send_read :: "'h \<Rightarrow> ('b, sent) state"
  ezo_ec_read_response :: "'h \<Rightarrow> u32 \<Rightarrow> ('b, ezo_result \<times> ec_reading) state"
  EZO_EC_OUTPUT_CONDUCTIVITY :: u32
  EZO_EC_OUTPUT_TOTAL_DISSOLVED_SOLIDS :: u32
  EZO_EC_OUTPUT_SALINITY :: u32
  EZO_EC_OUTPUT_SPECIFIC_GRAVITY :: u32
  ezo_do_send_output_query :: "'h \<Rightarrow> ('b, sent) state"
  ezo_do_read_output_config :: "'h \<Rightarrow> ('b, ezo_result \<times> u32) state"
  ezo_do_send_read :: "'h \<Rightarrow> ('b, sent) state"
  ezo_do_read_response :: "'h \<Rightarrow> u32 \<Rightarrow> ('b, ezo_result \<times> do_reading) state"
  EZO_DO_OUTPUT_MG_L :: u32
  EZO_DO_OUTPUT_PERCENT_SATURATION :: u32
  ezo_do_send_calibration_query :: "'h \<Rightarrow> ('b, sent) state"
  ezo_do_read_calibration_status :: "'h \<Rightarrow> ('b, ezo_result \<times> nat) state"
  ezo_do_send_temperature_query :: "'h \<Rightarrow> ('b, sent) state"
  ezo_do_read_temperature :: "'h \<Rightarrow> ('b, ezo_result \<times> double) state"
  ezo_do_send_salinity_query :: "'h \<Rightarrow> ('b, sent) state"
  ezo_do_read_salinity :: "'h \<Rightarrow> ('b, ezo_result \<times> (ezo_do_salinity_unit \<times> double)) state"
  ezo_do_send_pressure_query :: "'h \<Rightarrow> ('b, sent) state"
  ezo_do_read_pressure :: "'h \<Rightarrow> ('b, ezo_result \<times> double) state"
  ezo_do_send_temperature_set :: "'h \<Rightarrow> double \<Rightarrow> u8 \<Rightarrow> ('b, sent) state"
  ezo_do_send_salinity_set :: "'h \<Rightarrow> double \<Rightarrow> ezo_do_salinity_unit \<Rightarrow> u8 \<Rightarrow> ('b, sent) state"
  ezo_do_send_pressure_set :: "'h \<Rightarrow> double \<Rightarrow> u8 \<Rightarrow> ('b, sent) state"
  ezo_do_send_calibration :: "'h \<Rightarrow> int \<Rightarrow> ('b, sent) state"
  ezo_do_send_clear_calibration :: "'h \<Rightarrow> ('b, sent) state"
  ezo_hum_send_output_query :: "'h \<Rightarrow> ('b, sent) state"
  ezo_hum_read_output_config :: "'h \<Rightarrow> ('b, ezo_result \<times> u32) state"
  ezo_hum_send_read :: "'h \<Rightarrow> ('b, sent) state"
  ezo_hum_read_response :: "'h \<Rightarrow> u32 \<Rightarrow> ('b, ezo_result \<times> hum_reading) state"
  EZO_HUM_OUTPUT_HUMIDITY :: u32
  EZO_HUM_OUTPUT_AIR_TEMPERATURE :: u32
  EZO_HUM_OUTPUT_DEW_POINT :: u32

section \<open>Binding a device\<close>

record 'h EzoDeviceBinding =
  bd_device :: 'h
  initialized :: bool

definition bind_ezo_i2c_device ::
    "('b, 'm) bus_ops_scheme \<Rightarrow> ('b, 'h, 'n) ezo_driver_scheme \<Rightarrow> u8 \<Rightarrow> 'h EzoDeviceBinding
       \<Rightarrow> Status \<times> 'h EzoDeviceBinding" where
  "bind_ezo_i2c_device ops drv address binding =
     (case ezo_device_init drv address (transport_write_then_read ops) (bd_device binding) of
        (init_result, dev) \<Rightarrow>
          if init_result \<noteq> EZO_OK
          then (make_status Internal (''ezo_device_init failed: '' @ ezo_result_name drv init_result),
                \<lparr>bd_device = dev, initialized = False\<rparr>)
          else (Status_ok, \<lparr>bd_device = dev, initialized = True\<rparr>))"

definition new_binding :: "('b, 'h, 'n) ezo_driver_scheme \<Rightarrow> 'h EzoDeviceBinding" where
  "new_binding drv = \<lparr>bd_device = device_zero drv, initialized = False\<rparr>"

section \<open>Helpers of the device adapters\<close>

definition bus_delay :: "('b, 'm) bus_ops_scheme \<Rightarrow> u32 \<Rightarrow> ('b, unit) state" where
  "bus_delay ops us = State (\<lambda>b. ((), bus_delay_us ops us b))"

text \<open>The wait in microseconds is computed in \<^verbatim>\<open>uint32_t\<close> and wraps.\<close>

definition wait_for_timing_hint ::
    "('b, 'm) bus_ops_scheme \<Rightarrow> ('b, 'h, 'n) ezo_driver_scheme \<Rightarrow> 'h \<Rightarrow> u32 \<Rightarrow> ('b, unit) state" where
  "wait_for_timing_hint ops drv device wait_ms =
     (if wait_ms = 0 \<or> \<not> has_transport_context drv device then State_Monad.return ()
      else bus_delay ops (wait_ms * 1000))"

definition kPendingRereads :: nat where
  "kPendingRereads = 4"

definition kPendingRereadMs :: u32 where
  "kPendingRereadMs = 250"

text \<open>
  One pass of the loop body: the driver reads the response code, and a device still processing makes the
  loop wait and go round again while rereads are left.
\<close>

function read_command_response_loop ::
    "('b, 'm) bus_ops_scheme \<Rightarrow> ('b, 'h, 'n) ezo_driver_scheme \<Rightarrow> 'h \<Rightarrow> nat \<Rightarrow> ('b, Status) state" where
  "read_command_response_loop ops drv device reread =
     do {
       (result, device_status) \<leftarrow> ezo_read_response drv device 32;
       if result \<noteq> EZO_OK
       then State_Monad.return (status_from_ezo_result (ezo_result_name drv) result ''read command response'')
       else case device_status of
         EZO_STATUS_SUCCESS \<Rightarrow> State_Monad.return Status_ok
       | EZO_STATUS_FAIL \<Rightarrow> State_Monad.return
           (make_status Internal ''device rejected the command (response code 2, syntax error)'')
       | EZO_STATUS_NOT_READY \<Rightarrow>
           if reread < kPendingRereads
           then do {
             wait_for_timing_hint ops drv device kPendingRereadMs;
             read_command_response_loop ops drv device (Suc reread)
           }
           else State_Monad.return
             (make_status Unavailable ''device still processing the command (response code 254)'')
       | EZO_STATUS_NO_DATA \<Rightarrow> State_Monad.return
           (make_status Unavailable ''device returned no data for the command (response code 255)'')
       | _ \<Rightarrow> State_Monad.return (make_status Internal ''device returned an unknown response code'')
     }"
  by pat_completeness auto
termination
  by (relation "measure (\<lambda>(ops, drv, device, reread). kPendingRereads - reread)") auto

declare read_command_response_loop.simps [simp del]

definition read_command_response ::
    "('b, 'm) bus_ops_scheme \<Rightarrow> ('b, 'h, 'n) ezo_driver_scheme \<Rightarrow> 'h \<Rightarrow> ('b, Status) state" where
  "read_command_response ops drv device = read_command_response_loop ops drv device 0"

section \<open>Signals\<close>

record SignalDefinition =
  sd_signal_id :: string
  sd_name :: string
  sd_description :: string
  sd_unit :: string
  sd_is_default :: bool

record SignalSample =
  available :: bool
  has_value :: bool
  svalue :: double
  unavailable_reason :: string

definition default_SignalSample :: SignalSample where
  "default_SignalSample = \<lparr>available = True, has_value = False, svalue = Fin 0, unavailable_reason = ''''\<rparr>"

definition set_signal_value :: "SignalSample list \<Rightarrow> nat \<Rightarrow> double \<Rightarrow> SignalSample list" where
  "set_signal_value signals index v =
     (if length signals \<le> index then signals
      else signals[index := (signals ! index)
             \<lparr>available := True, has_value := True, svalue := v, unavailable_reason := ''''\<rparr>])"

definition set_signal_unavailable :: "SignalSample list \<Rightarrow> nat \<Rightarrow> string \<Rightarrow> SignalSample list" where
  "set_signal_unavailable signals index reason =
     (if length signals \<le> index then signals
      else signals[index := (signals ! index)
             \<lparr>available := False, has_value := False, svalue := Fin 0, unavailable_reason := reason\<rparr>])"

definition initialize_signal_samples :: "SignalDefinition list \<Rightarrow> SignalSample list" where
  "initialize_signal_samples defs = replicate (length defs) default_SignalSample"

lemma length_set_signal [simp]:
  "length (set_signal_value xs i v) = length xs"
  "length (set_signal_unavailable xs i r) = length xs"
  by (simp_all add: set_signal_value_def set_signal_unavailable_def)

lemma length_initialize_signal_samples [simp]: "length (initialize_signal_samples defs) = length defs"
  by (simp add: initialize_signal_samples_def)

lemma nth_set_signal_value:
  "j < length xs \<Longrightarrow> set_signal_value xs i v ! j =
     (if i = j then \<lparr>available = True, has_value = True, svalue = v, unavailable_reason = ''''\<rparr> else xs ! j)"
  by (cases "xs ! j") (auto simp: set_signal_value_def)

lemma nth_set_signal_unavailable:
  "j < length xs \<Longrightarrow> set_signal_unavailable xs i r ! j =
     (if i = j then \<lparr>available = False, has_value = False, svalue = Fin 0, unavailable_reason = r\<rparr> else xs ! j)"
  by (cases "xs ! j") (auto simp: set_signal_unavailable_def)

section \<open>The response loop, poll by poll\<close>

text \<open>
  \<open>poll ops drv device k b\<close> is the bus after \<open>k\<close> rounds in which the device answered that it is still
  processing and was waited for, and \<open>answer k\<close> is what the next read returns there.
\<close>

fun poll :: "('b, 'm) bus_ops_scheme \<Rightarrow> ('b, 'h, 'n) ezo_driver_scheme \<Rightarrow> 'h \<Rightarrow> nat \<Rightarrow> 'b \<Rightarrow> 'b" where
  "poll ops drv device 0 b = b"
| "poll ops drv device (Suc k) b =
     snd (run_state (wait_for_timing_hint ops drv device kPendingRereadMs)
       (snd (run_state (ezo_read_response drv device 32) (poll ops drv device k b))))"

definition answer ::
    "('b, 'm) bus_ops_scheme \<Rightarrow> ('b, 'h, 'n) ezo_driver_scheme \<Rightarrow> 'h \<Rightarrow> nat \<Rightarrow> 'b \<Rightarrow> ezo_result \<times> ezo_device_status" where
  "answer ops drv device k b = fst (run_state (ezo_read_response drv device 32) (poll ops drv device k b))"

fun response_status :: "(ezo_result \<Rightarrow> string) \<Rightarrow> ezo_result \<times> ezo_device_status \<Rightarrow> Status" where
  "response_status nm (EZO_OK, EZO_STATUS_SUCCESS) = Status_ok"
| "response_status nm (EZO_OK, EZO_STATUS_FAIL) =
     make_status Internal ''device rejected the command (response code 2, syntax error)''"
| "response_status nm (EZO_OK, EZO_STATUS_NOT_READY) =
     make_status Unavailable ''device still processing the command (response code 254)''"
| "response_status nm (EZO_OK, EZO_STATUS_NO_DATA) =
     make_status Unavailable ''device returned no data for the command (response code 255)''"
| "response_status nm (EZO_OK, _) = make_status Internal ''device returned an unknown response code''"
| "response_status nm (r, _) = status_from_ezo_result nm r ''read command response''"

lemma read_command_response_loop_poll:
  assumes "r \<le> k" "k \<le> kPendingRereads"
    and "\<forall>j. r \<le> j \<and> j < k \<longrightarrow> answer ops drv d j b = (EZO_OK, EZO_STATUS_NOT_READY)"
    and "k = kPendingRereads \<or> answer ops drv d k b \<noteq> (EZO_OK, EZO_STATUS_NOT_READY)"
  shows "run_state (read_command_response_loop ops drv d r) (poll ops drv d r b) =
    (response_status (ezo_result_name drv) (answer ops drv d k b),
     snd (run_state (ezo_read_response drv d 32) (poll ops drv d k b)))"
  using assms
proof (induction "k - r" arbitrary: r)
  case 0
  then have [simp]: "r = k" by simp
  obtain res st b' where run: "run_state (ezo_read_response drv d 32) (poll ops drv d k b) = ((res, st), b')"
    by (metis surj_pair)
  have last: "\<not> k < kPendingRereads" if "res = EZO_OK" "st = EZO_STATUS_NOT_READY"
    using 0 run that by (simp add: answer_def)
  show ?case
    by (subst read_command_response_loop.simps, cases res; cases st) (simp_all add: run answer_def last)
next
  case (Suc n)
  then have "r < k" by simp
  then have "answer ops drv d r b = (EZO_OK, EZO_STATUS_NOT_READY)" using Suc.prems by blast
  then obtain b' where run: "run_state (ezo_read_response drv d 32) (poll ops drv d r b) = ((EZO_OK, EZO_STATUS_NOT_READY), b')"
    by (metis answer_def prod.collapse)
  have "r < kPendingRereads" using Suc.prems \<open>r < k\<close> by simp
  moreover have "run_state (read_command_response_loop ops drv d (Suc r)) (poll ops drv d (Suc r) b) =
    (response_status (ezo_result_name drv) (answer ops drv d k b),
     snd (run_state (ezo_read_response drv d 32) (poll ops drv d k b)))"
    using Suc \<open>r < k\<close> by (intro Suc.hyps) auto
  ultimately show ?case
    by (subst read_command_response_loop.simps) (auto simp: run split: prod.split)
qed

lemma read_command_response_poll:
  assumes "k \<le> kPendingRereads" and "\<forall>j < k. answer ops drv d j b = (EZO_OK, EZO_STATUS_NOT_READY)"
    and "k = kPendingRereads \<or> answer ops drv d k b \<noteq> (EZO_OK, EZO_STATUS_NOT_READY)"
  shows "run_state (read_command_response ops drv d) b =
    (response_status (ezo_result_name drv) (answer ops drv d k b),
     snd (run_state (ezo_read_response drv d 32) (poll ops drv d k b)))"
  using read_command_response_loop_poll [of 0 k ops drv d b] assms
  by (simp add: read_command_response_def)

lemma response_status_ok_iff:
  "is_ok (response_status nm a) \<longleftrightarrow> a = (EZO_OK, EZO_STATUS_SUCCESS)"
  by (cases "(nm, a)" rule: response_status.cases) simp_all

text \<open>
  A driver in which every send and read fails with a transport error and the bus is left alone: concrete
  instances of the parameter are made by overriding the functions an example needs.
\<close>

definition stub :: "'a \<Rightarrow> ('b, ezo_result \<times> 'a) state" where
  "stub x = State_Monad.return (EZO_ERR_TRANSPORT, x)"

definition stub_for :: "'h \<Rightarrow> ('b, 'h) ezo_driver" where
  "stub_for h =
     \<lparr>ezo_result_name = (\<lambda>r. ''EZO_ERR''), device_zero = h, ezo_device_init = (\<lambda>_ _ h. (EZO_OK, h)),
      has_transport_context = (\<lambda>_. True), ezo_read_response = (\<lambda>_ _. stub EZO_STATUS_UNKNOWN),
      ezo_control_send_info_query = (\<lambda>_ _. stub 0),
      ezo_control_read_info = (\<lambda>_. stub \<lparr>product_id = EZO_PRODUCT_UNKNOWN, product_code = '''', firmware_version = ''''\<rparr>),
      ezo_control_send_find = (\<lambda>_ _. stub 0), ezo_control_send_led_set = (\<lambda>_ _ _. stub 0),
      ezo_control_send_sleep = (\<lambda>_ _. stub 0),
      ezo_product_resolve_timing_hint = (\<lambda>_ k. (EZO_OK, if k = EZO_COMMAND_CALIBRATION then 1300 else 300)),
      ezo_product_get_metadata = (\<lambda>_. None),
      ezo_ph_send_read = (\<lambda>_. stub 0), ezo_ph_read_response = (\<lambda>_. stub (Fin 0)),
      ezo_ph_send_calibration_query = (\<lambda>_. stub 0), ezo_ph_read_calibration_status = (\<lambda>_. stub 0),
      ezo_ph_send_temperature_query = (\<lambda>_. stub 0), ezo_ph_read_temperature = (\<lambda>_. stub (Fin 0)),
      ezo_ph_send_temperature_set = (\<lambda>_ _ _. stub 0), ezo_ph_send_calibration = (\<lambda>_ _ _ _. stub 0),
      ezo_ph_send_clear_calibration = (\<lambda>_. stub 0),
      ezo_orp_send_read = (\<lambda>_. stub 0), ezo_orp_read_response = (\<lambda>_. stub (Fin 0)),
      ezo_rtd_send_read = (\<lambda>_. stub 0), ezo_rtd_read_response_celsius = (\<lambda>_. stub (Fin 0)),
      ezo_ec_send_output_query = (\<lambda>_. stub 0), ezo_ec_read_output_config = (\<lambda>_. stub 0),
      ezo_ec_send_read = (\<lambda>_. stub 0),
      ezo_ec_read_response = (\<lambda>_ _. stub \<lparr>ec_present_mask = 0, conductivity_us_cm = Fin 0,
        total_dissolved_solids_ppm = Fin 0, salinity_ppt = Fin 0, specific_gravity = Fin 0\<rparr>),
      EZO_EC_OUTPUT_CONDUCTIVITY = 1, EZO_EC_OUTPUT_TOTAL_DISSOLVED_SOLIDS = 2, EZO_EC_OUTPUT_SALINITY = 4,
      EZO_EC_OUTPUT_SPECIFIC_GRAVITY = 8,
      ezo_do_send_output_query = (\<lambda>_. stub 0), ezo_do_read_output_config = (\<lambda>_. stub 0),
      ezo_do_send_read = (\<lambda>_. stub 0),
      ezo_do_read_response = (\<lambda>_ _. stub \<lparr>do_present_mask = 0, milligrams_per_liter = Fin 0, percent_saturation = Fin 0\<rparr>),
      EZO_DO_OUTPUT_MG_L = 1, EZO_DO_OUTPUT_PERCENT_SATURATION = 2,
      ezo_do_send_calibration_query = (\<lambda>_. stub 0), ezo_do_read_calibration_status = (\<lambda>_. stub 0),
      ezo_do_send_temperature_query = (\<lambda>_. stub 0), ezo_do_read_temperature = (\<lambda>_. stub (Fin 0)),
      ezo_do_send_salinity_query = (\<lambda>_. stub 0),
      ezo_do_read_salinity = (\<lambda>_. stub (EZO_DO_SALINITY_UNIT_MICROSIEMENS, Fin 0)),
      ezo_do_send_pressure_query = (\<lambda>_. stub 0), ezo_do_read_pressure = (\<lambda>_. stub (Fin 0)),
      ezo_do_send_temperature_set = (\<lambda>_ _ _. stub 0), ezo_do_send_salinity_set = (\<lambda>_ _ _ _. stub 0),
      ezo_do_send_pressure_set = (\<lambda>_ _ _. stub 0), ezo_do_send_calibration = (\<lambda>_ _. stub 0),
      ezo_do_send_clear_calibration = (\<lambda>_. stub 0),
      ezo_hum_send_output_query = (\<lambda>_. stub 0), ezo_hum_read_output_config = (\<lambda>_. stub 0),
      ezo_hum_send_read = (\<lambda>_. stub 0),
      ezo_hum_read_response = (\<lambda>_ _. stub \<lparr>hum_present_mask = 0, relative_humidity_percent = Fin 0,
        air_temperature_c = Fin 0, dew_point_c = Fin 0\<rparr>),
      EZO_HUM_OUTPUT_HUMIDITY = 1, EZO_HUM_OUTPUT_AIR_TEMPERATURE = 2, EZO_HUM_OUTPUT_DEW_POINT = 4\<rparr>"

abbreviation stub_driver :: "('b, unit) ezo_driver" where
  "stub_driver \<equiv> stub_for ()"

section \<open>Properties\<close>

text \<open>
  C35: reading a command's response terminates after at most five reads, with a 250 ms wait before each
  reread. It stops at the first answer that is not "still processing" (or at the fifth), reports exactly that
  answer, and succeeds exactly when that answer is the success code; the bus is left as that read left it.
\<close>

theorem read_command_response_correct:
  "\<exists>k \<le> 4.
     (\<forall>j < k. answer ops drv d j b = (EZO_OK, EZO_STATUS_NOT_READY)) \<and>
     (k = 4 \<or> answer ops drv d k b \<noteq> (EZO_OK, EZO_STATUS_NOT_READY)) \<and>
     run_state (read_command_response ops drv d) b =
       (response_status (ezo_result_name drv) (answer ops drv d k b),
        snd (run_state (ezo_read_response drv d 32) (poll ops drv d k b))) \<and>
     (is_ok (fst (run_state (read_command_response ops drv d) b)) \<longleftrightarrow>
        answer ops drv d k b = (EZO_OK, EZO_STATUS_SUCCESS))"
proof -
  let ?stops = "\<lambda>k. k = 4 \<or> answer ops drv d k b \<noteq> (EZO_OK, EZO_STATUS_NOT_READY)"
  define k where "k = (LEAST k. ?stops k)"
  have stops: "?stops k" unfolding k_def by (rule LeastI [of ?stops 4]) simp
  have le: "k \<le> 4" unfolding k_def by (rule Least_le) simp
  have before: "\<forall>j < k. answer ops drv d j b = (EZO_OK, EZO_STATUS_NOT_READY)"
    unfolding k_def using not_less_Least by blast
  from read_command_response_poll [of k ops drv d b] have "run_state (read_command_response ops drv d) b =
       (response_status (ezo_result_name drv) (answer ops drv d k b),
        snd (run_state (ezo_read_response drv d 32) (poll ops drv d k b)))"
    using le before stops by (simp add: kPendingRereads_def)
  then show ?thesis using le before stops by (auto simp: response_status_ok_iff)
qed

definition stub_ops :: "'b bus_ops" where
  "stub_ops =
     \<lparr>bus_open = (\<lambda>b. (I2c_ok, b)), bus_close = (\<lambda>b. b), bus_is_open = (\<lambda>_. True), bus_bus_path = (\<lambda>_. ''stub''),
      bus_write = (\<lambda>_ _ b. (I2c_ok, b)), bus_read = (\<lambda>_ _ _ b. ((I2c_ok, Some []), b)),
      bus_write_then_read = (\<lambda>_ _ _ _ b. ((I2c_ok, Some []), b)), bus_delay_us = (\<lambda>_ b. b),
      bus_io_stats_for = (\<lambda>_ _. zero_IoStats)\<rparr>"

definition scripted_driver :: "((ezo_result \<times> ezo_device_status) list, unit) ezo_driver" where
  "scripted_driver = stub_driver\<lparr>ezo_read_response := (\<lambda>_ _. State (\<lambda>rs. (hd rs, tl rs)))\<rparr>"

theorem read_command_response_correct_witness:
  "let b = [(EZO_OK, EZO_STATUS_NOT_READY), (EZO_OK, EZO_STATUS_SUCCESS), (EZO_OK, EZO_STATUS_FAIL)] in
   answer stub_ops scripted_driver () 0 b = (EZO_OK, EZO_STATUS_NOT_READY) \<and>
   is_ok (fst (run_state (read_command_response stub_ops scripted_driver ()) b))"
proof -
  let ?b = "[(EZO_OK, EZO_STATUS_NOT_READY), (EZO_OK, EZO_STATUS_SUCCESS), (EZO_OK, EZO_STATUS_FAIL)]"
  have a0: "answer stub_ops scripted_driver () 0 ?b = (EZO_OK, EZO_STATUS_NOT_READY)"
    and a1: "answer stub_ops scripted_driver () 1 ?b = (EZO_OK, EZO_STATUS_SUCCESS)"
    by (simp_all add: answer_def scripted_driver_def stub_for_def wait_for_timing_hint_def bus_delay_def
        stub_ops_def kPendingRereadMs_def)
  from read_command_response_correct [of stub_ops scripted_driver "()" ?b] obtain k
    where before: "\<forall>j < k. answer stub_ops scripted_driver () j ?b = (EZO_OK, EZO_STATUS_NOT_READY)"
      and stops: "k = 4 \<or> answer stub_ops scripted_driver () k ?b \<noteq> (EZO_OK, EZO_STATUS_NOT_READY)"
      and ok: "is_ok (fst (run_state (read_command_response stub_ops scripted_driver ()) ?b)) \<longleftrightarrow>
        answer stub_ops scripted_driver () k ?b = (EZO_OK, EZO_STATUS_SUCCESS)" by blast
  have "\<not> 1 < k" using before a1 by auto
  moreover have "k \<noteq> 0" using stops a0 by (cases "k = 0") simp_all
  ultimately have "k = 1" by simp
  then show ?thesis using ok a0 a1 by (simp add: Let_def)
qed

end
