(* ===== verification/Ezo_Adapters.thy ===== *)
theory Ezo_Adapters
  imports Ezo_Driver
begin

text \<open>
  The per-family device adapters (\<^verbatim>\<open>src/devices/*/\<close>): the signal tables, the read, calibration-level and
  compensation functions of pH, ORP, EC, DO, RTD and HUM, the adapter descriptor and its dispatch
  (\<^verbatim>\<open>src/devices/common/device_adapter.cpp\<close>). The contract the runtime relies on is the locale
  \<open>family_adapter\<close>, interpreted for each of the six families.
\<close>

unbundle bit_operations_syntax

section \<open>Compensation values\<close>

definition kMinTemperatureC :: double where "kMinTemperatureC = Fin 0"
definition kMaxTemperatureC :: double where "kMaxTemperatureC = Fin 100"
definition kMinSalinityUsCm :: double where "kMinSalinityUsCm = Fin 0"
definition kMaxSalinityUsCm :: double where "kMaxSalinityUsCm = Fin 100000"
definition kMinPressureKpa :: double where "kMinPressureKpa = Fin 10"
definition kMaxPressureKpa :: double where "kMaxPressureKpa = Fin 300"
definition kDoDefaultTemperatureC :: double where "kDoDefaultTemperatureC = Fin 20"
definition kDoDefaultSalinityUsCm :: double where "kDoDefaultSalinityUsCm = Fin 0"
definition kDoDefaultPressureKpa :: double where "kDoDefaultPressureKpa = round_double (1013 / 10)"

record Compensation =
  temperature_c :: "double option"
  salinity_us_cm :: "double option"
  pressure_kpa :: "double option"

definition empty_Compensation :: Compensation where
  "empty_Compensation = \<lparr>temperature_c = None, salinity_us_cm = None, pressure_kpa = None\<rparr>"

record CompensationReading =
  cr_values :: Compensation
  salinity_unavailable :: string

definition empty_CompensationReading :: CompensationReading where
  "empty_CompensationReading = \<lparr>cr_values = empty_Compensation, salinity_unavailable = ''''\<rparr>"

section \<open>The adapter descriptor\<close>

text \<open>
  A null function pointer is \<open>None\<close>. An output parameter is passed in and returned, so that a function
  which fails before writing it leaves the caller's value.
\<close>

record ('b, 'h) DeviceAdapter =
  expected_product :: ezo_product
  type_id :: string
  signals :: "SignalDefinition list"
  read_sample :: "'h \<Rightarrow> ('b, Status \<times> SignalSample list) state"
  calibration_level_signal :: int
  read_calibration_level :: "('h \<Rightarrow> double \<Rightarrow> ('b, Status \<times> double) state) option"
  temperature_compensation_signal :: int
  salinity_compensation_signal :: int
  pressure_compensation_signal :: int
  read_compensation :: "('h \<Rightarrow> CompensationReading \<Rightarrow> ('b, Status \<times> CompensationReading) state) option"
  write_compensation :: "('h \<Rightarrow> Compensation \<Rightarrow> ('b, Status) state) option"

section \<open>One command and its reply\<close>

text \<open>
  Every adapter function sends a command, returns the mapped error if the send failed, waits the driver's
  hint, reads the reply and returns the mapped error if the read failed. \<open>exchange\<close> is that sequence, with
  the two message prefixes of the call site; \<open>finish\<close> is the lambda of the DO writer (and the tail of the pH
  writer): wait, then read the command's response code.
\<close>

definition exchange ::
    "('b, 'm) bus_ops_scheme \<Rightarrow> ('b, 'h, 'n) ezo_driver_scheme \<Rightarrow> 'h
      \<Rightarrow> ('b, sent) state \<Rightarrow> string \<Rightarrow> ('b, ezo_result \<times> 'r) state \<Rightarrow> string \<Rightarrow> ('b, Status + 'r) state" where
  "exchange ops drv device send send_context recv recv_context =
     do {
       (result, hint) \<leftarrow> send;
       if result \<noteq> EZO_OK
       then State_Monad.return (Inl (status_from_ezo_result (ezo_result_name drv) result send_context))
       else do {
         wait_for_timing_hint ops drv device hint;
         (result, reading) \<leftarrow> recv;
         if result \<noteq> EZO_OK
         then State_Monad.return (Inl (status_from_ezo_result (ezo_result_name drv) result recv_context))
         else State_Monad.return (Inr reading)
       }
     }"

definition finish ::
    "('b, 'm) bus_ops_scheme \<Rightarrow> ('b, 'h, 'n) ezo_driver_scheme \<Rightarrow> 'h
      \<Rightarrow> ('b, sent) state \<Rightarrow> string \<Rightarrow> ('b, Status) state" where
  "finish ops drv device send send_context =
     do {
       (result, hint) \<leftarrow> send;
       if result \<noteq> EZO_OK
       then State_Monad.return (status_from_ezo_result (ezo_result_name drv) result send_context)
       else do {
         wait_for_timing_hint ops drv device hint;
         read_command_response ops drv device
       }
     }"

text \<open>An output the device has enabled carries its value; a disabled one is unavailable with a reason.\<close>

definition set_output :: "bool \<Rightarrow> nat \<Rightarrow> double \<Rightarrow> string \<Rightarrow> SignalSample list \<Rightarrow> SignalSample list" where
  "set_output present index v reason out =
     (if present then set_signal_value out index v else set_signal_unavailable out index reason)"

definition def_signal :: "string \<Rightarrow> string \<Rightarrow> string \<Rightarrow> string \<Rightarrow> bool \<Rightarrow> SignalDefinition" where
  "def_signal i n d u dflt =
     \<lparr>sd_signal_id = i, sd_name = n, sd_description = d, sd_unit = u, sd_is_default = dflt\<rparr>"

section \<open>pH\<close>

definition ph_kSignals :: "SignalDefinition list" where
  "ph_kSignals =
     [def_signal ''ph_value'' ''pH'' ''Latest pH measurement'' ''pH'' True,
      def_signal ''ph_calibration_level'' ''pH calibration level''
        ''Points calibrated on the device, from Cal,?: 0 none, 1 mid, 2 mid and low, 3 mid, low and high'' '''' False,
      def_signal ''ph_temperature_compensation_c'' ''pH temperature compensation''
        ''Temperature the probe compensates its readings for, from T,?: 25 C until set'' ''C'' False]"

definition ph_read_sample ::
    "('b, 'm) bus_ops_scheme \<Rightarrow> ('b, 'h, 'n) ezo_driver_scheme \<Rightarrow> 'h \<Rightarrow> ('b, Status \<times> SignalSample list) state" where
  "ph_read_sample ops drv device =
     do {
       let out = initialize_signal_samples ph_kSignals;
       e \<leftarrow> exchange ops drv device (ezo_ph_send_read drv device) ''send pH read''
              (ezo_ph_read_response drv device) ''read pH response'';
       State_Monad.return (case e of Inl st \<Rightarrow> (st, out) | Inr ph \<Rightarrow> (Status_ok, set_signal_value out 0 ph))
     }"

definition ph_read_calibration_level ::
    "('b, 'm) bus_ops_scheme \<Rightarrow> ('b, 'h, 'n) ezo_driver_scheme \<Rightarrow> 'h \<Rightarrow> double \<Rightarrow> ('b, Status \<times> double) state" where
  "ph_read_calibration_level ops drv device level_out =
     do {
       e \<leftarrow> exchange ops drv device (ezo_ph_send_calibration_query drv device) ''send pH calibration query''
              (ezo_ph_read_calibration_status drv device) ''read pH calibration status'';
       State_Monad.return (case e of Inl st \<Rightarrow> (st, level_out) | Inr level \<Rightarrow> (Status_ok, double_of_int (int level)))
     }"

definition ph_read_compensation ::
    "('b, 'm) bus_ops_scheme \<Rightarrow> ('b, 'h, 'n) ezo_driver_scheme \<Rightarrow> 'h \<Rightarrow> CompensationReading
      \<Rightarrow> ('b, Status \<times> CompensationReading) state" where
  "ph_read_compensation ops drv device reading_out =
     do {
       e \<leftarrow> exchange ops drv device (ezo_ph_send_temperature_query drv device) ''send pH temperature compensation query''
              (ezo_ph_read_temperature drv device) ''read pH temperature compensation'';
       State_Monad.return (case e of
           Inl st \<Rightarrow> (st, reading_out)
         | Inr t \<Rightarrow> (Status_ok, empty_CompensationReading\<lparr>cr_values := empty_Compensation\<lparr>temperature_c := Some t\<rparr>\<rparr>))
     }"

definition ph_write_compensation ::
    "('b, 'm) bus_ops_scheme \<Rightarrow> ('b, 'h, 'n) ezo_driver_scheme \<Rightarrow> 'h \<Rightarrow> Compensation \<Rightarrow> ('b, Status) state" where
  "ph_write_compensation ops drv device values =
     (case temperature_c values of
        None \<Rightarrow> State_Monad.return Status_ok
      | Some t \<Rightarrow> finish ops drv device (ezo_ph_send_temperature_set drv device t 2) ''send pH temperature compensation'')"

definition ph_kAdapter :: "('b, 'm) bus_ops_scheme \<Rightarrow> ('b, 'h, 'n) ezo_driver_scheme \<Rightarrow> ('b, 'h) DeviceAdapter" where
  "ph_kAdapter ops drv =
     \<lparr>expected_product = EZO_PRODUCT_PH, type_id = ''sensor.ezo.ph'', signals = ph_kSignals,
      read_sample = ph_read_sample ops drv, calibration_level_signal = 1,
      read_calibration_level = Some (ph_read_calibration_level ops drv),
      temperature_compensation_signal = 2, salinity_compensation_signal = -1, pressure_compensation_signal = -1,
      read_compensation = Some (ph_read_compensation ops drv),
      write_compensation = Some (ph_write_compensation ops drv)\<rparr>"

section \<open>ORP and RTD\<close>

definition orp_kSignals :: "SignalDefinition list" where
  "orp_kSignals = [def_signal ''orp_millivolts'' ''ORP'' ''Latest ORP measurement'' ''mV'' True]"

definition orp_read_sample ::
    "('b, 'm) bus_ops_scheme \<Rightarrow> ('b, 'h, 'n) ezo_driver_scheme \<Rightarrow> 'h \<Rightarrow> ('b, Status \<times> SignalSample list) state" where
  "orp_read_sample ops drv device =
     do {
       let out = initialize_signal_samples orp_kSignals;
       e \<leftarrow> exchange ops drv device (ezo_orp_send_read drv device) ''send ORP read''
              (ezo_orp_read_response drv device) ''read ORP response'';
       State_Monad.return (case e of Inl st \<Rightarrow> (st, out) | Inr mv \<Rightarrow> (Status_ok, set_signal_value out 0 mv))
     }"

definition rtd_kSignals :: "SignalDefinition list" where
  "rtd_kSignals = [def_signal ''rtd_temperature_c'' ''RTD Temperature'' ''Temperature reading'' ''C'' True]"

definition rtd_read_sample ::
    "('b, 'm) bus_ops_scheme \<Rightarrow> ('b, 'h, 'n) ezo_driver_scheme \<Rightarrow> 'h \<Rightarrow> ('b, Status \<times> SignalSample list) state" where
  "rtd_read_sample ops drv device =
     do {
       let out = initialize_signal_samples rtd_kSignals;
       e \<leftarrow> exchange ops drv device (ezo_rtd_send_read drv device) ''send RTD read''
              (ezo_rtd_read_response_celsius drv device) ''read RTD response'';
       State_Monad.return (case e of Inl st \<Rightarrow> (st, out) | Inr t \<Rightarrow> (Status_ok, set_signal_value out 0 t))
     }"

text \<open>The defaults of the descriptor's last members: no calibration, no compensation.\<close>

definition plain_adapter ::
    "ezo_product \<Rightarrow> string \<Rightarrow> SignalDefinition list \<Rightarrow> ('h \<Rightarrow> ('b, Status \<times> SignalSample list) state)
      \<Rightarrow> ('b, 'h) DeviceAdapter" where
  "plain_adapter product tid sigs rs =
     \<lparr>expected_product = product, type_id = tid, signals = sigs, read_sample = rs,
      calibration_level_signal = -1, read_calibration_level = None, temperature_compensation_signal = -1,
      salinity_compensation_signal = -1, pressure_compensation_signal = -1, read_compensation = None,
      write_compensation = None\<rparr>"

definition orp_kAdapter :: "('b, 'm) bus_ops_scheme \<Rightarrow> ('b, 'h, 'n) ezo_driver_scheme \<Rightarrow> ('b, 'h) DeviceAdapter" where
  "orp_kAdapter ops drv = plain_adapter EZO_PRODUCT_ORP ''sensor.ezo.orp'' orp_kSignals (orp_read_sample ops drv)"

definition rtd_kAdapter :: "('b, 'm) bus_ops_scheme \<Rightarrow> ('b, 'h, 'n) ezo_driver_scheme \<Rightarrow> ('b, 'h) DeviceAdapter" where
  "rtd_kAdapter ops drv = plain_adapter EZO_PRODUCT_RTD ''sensor.ezo.rtd'' rtd_kSignals (rtd_read_sample ops drv)"

section \<open>EC\<close>

definition ec_kSignals :: "SignalDefinition list" where
  "ec_kSignals =
     [def_signal ''ec_conductivity_us_cm'' ''EC Conductivity'' ''Electrical conductivity'' ''uS/cm'' True,
      def_signal ''ec_tds_ppm'' ''EC TDS'' ''Total dissolved solids'' ''ppm'' False,
      def_signal ''ec_salinity_psu'' ''EC Salinity'' ''Salinity'' ''psu'' False,
      def_signal ''ec_specific_gravity'' ''EC Specific Gravity'' ''Specific gravity'' ''sg'' False]"

definition ec_read_sample ::
    "('b, 'm) bus_ops_scheme \<Rightarrow> ('b, 'h, 'n) ezo_driver_scheme \<Rightarrow> 'h \<Rightarrow> ('b, Status \<times> SignalSample list) state" where
  "ec_read_sample ops drv device =
     do {
       let out = initialize_signal_samples ec_kSignals;
       c \<leftarrow> exchange ops drv device (ezo_ec_send_output_query drv device) ''send EC output query''
              (ezo_ec_read_output_config drv device) ''read EC output query'';
       case c of
         Inl st \<Rightarrow> State_Monad.return (st, out)
       | Inr enabled_mask \<Rightarrow> do {
           e \<leftarrow> exchange ops drv device (ezo_ec_send_read drv device) ''send EC read''
                  (ezo_ec_read_response drv device enabled_mask) ''read EC response'';
           State_Monad.return (case e of
             Inl st \<Rightarrow> (st, out)
           | Inr reading \<Rightarrow>
               (let has = (\<lambda>flag. ec_present_mask reading AND flag \<noteq> 0) in
                (Status_ok,
                 set_output (has (EZO_EC_OUTPUT_SPECIFIC_GRAVITY drv)) 3 (specific_gravity reading)
                   ''specific gravity output disabled on device''
                 (set_output (has (EZO_EC_OUTPUT_SALINITY drv)) 2 (salinity_ppt reading)
                   ''salinity output disabled on device''
                 (set_output (has (EZO_EC_OUTPUT_TOTAL_DISSOLVED_SOLIDS drv)) 1 (total_dissolved_solids_ppm reading)
                   ''tds output disabled on device''
                 (set_output (has (EZO_EC_OUTPUT_CONDUCTIVITY drv)) 0 (conductivity_us_cm reading)
                   ''conductivity output disabled on device'' out))))))
         }
     }"

definition ec_kAdapter :: "('b, 'm) bus_ops_scheme \<Rightarrow> ('b, 'h, 'n) ezo_driver_scheme \<Rightarrow> ('b, 'h) DeviceAdapter" where
  "ec_kAdapter ops drv = plain_adapter EZO_PRODUCT_EC ''sensor.ezo.ec'' ec_kSignals (ec_read_sample ops drv)"

section \<open>HUM\<close>

definition hum_kSignals :: "SignalDefinition list" where
  "hum_kSignals =
     [def_signal ''hum_relative_humidity_pct'' ''Humidity'' ''Relative humidity'' ''%'' True,
      def_signal ''hum_temperature_c'' ''Air Temperature'' ''Ambient air temperature'' ''C'' True,
      def_signal ''hum_dew_point_c'' ''Dew Point'' ''Dew point temperature'' ''C'' False]"

definition hum_read_sample ::
    "('b, 'm) bus_ops_scheme \<Rightarrow> ('b, 'h, 'n) ezo_driver_scheme \<Rightarrow> 'h \<Rightarrow> ('b, Status \<times> SignalSample list) state" where
  "hum_read_sample ops drv device =
     do {
       let out = initialize_signal_samples hum_kSignals;
       c \<leftarrow> exchange ops drv device (ezo_hum_send_output_query drv device) ''send HUM output query''
              (ezo_hum_read_output_config drv device) ''read HUM output query'';
       case c of
         Inl st \<Rightarrow> State_Monad.return (st, out)
       | Inr enabled_mask \<Rightarrow> do {
           e \<leftarrow> exchange ops drv device (ezo_hum_send_read drv device) ''send HUM read''
                  (ezo_hum_read_response drv device enabled_mask) ''read HUM response'';
           State_Monad.return (case e of
             Inl st \<Rightarrow> (st, out)
           | Inr reading \<Rightarrow>
               (let has = (\<lambda>flag. hum_present_mask reading AND flag \<noteq> 0) in
                (Status_ok,
                 set_output (has (EZO_HUM_OUTPUT_DEW_POINT drv)) 2 (dew_point_c reading)
                   ''dew point output disabled on device''
                 (set_output (has (EZO_HUM_OUTPUT_AIR_TEMPERATURE drv)) 1 (air_temperature_c reading)
                   ''air temperature output disabled on device''
                 (set_output (has (EZO_HUM_OUTPUT_HUMIDITY drv)) 0 (relative_humidity_percent reading)
                   ''humidity output disabled on device'' out)))))
         }
     }"

definition hum_kAdapter :: "('b, 'm) bus_ops_scheme \<Rightarrow> ('b, 'h, 'n) ezo_driver_scheme \<Rightarrow> ('b, 'h) DeviceAdapter" where
  "hum_kAdapter ops drv = plain_adapter EZO_PRODUCT_HUM ''sensor.ezo.hum'' hum_kSignals (hum_read_sample ops drv)"

section \<open>DO\<close>

definition do_kSignals :: "SignalDefinition list" where
  "do_kSignals =
     [def_signal ''do_mg_l'' ''Dissolved Oxygen (mg/L)'' ''Dissolved oxygen concentration'' ''mg/L'' True,
      def_signal ''do_saturation_pct'' ''Dissolved Oxygen (%)'' ''Dissolved oxygen percent saturation'' ''%'' False,
      def_signal ''do_calibration_level'' ''DO calibration level''
        ''Points calibrated on the device, from Cal,?: 0 none, 1 one point, 2 two points (zero and atmospheric)'' '''' False,
      def_signal ''do_temperature_compensation_c'' ''DO temperature compensation''
        ''Temperature the probe compensates its readings for, from T,?: 20 C until set'' ''C'' False,
      def_signal ''do_salinity_compensation_us_cm'' ''DO salinity compensation''
        ''Salinity the probe compensates its readings for, from S,?: 0 until set'' ''uS/cm'' False,
      def_signal ''do_pressure_compensation_kpa'' ''DO pressure compensation''
        ''Atmospheric pressure the probe compensates its readings for, from P,?: 101.3 kPa until set'' ''kPa'' False]"

definition do_read_sample ::
    "('b, 'm) bus_ops_scheme \<Rightarrow> ('b, 'h, 'n) ezo_driver_scheme \<Rightarrow> 'h \<Rightarrow> ('b, Status \<times> SignalSample list) state" where
  "do_read_sample ops drv device =
     do {
       let out = initialize_signal_samples do_kSignals;
       c \<leftarrow> exchange ops drv device (ezo_do_send_output_query drv device) ''send DO output query''
              (ezo_do_read_output_config drv device) ''read DO output query'';
       case c of
         Inl st \<Rightarrow> State_Monad.return (st, out)
       | Inr enabled_mask \<Rightarrow> do {
           e \<leftarrow> exchange ops drv device (ezo_do_send_read drv device) ''send DO read''
                  (ezo_do_read_response drv device enabled_mask) ''read DO response'';
           State_Monad.return (case e of
             Inl st \<Rightarrow> (st, out)
           | Inr reading \<Rightarrow>
               (let has = (\<lambda>flag. do_present_mask reading AND flag \<noteq> 0) in
                (Status_ok,
                 set_output (has (EZO_DO_OUTPUT_PERCENT_SATURATION drv)) 1 (percent_saturation reading)
                   ''saturation output disabled on device''
                 (set_output (has (EZO_DO_OUTPUT_MG_L drv)) 0 (milligrams_per_liter reading)
                   ''mg/l output disabled on device'' out))))
         }
     }"

definition do_read_calibration_level ::
    "('b, 'm) bus_ops_scheme \<Rightarrow> ('b, 'h, 'n) ezo_driver_scheme \<Rightarrow> 'h \<Rightarrow> double \<Rightarrow> ('b, Status \<times> double) state" where
  "do_read_calibration_level ops drv device level_out =
     do {
       e \<leftarrow> exchange ops drv device (ezo_do_send_calibration_query drv device) ''send DO calibration query''
              (ezo_do_read_calibration_status drv device) ''read DO calibration status'';
       State_Monad.return (case e of Inl st \<Rightarrow> (st, level_out) | Inr level \<Rightarrow> (Status_ok, double_of_int (int level)))
     }"

definition do_read_compensation ::
    "('b, 'm) bus_ops_scheme \<Rightarrow> ('b, 'h, 'n) ezo_driver_scheme \<Rightarrow> 'h \<Rightarrow> CompensationReading
      \<Rightarrow> ('b, Status \<times> CompensationReading) state" where
  "do_read_compensation ops drv device reading_out =
     do {
       e1 \<leftarrow> exchange ops drv device (ezo_do_send_temperature_query drv device) ''send DO temperature compensation query''
               (ezo_do_read_temperature drv device) ''read DO temperature compensation'';
       case e1 of
         Inl st \<Rightarrow> State_Monad.return (st, reading_out)
       | Inr t \<Rightarrow> do {
           e2 \<leftarrow> exchange ops drv device (ezo_do_send_salinity_query drv device) ''send DO salinity compensation query''
                   (ezo_do_read_salinity drv device) ''read DO salinity compensation'';
           case e2 of
             Inl st \<Rightarrow> State_Monad.return (st, reading_out)
           | Inr (unit, s) \<Rightarrow> do {
               e3 \<leftarrow> exchange ops drv device (ezo_do_send_pressure_query drv device) ''send DO pressure compensation query''
                       (ezo_do_read_pressure drv device) ''read DO pressure compensation'';
               State_Monad.return (case e3 of
                 Inl st \<Rightarrow> (st, reading_out)
               | Inr p \<Rightarrow>
                   (Status_ok,
                    (if unit = EZO_DO_SALINITY_UNIT_MICROSIEMENS
                     then \<lparr>cr_values = \<lparr>temperature_c = Some t, salinity_us_cm = Some s, pressure_kpa = Some p\<rparr>,
                           salinity_unavailable = ''''\<rparr>
                     else \<lparr>cr_values = \<lparr>temperature_c = Some t, salinity_us_cm = None, pressure_kpa = Some p\<rparr>,
                           salinity_unavailable = ''probe reports its salinity compensation in ppt, not uS/cm''\<rparr>)))
             }
         }
     }"

text \<open>One optional value of the writer: sent when given, and its status returned.\<close>

definition write_value :: "double option \<Rightarrow> (double \<Rightarrow> ('b, Status) state) \<Rightarrow> ('b, Status) state" where
  "write_value v f = (case v of None \<Rightarrow> State_Monad.return Status_ok | Some x \<Rightarrow> f x)"

definition do_write_compensation ::
    "('b, 'm) bus_ops_scheme \<Rightarrow> ('b, 'h, 'n) ezo_driver_scheme \<Rightarrow> 'h \<Rightarrow> Compensation \<Rightarrow> ('b, Status) state" where
  "do_write_compensation ops drv device values =
     do {
       s1 \<leftarrow> write_value (temperature_c values) (\<lambda>t. finish ops drv device
               (ezo_do_send_temperature_set drv device t 2) ''send DO temperature compensation'');
       if \<not> is_ok s1 then State_Monad.return s1
       else do {
         s2 \<leftarrow> write_value (salinity_us_cm values) (\<lambda>s. finish ops drv device
                 (ezo_do_send_salinity_set drv device s EZO_DO_SALINITY_UNIT_MICROSIEMENS 1) ''send DO salinity compensation'');
         if \<not> is_ok s2 then State_Monad.return s2
         else do {
           s3 \<leftarrow> write_value (pressure_kpa values) (\<lambda>p. finish ops drv device
                   (ezo_do_send_pressure_set drv device p 2) ''send DO pressure compensation'');
           if \<not> is_ok s3 then State_Monad.return s3
           else State_Monad.return Status_ok
         }
       }
     }"

definition do_kAdapter :: "('b, 'm) bus_ops_scheme \<Rightarrow> ('b, 'h, 'n) ezo_driver_scheme \<Rightarrow> ('b, 'h) DeviceAdapter" where
  "do_kAdapter ops drv =
     \<lparr>expected_product = EZO_PRODUCT_DO, type_id = ''sensor.ezo.do'', signals = do_kSignals,
      read_sample = do_read_sample ops drv, calibration_level_signal = 2,
      read_calibration_level = Some (do_read_calibration_level ops drv),
      temperature_compensation_signal = 3, salinity_compensation_signal = 4, pressure_compensation_signal = 5,
      read_compensation = Some (do_read_compensation ops drv),
      write_compensation = Some (do_write_compensation ops drv)\<rparr>"

section \<open>Dispatch\<close>

fun adapter_for :: "('b, 'm) bus_ops_scheme \<Rightarrow> ('b, 'h, 'n) ezo_driver_scheme \<Rightarrow> EzoDeviceType \<Rightarrow> ('b, 'h) DeviceAdapter" where
  "adapter_for ops drv Ph = ph_kAdapter ops drv"
| "adapter_for ops drv Orp = orp_kAdapter ops drv"
| "adapter_for ops drv Ec = ec_kAdapter ops drv"
| "adapter_for ops drv Do = do_kAdapter ops drv"
| "adapter_for ops drv Rtd = rtd_kAdapter ops drv"
| "adapter_for ops drv Hum = hum_kAdapter ops drv"

section \<open>The contract of a family\<close>

text \<open>
  What the runtime relies on: a sample has one slot per declared signal; after a successful read each of the
  first \<open>measured\<close> slots either carries a value or is unavailable with a reason; the remaining slots, which
  hold what is read on demand (calibration level and compensation), come out empty, so a sample never carries
  a level or a compensation of its own; the on-demand signals exist exactly when their reader does.
\<close>

locale family_adapter =
  fixes adapter :: "('b, 'h) DeviceAdapter" and measured :: nat
  assumes measured_le: "measured \<le> length (signals adapter)"
    and sample_length: "run_state (read_sample adapter d) b = ((st, out), b') \<Longrightarrow> length out = length (signals adapter)"
    and sample_measured: "run_state (read_sample adapter d) b = ((st, out), b') \<Longrightarrow> is_ok st \<Longrightarrow> i < measured \<Longrightarrow>
      available (out ! i) = has_value (out ! i) \<and> (available (out ! i) \<longleftrightarrow> unavailable_reason (out ! i) = '''')"
    and sample_rest: "run_state (read_sample adapter d) b = ((st, out), b') \<Longrightarrow> measured \<le> i \<Longrightarrow> i < length out \<Longrightarrow>
      out ! i = default_SignalSample"
    and level_signal: "read_calibration_level adapter = None \<longleftrightarrow> calibration_level_signal adapter < 0"
    and level_slot: "0 \<le> calibration_level_signal adapter \<Longrightarrow>
      measured \<le> nat (calibration_level_signal adapter) \<and> nat (calibration_level_signal adapter) < length (signals adapter)"
    and compensation_slots: "x \<in> {temperature_compensation_signal adapter, salinity_compensation_signal adapter,
        pressure_compensation_signal adapter} \<Longrightarrow> 0 \<le> x \<Longrightarrow>
      measured \<le> nat x \<and> nat x < length (signals adapter) \<and> x \<noteq> calibration_level_signal adapter"
    and compensation_functions: "read_compensation adapter = None \<longleftrightarrow> write_compensation adapter = None"
      "read_compensation adapter = None \<longleftrightarrow> temperature_compensation_signal adapter < 0"
begin

lemma level_slot_empty:
  assumes "run_state (read_sample adapter d) b = ((st, out), b')" and "0 \<le> calibration_level_signal adapter"
  shows "nat (calibration_level_signal adapter) < length out \<and>
    out ! nat (calibration_level_signal adapter) = default_SignalSample"
  using sample_rest [OF assms(1)] sample_length [OF assms(1)] level_slot [OF assms(2)] by simp

lemma compensation_slot_empty:
  assumes "run_state (read_sample adapter d) b = ((st, out), b')"
    and "x \<in> {temperature_compensation_signal adapter, salinity_compensation_signal adapter,
        pressure_compensation_signal adapter}" "0 \<le> x"
  shows "nat x < length out \<and> out ! nat x = default_SignalSample"
  using sample_rest [OF assms(1)] sample_length [OF assms(1)] compensation_slots [OF assms(2,3)] by simp

end

section \<open>The six families meet the contract\<close>

lemma exchange_error:
  "run_state (exchange ops drv d send c1 recv c2) b = (Inl st, b') \<Longrightarrow> \<not> is_ok st"
  by (auto simp: exchange_def split: prod.splits if_splits)

lemma length_set_output [simp]: "length (set_output p i v r out) = length out"
  by (simp add: set_output_def)

lemma nth_set_output:
  "j < length out \<Longrightarrow> set_output p i v r out ! j =
     (if i = j then
        (if p then \<lparr>available = True, has_value = True, svalue = v, unavailable_reason = ''''\<rparr>
         else \<lparr>available = False, has_value = False, svalue = Fin 0, unavailable_reason = r\<rparr>)
      else out ! j)"
  by (simp add: set_output_def nth_set_signal_value nth_set_signal_unavailable)

lemmas signal_tables = ph_kSignals_def orp_kSignals_def ec_kSignals_def do_kSignals_def rtd_kSignals_def hum_kSignals_def
lemmas adapters = ph_kAdapter_def orp_kAdapter_def ec_kAdapter_def do_kAdapter_def rtd_kAdapter_def hum_kAdapter_def
  plain_adapter_def

text \<open>
  The shape of a sample with \<open>n\<close> slots of which the first \<open>m\<close> are measured. Each family starts from the
  empty sample and fills its slots in order, one per output.
\<close>

definition filled :: "nat \<Rightarrow> nat \<Rightarrow> SignalSample list \<Rightarrow> bool" where
  "filled n m out \<longleftrightarrow> length out = n \<and>
     (\<forall>i < m. available (out ! i) = has_value (out ! i) \<and> (available (out ! i) \<longleftrightarrow> unavailable_reason (out ! i) = '''')) \<and>
     (\<forall>i. m \<le> i \<and> i < n \<longrightarrow> out ! i = default_SignalSample)"

definition sample_ok :: "nat \<Rightarrow> nat \<Rightarrow> Status \<times> SignalSample list \<Rightarrow> bool" where
  "sample_ok n m r \<longleftrightarrow> (if is_ok (fst r) then filled n m (snd r) else filled n 0 (snd r))"

lemma filled_initial [simp]: "filled n 0 (initialize_signal_samples defs) \<longleftrightarrow> length defs = n"
  by (auto simp: filled_def initialize_signal_samples_def)

lemma filled_set_output:
  "filled n m out \<Longrightarrow> m < n \<Longrightarrow> r \<noteq> '''' \<Longrightarrow> filled n (Suc m) (set_output p m v r out)"
  by (auto simp: filled_def nth_set_output less_Suc_eq)

lemma filled_set_value: "filled n m out \<Longrightarrow> m < n \<Longrightarrow> filled n (Suc m) (set_signal_value out m v)"
  using filled_set_output [of n m out "''x''" True v] by (simp add: set_output_def)

lemma sample_ok_simps [simp]:
  "sample_ok n m (Status_ok, out) = filled n m out"
  "\<not> is_ok st \<Longrightarrow> sample_ok n m (st, out) = filled n 0 out"
  by (simp_all add: sample_ok_def)

lemma length_signals [simp]:
  "length ph_kSignals = 3" "length orp_kSignals = 1" "length ec_kSignals = 4" "length do_kSignals = 6"
  "length rtd_kSignals = 1" "length hum_kSignals = 3"
  by (simp_all add: signal_tables)

lemma filled_chain:
  "length defs = n \<Longrightarrow> 0 < n \<Longrightarrow> filled n 1 (set_signal_value (initialize_signal_samples defs) 0 v)"
  "length defs = n \<Longrightarrow> 1 < n \<Longrightarrow> r0 \<noteq> '''' \<Longrightarrow> r1 \<noteq> '''' \<Longrightarrow>
     filled n 2 (set_output p1 1 v1 r1 (set_output p0 0 v0 r0 (initialize_signal_samples defs)))"
  using filled_set_value [of n 0 "initialize_signal_samples defs" v]
    filled_set_output [of n 1 _ r1 p1 v1] filled_set_output [of n 0 "initialize_signal_samples defs" r0 p0 v0]
  by (simp_all add: numeral_2_eq_2)

lemma ph_sample: "sample_ok 3 1 (fst (run_state (ph_read_sample ops drv d) b))"
  unfolding ph_read_sample_def Let_def run_state_bind
  by (auto simp: filled_chain simp del: One_nat_def dest!: exchange_error split: prod.split sum.split)

lemma orp_sample: "sample_ok 1 1 (fst (run_state (orp_read_sample ops drv d) b))"
  unfolding orp_read_sample_def Let_def run_state_bind
  by (auto simp: filled_chain simp del: One_nat_def dest!: exchange_error split: prod.split sum.split)

lemma rtd_sample: "sample_ok 1 1 (fst (run_state (rtd_read_sample ops drv d) b))"
  unfolding rtd_read_sample_def Let_def run_state_bind
  by (auto simp: filled_chain simp del: One_nat_def dest!: exchange_error split: prod.split sum.split)

lemma do_sample: "sample_ok 6 2 (fst (run_state (do_read_sample ops drv d) b))"
  unfolding do_read_sample_def Let_def run_state_bind
  by (auto simp: filled_chain simp del: One_nat_def dest!: exchange_error split: prod.split sum.split)

lemma hum_sample: "sample_ok 3 3 (fst (run_state (hum_read_sample ops drv d) b))"
  unfolding hum_read_sample_def Let_def run_state_bind
  by (auto simp: filled_chain eval_nat_numeral intro!: filled_set_output dest!: exchange_error
      split: prod.split sum.split)

lemma ec_sample: "sample_ok 4 4 (fst (run_state (ec_read_sample ops drv d) b))"
  unfolding ec_read_sample_def Let_def run_state_bind
  by (auto simp: filled_chain eval_nat_numeral intro!: filled_set_output dest!: exchange_error
      split: prod.split sum.split)

text \<open>From the shape of a sample to the contract.\<close>

lemma family_adapterI:
  assumes "\<And>d b. sample_ok (length (signals a)) m (fst (run_state (read_sample a d) b))"
    and "m \<le> length (signals a)"
    and "read_calibration_level a = None \<longleftrightarrow> calibration_level_signal a < 0"
    and "0 \<le> calibration_level_signal a \<Longrightarrow>
      m \<le> nat (calibration_level_signal a) \<and> nat (calibration_level_signal a) < length (signals a)"
    and "\<And>x. x \<in> {temperature_compensation_signal a, salinity_compensation_signal a, pressure_compensation_signal a} \<Longrightarrow>
      0 \<le> x \<Longrightarrow> m \<le> nat x \<and> nat x < length (signals a) \<and> x \<noteq> calibration_level_signal a"
    and "read_compensation a = None \<longleftrightarrow> write_compensation a = None"
    and "read_compensation a = None \<longleftrightarrow> temperature_compensation_signal a < 0"
  shows "family_adapter a m"
proof
  fix d b st out b' i
  assume run: "run_state (read_sample a d) b = ((st, out), b')"
  have s: "sample_ok (length (signals a)) m (st, out)" using assms(1) [of d b] run by simp
  then show "length out = length (signals a)" by (simp add: sample_ok_def filled_def split: if_splits)
  show "is_ok st \<Longrightarrow> i < m \<Longrightarrow>
      available (out ! i) = has_value (out ! i) \<and> (available (out ! i) \<longleftrightarrow> unavailable_reason (out ! i) = '''')"
    using s by (auto simp: sample_ok_def filled_def)
  show "m \<le> i \<Longrightarrow> i < length out \<Longrightarrow> out ! i = default_SignalSample"
    using s by (auto simp: sample_ok_def filled_def split: if_splits)
qed (use assms in auto)

fun measured_signals :: "EzoDeviceType \<Rightarrow> nat" where
  "measured_signals Ph = 1"
| "measured_signals Orp = 1"
| "measured_signals Ec = 4"
| "measured_signals Do = 2"
| "measured_signals Rtd = 1"
| "measured_signals Hum = 3"

interpretation ph: family_adapter "ph_kAdapter ops drv" 1 for ops drv
  by (rule family_adapterI) (auto simp: ph_kAdapter_def ph_sample simp del: One_nat_def)

interpretation orp: family_adapter "orp_kAdapter ops drv" 1 for ops drv
  by (rule family_adapterI) (auto simp: orp_kAdapter_def plain_adapter_def orp_sample simp del: One_nat_def)

interpretation rtd: family_adapter "rtd_kAdapter ops drv" 1 for ops drv
  by (rule family_adapterI) (auto simp: rtd_kAdapter_def plain_adapter_def rtd_sample simp del: One_nat_def)

interpretation ec: family_adapter "ec_kAdapter ops drv" 4 for ops drv
  by (rule family_adapterI) (auto simp: ec_kAdapter_def plain_adapter_def ec_sample)

interpretation dissolved_oxygen: family_adapter "do_kAdapter ops drv" 2 for ops drv
  by (rule family_adapterI) (auto simp: do_kAdapter_def do_sample)

interpretation hum: family_adapter "hum_kAdapter ops drv" 3 for ops drv
  by (rule family_adapterI) (auto simp: hum_kAdapter_def plain_adapter_def hum_sample)

text \<open>The dispatch yields an adapter that meets the contract, whatever the family.\<close>

interpretation adapter: family_adapter "adapter_for ops drv t" "measured_signals t" for ops drv t
  by (cases t)
    (simp_all del: One_nat_def add: ph.family_adapter_axioms orp.family_adapter_axioms rtd.family_adapter_axioms
      ec.family_adapter_axioms dissolved_oxygen.family_adapter_axioms hum.family_adapter_axioms)

lemma adapter_signals [simp]:
  "signals (adapter_for ops drv Ph) = ph_kSignals" "signals (adapter_for ops drv Orp) = orp_kSignals"
  "signals (adapter_for ops drv Ec) = ec_kSignals" "signals (adapter_for ops drv Do) = do_kSignals"
  "signals (adapter_for ops drv Rtd) = rtd_kSignals" "signals (adapter_for ops drv Hum) = hum_kSignals"
  by (simp_all add: adapters)

lemma expected_product_adapter [simp]:
  "expected_product (adapter_for ops drv Ph) = EZO_PRODUCT_PH"
  "expected_product (adapter_for ops drv Orp) = EZO_PRODUCT_ORP"
  "expected_product (adapter_for ops drv Ec) = EZO_PRODUCT_EC"
  "expected_product (adapter_for ops drv Do) = EZO_PRODUCT_DO"
  "expected_product (adapter_for ops drv Rtd) = EZO_PRODUCT_RTD"
  "expected_product (adapter_for ops drv Hum) = EZO_PRODUCT_HUM"
  by (simp_all add: adapters)

section \<open>Commands of the compensation writer\<close>

text \<open>Reference for the DO writer: the commands of the given values in order, run until one is refused.\<close>

fun run_until_refused :: "('b, Status) state list \<Rightarrow> ('b, Status) state" where
  "run_until_refused [] = State_Monad.return Status_ok"
| "run_until_refused (m # ms) = do { s \<leftarrow> m; if is_ok s then run_until_refused ms else State_Monad.return s }"

definition do_commands ::
    "('b, 'm) bus_ops_scheme \<Rightarrow> ('b, 'h, 'n) ezo_driver_scheme \<Rightarrow> 'h \<Rightarrow> Compensation \<Rightarrow> ('b, Status) state list" where
  "do_commands ops drv d values =
     (case temperature_c values of None \<Rightarrow> []
      | Some t \<Rightarrow> [finish ops drv d (ezo_do_send_temperature_set drv d t 2) ''send DO temperature compensation'']) @
     (case salinity_us_cm values of None \<Rightarrow> []
      | Some s \<Rightarrow> [finish ops drv d (ezo_do_send_salinity_set drv d s EZO_DO_SALINITY_UNIT_MICROSIEMENS 1)
           ''send DO salinity compensation'']) @
     (case pressure_kpa values of None \<Rightarrow> []
      | Some p \<Rightarrow> [finish ops drv d (ezo_do_send_pressure_set drv d p 2) ''send DO pressure compensation''])"

section \<open>Properties\<close>

text \<open>
  C34: the DO compensation writer sends exactly the commands of the values it is given, in the order
  temperature, salinity, pressure, and the first command the probe refuses stops the rest and is what it
  reports.
\<close>

theorem do_write_compensation_stops_at_refusal:
  "do_write_compensation ops drv d values = run_until_refused (do_commands ops drv d values)"
  by (rule state_ext)
    (auto simp: do_write_compensation_def do_commands_def write_value_def split: option.split prod.split)

text \<open>
  C32: every family's sample is complete and honest. Whatever the bus and the driver answer, reading a sample
  yields one slot per declared signal of the family; when it succeeds, each measured slot carries a value or
  is unavailable with a reason, never silently empty; and the calibration-level and compensation slots come
  out empty, so nothing but the on-demand readers can fill them.
\<close>

theorem read_sample_complete:
  "case run_state (read_sample (adapter_for ops drv t) d) b of ((st, out), b') \<Rightarrow>
     length out = length (signals (adapter_for ops drv t)) \<and>
     (is_ok st \<longrightarrow> (\<forall>i < measured_signals t.
        available (out ! i) = has_value (out ! i) \<and> (available (out ! i) \<longleftrightarrow> unavailable_reason (out ! i) = ''''))) \<and>
     (\<forall>i \<in> {measured_signals t ..< length out}. out ! i = default_SignalSample)"
proof -
  obtain st out b' where run: "run_state (read_sample (adapter_for ops drv t) d) b = ((st, out), b')"
    by (metis surj_pair)
  from adapter.sample_length [OF run] adapter.sample_measured [OF run] adapter.sample_rest [OF run]
  show ?thesis by (auto simp: run)
qed

definition one_ph_driver :: "(nat, unit) ezo_driver" where
  "one_ph_driver = stub_driver
     \<lparr>ezo_ph_send_read := (\<lambda>_. State (\<lambda>n. ((EZO_OK, 900), n + 1))),
      ezo_ph_read_response := (\<lambda>_. State_Monad.return (EZO_OK, Fin 7))\<rparr>"

theorem read_sample_complete_witness:
  "\<exists>out b'. run_state (read_sample (adapter_for stub_ops one_ph_driver Ph) ()) 0 = ((Status_ok, out), b') \<and>
     length out = 3 \<and> svalue (out ! 0) = Fin 7 \<and> has_value (out ! 0) \<and> out ! 1 = default_SignalSample"
proof -
  have run: "run_state (read_sample (adapter_for stub_ops one_ph_driver Ph) ()) 0 =
      ((Status_ok, set_signal_value (initialize_signal_samples ph_kSignals) 0 (Fin 7)), 1)"
    by (simp add: ph_kAdapter_def ph_read_sample_def exchange_def one_ph_driver_def stub_for_def
        wait_for_timing_hint_def bus_delay_def stub_ops_def Let_def)
  from read_sample_complete [of stub_ops one_ph_driver Ph "()" 0]
  show ?thesis unfolding run by (auto simp: nth_set_signal_value)
qed

text \<open>
  The signal surface of the device families is well formed: within a family the signal ids are distinct
  and the default set is not empty and has only measured signals; a family has compensation functions exactly
  when it has a calibration level reader, which are pH and DO; and every expected product is a real product,
  different for different families.
\<close>

theorem adapter_tables_wellformed:
  "distinct (map sd_signal_id (signals (adapter_for ops drv t))) \<and>
   (\<exists>s \<in> set (signals (adapter_for ops drv t)). sd_is_default s) \<and>
   list_all (\<lambda>s. \<not> sd_is_default s) (drop (measured_signals t) (signals (adapter_for ops drv t))) \<and>
   (read_compensation (adapter_for ops drv t) = None \<longleftrightarrow> t \<notin> {Ph, Do}) \<and>
   (read_calibration_level (adapter_for ops drv t) = None \<longleftrightarrow> t \<notin> {Ph, Do}) \<and>
   expected_product (adapter_for ops drv t) \<noteq> EZO_PRODUCT_UNKNOWN \<and>
   (expected_product (adapter_for ops drv t) = expected_product (adapter_for ops drv t') \<longleftrightarrow> t = t')"
  by (cases t; cases t') (simp_all add: signal_tables def_signal_def adapters)

end
