(* ===== verification/Ezo_Capabilities.thy ===== *)
theory Ezo_Capabilities
  imports Ezo_Adapters
begin

text \<open>
  What a device advertises: the capability set and the descriptor, built in the anonymous namespace of
  \<^verbatim>\<open>src/core/runtime_state.cpp\<close>. The records are the protobuf messages of the device-provider protocol, with the
  fields the provider sets; an unset optional field is \<open>None\<close>. Claims are made by the SDK, which is a parameter.
\<close>

section \<open>Messages\<close>

datatype ValueType = VALUE_TYPE_BOOL | VALUE_TYPE_DOUBLE | VALUE_TYPE_STRING | VALUE_TYPE_OTHER nat

datatype Category = CATEGORY_CONFIG | CATEGORY_OTHER nat

record ArgSpec =
  arg_name :: string
  arg_type :: ValueType
  arg_description :: string
  arg_required :: bool
  arg_unit :: string
  min_double :: "double option"
  max_double :: "double option"
  allowed_values :: "string list"

record FunctionPolicy =
  category :: Category
  is_idempotent :: bool
  requires_lease :: bool
  safety_profile :: string
  allowed_modes :: "string list"

record FunctionSpec =
  fn_function_id :: u32
  fn_name :: string
  fn_description :: string
  policy :: FunctionPolicy
  fn_args :: "ArgSpec list"
  fn_results :: "ArgSpec list"

record SignalSpec =
  ss_signal_id :: string
  ss_name :: string
  ss_description :: string
  ss_value_type :: ValueType
  ss_unit :: string
  poll_hint_hz :: double
  ss_stale_after_ms :: u32

record CapabilitySet =
  cap_signals :: "SignalSpec list"
  cap_functions :: "FunctionSpec list"

definition empty_CapabilitySet :: CapabilitySet where
  "empty_CapabilitySet = \<lparr>cap_signals = [], cap_functions = []\<rparr>"

record Device =
  dev_device_id :: string
  provider_name_of :: string
  dev_type_id :: string
  type_version :: string
  label_of :: string
  address_of :: string
  claims :: "string list"
  tags :: "string \<rightharpoonup> string"

definition empty_Device :: Device where
  "empty_Device = \<lparr>dev_device_id = '''', provider_name_of = '''', dev_type_id = '''', type_version = '''', label_of = '''',
     address_of = '''', claims = [], tags = Map.empty\<rparr>"

section \<open>Function numbers\<close>

definition kFunctionFind :: u32 where "kFunctionFind = 1"
definition kFunctionSetLed :: u32 where "kFunctionSetLed = 2"
definition kFunctionSleep :: u32 where "kFunctionSleep = 3"
definition kFunctionCalibrate :: u32 where "kFunctionCalibrate = 4"
definition kFunctionClearCalibration :: u32 where "kFunctionClearCalibration = 5"
definition kFunctionSetCompensation :: u32 where "kFunctionSetCompensation = 6"

lemmas function_numbers = kFunctionFind_def kFunctionSetLed_def kFunctionSleep_def kFunctionCalibrate_def
  kFunctionClearCalibration_def kFunctionSetCompensation_def

section \<open>Builders\<close>

text \<open>
  The C++ helpers append to the message under construction and hand back a pointer to the new element for further
  settings; here a function specification is built as a value and appended when it is complete.
\<close>

definition add_function_spec :: "u32 \<Rightarrow> string \<Rightarrow> string \<Rightarrow> Category \<Rightarrow> bool \<Rightarrow> FunctionSpec" where
  "add_function_spec fid name description cat idempotent =
     \<lparr>fn_function_id = fid, fn_name = name, fn_description = description,
      policy = \<lparr>category = cat, is_idempotent = idempotent, requires_lease = False, safety_profile = ''safe_v1'',
                allowed_modes = []\<rparr>,
      fn_args = [], fn_results = []\<rparr>"

definition add_arg_spec :: "string \<Rightarrow> ValueType \<Rightarrow> string \<Rightarrow> bool \<Rightarrow> ArgSpec" where
  "add_arg_spec name type description required =
     \<lparr>arg_name = name, arg_type = type, arg_description = description, arg_required = required, arg_unit = '''',
      min_double = None, max_double = None, allowed_values = []\<rparr>"

definition with_arg :: "ArgSpec \<Rightarrow> FunctionSpec \<Rightarrow> FunctionSpec" where
  "with_arg a f = f\<lparr>fn_args := fn_args f @ [a]\<rparr>"

definition add_result_spec :: "string \<Rightarrow> ValueType \<Rightarrow> string \<Rightarrow> FunctionSpec \<Rightarrow> FunctionSpec" where
  "add_result_spec name type description f =
     f\<lparr>fn_results := fn_results f @ [add_arg_spec name type description True]\<rparr>"

definition manual_only :: "FunctionSpec \<Rightarrow> FunctionSpec" where
  "manual_only f = f\<lparr>policy := (policy f)\<lparr>allowed_modes := allowed_modes (policy f) @ [''MANUAL'']\<rparr>\<rparr>"

definition add_safe_function_specs :: "CapabilitySet \<Rightarrow> CapabilitySet" where
  "add_safe_function_specs caps =
     (let find_fn = add_result_spec ''accepted'' VALUE_TYPE_BOOL ''true when the device accepts the command''
            (add_function_spec kFunctionFind ''find''
              ''Blink the device LED to help identify physical hardware on the bus.'' CATEGORY_CONFIG False);
          set_led_fn = add_result_spec ''accepted'' VALUE_TYPE_BOOL ''true when the device accepts the command''
            (add_result_spec ''enabled'' VALUE_TYPE_BOOL ''Echoed requested LED state''
              (with_arg (add_arg_spec ''enabled'' VALUE_TYPE_BOOL ''LED state (true=on, false=off)'' True)
                (add_function_spec kFunctionSetLed ''set_led'' ''Enable or disable the device status LED.''
                  CATEGORY_CONFIG True)));
          sleep_fn = add_result_spec ''accepted'' VALUE_TYPE_BOOL
            ''true when the command is sent; the device is not asked whether it accepted it''
            (add_function_spec kFunctionSleep ''sleep'' ''Put the device into low-power sleep mode.''
              CATEGORY_CONFIG True)
      in caps\<lparr>cap_functions := cap_functions caps @ [find_fn, set_led_fn, sleep_fn]\<rparr>)"

definition add_bounded_double_arg :: "string \<Rightarrow> string \<Rightarrow> string \<Rightarrow> double \<Rightarrow> double \<Rightarrow> bool \<Rightarrow> ArgSpec" where
  "add_bounded_double_arg name description unit lo hi required =
     (add_arg_spec name VALUE_TYPE_DOUBLE description required)
       \<lparr>arg_unit := unit, min_double := Some lo, max_double := Some hi\<rparr>"

definition add_calibration_function_specs :: "EzoDeviceType \<Rightarrow> CapabilitySet \<Rightarrow> CapabilitySet" where
  "add_calibration_function_specs type caps =
     (if type \<noteq> Ph \<and> type \<noteq> Do then caps
      else
        let calibrate_fn = manual_only (add_function_spec kFunctionCalibrate ''calibrate''
              (if type = Ph
               then ''Calibrate one point with the probe in a reference solution. Do mid first: it clears the low and high points.''
               else ''Calibrate one point: atmospheric with the probe in air, or zero in a zero-oxygen solution. For two points, do zero first.'')
              CATEGORY_CONFIG False);
            point = add_arg_spec ''point'' VALUE_TYPE_STRING ''Calibration point'' True;
            reference = (add_arg_spec ''reference_ph'' VALUE_TYPE_DOUBLE
              ''pH of the reference solution, as printed on it'' True)
              \<lparr>arg_unit := ''pH'', min_double := Some (Fin 0), max_double := Some (Fin 14)\<rparr>;
            with_args = (if type = Ph
              then with_arg reference (with_arg (point\<lparr>allowed_values := [''mid'', ''low'', ''high'']\<rparr>) calibrate_fn)
              else with_arg (point\<lparr>allowed_values := [''atmospheric'', ''zero'']\<rparr>) calibrate_fn);
            clear_fn = manual_only (add_function_spec kFunctionClearCalibration ''clear_calibration''
              ''Delete all calibration data on the device.'' CATEGORY_CONFIG False)
        in caps\<lparr>cap_functions := cap_functions caps @
             [add_result_spec ''accepted'' VALUE_TYPE_BOOL ''true when the device accepts the calibration'' with_args,
              add_result_spec ''accepted'' VALUE_TYPE_BOOL ''true when the device accepts the command'' clear_fn]\<rparr>)"

definition add_compensation_function_specs :: "EzoDeviceType \<Rightarrow> CapabilitySet \<Rightarrow> CapabilitySet" where
  "add_compensation_function_specs type caps =
     (if type \<noteq> Ph \<and> type \<noteq> Do then caps
      else
        let fn = add_function_spec kFunctionSetCompensation ''set_compensation''
              (if type = Ph
               then ''Set the temperature the probe compensates its readings for. The probe forgets it when it loses power; the provider sends it again when it finds it lost.''
               else ''Set the temperature, and optionally the salinity and pressure, the probe compensates its readings for. The probe forgets them when it loses power; the provider sends them again when it finds them lost.'')
              CATEGORY_CONFIG True;
            fn_t = with_arg (add_bounded_double_arg ''temperature_c'' ''Temperature of the solution'' ''C''
              kMinTemperatureC kMaxTemperatureC True) fn;
            fn_all = (if type = Ph then fn_t
              else with_arg (add_bounded_double_arg ''pressure_kpa'' ''Atmospheric pressure'' ''kPa''
                     kMinPressureKpa kMaxPressureKpa False)
                   (with_arg (add_bounded_double_arg ''salinity_us_cm'' ''Salinity of the solution, as conductivity''
                     ''uS/cm'' kMinSalinityUsCm kMaxSalinityUsCm False) fn_t))
        in caps\<lparr>cap_functions := cap_functions caps @
             [add_result_spec ''accepted'' VALUE_TYPE_BOOL ''true when the device accepts every value sent'' fn_all]\<rparr>)"

section \<open>Capabilities, default signals, descriptor\<close>

definition has_prefix :: "string \<Rightarrow> string \<Rightarrow> bool" where
  "has_prefix value pre \<longleftrightarrow> take (length pre) value = pre"

definition is_mock_mode :: "ProviderConfig \<Rightarrow> bool" where
  "is_mock_mode config \<longleftrightarrow> has_prefix (bus_path config) ''mock://''"

definition signal_definitions_for_type ::
    "('b, 'm) bus_ops_scheme \<Rightarrow> ('b, 'h, 'n) ezo_driver_scheme \<Rightarrow> EzoDeviceType \<Rightarrow> SignalDefinition list" where
  "signal_definitions_for_type ops drv type = signals (adapter_for ops drv type)"

definition signal_spec :: "ProviderConfig \<Rightarrow> SignalDefinition \<Rightarrow> SignalSpec" where
  "signal_spec config d =
     \<lparr>ss_signal_id = sd_signal_id d, ss_name = sd_name d, ss_description = sd_description d,
      ss_value_type = VALUE_TYPE_DOUBLE, ss_unit = sd_unit d,
      poll_hint_hz = ddiv (Fin 1000) (double_of_int (sample_interval_ms config)),
      ss_stale_after_ms = word_of_int (stale_after_ms config)\<rparr>"

definition build_capabilities ::
    "('b, 'm) bus_ops_scheme \<Rightarrow> ('b, 'h, 'n) ezo_driver_scheme \<Rightarrow> ProviderConfig \<Rightarrow> EzoDeviceType \<Rightarrow> CapabilitySet" where
  "build_capabilities ops drv config type =
     add_compensation_function_specs type (add_calibration_function_specs type (add_safe_function_specs
       (empty_CapabilitySet\<lparr>cap_signals := map (signal_spec config) (signal_definitions_for_type ops drv type)\<rparr>)))"

definition default_signal_ids_for_type ::
    "('b, 'm) bus_ops_scheme \<Rightarrow> ('b, 'h, 'n) ezo_driver_scheme \<Rightarrow> EzoDeviceType \<Rightarrow> string list" where
  "default_signal_ids_for_type ops drv type =
     map sd_signal_id (filter sd_is_default (signal_definitions_for_type ops drv type))"

text \<open>The SDK functions the descriptor uses: the spelling of a claim key, and adding a claim to a descriptor.\<close>

record claim_api =
  claim_key :: "string \<Rightarrow> u32 \<Rightarrow> string"
  add_claim :: "Device \<Rightarrow> string \<Rightarrow> Device"

definition build_descriptor ::
    "('b, 'm) bus_ops_scheme \<Rightarrow> ('b, 'h, 'n) ezo_driver_scheme \<Rightarrow> ('c) claim_api_scheme \<Rightarrow> ProviderConfig \<Rightarrow> DeviceSpec \<Rightarrow> Device" where
  "build_descriptor ops drv sdk config spec =
     (let d = empty_Device
            \<lparr>dev_device_id := ds_id spec, provider_name_of := ''anolis-provider-ezo'',
             dev_type_id := type_id (adapter_for ops drv (ds_type spec)), type_version := ''1'',
             label_of := (if ds_label spec = '''' then ds_id spec else ds_label spec),
             address_of := format_i2c_address (ds_address spec)\<rparr>;
          d = add_claim sdk d (claim_key sdk (bus_path config) (word_of_int (ds_address spec)))
      in d\<lparr>tags := (tags d)(''configured_type'' \<mapsto> to_string (ds_type spec))\<rparr>)"

section \<open>Properties\<close>

lemmas capability_builders = add_safe_function_specs_def add_calibration_function_specs_def
  add_compensation_function_specs_def add_function_spec_def add_result_spec_def with_arg_def manual_only_def
  add_arg_spec_def add_bounded_double_arg_def Let_def

lemma capability_signals [simp]:
  "cap_signals (build_capabilities ops drv config type) = map (signal_spec config) (signals (adapter_for ops drv type))"
  by (simp add: build_capabilities_def capability_builders signal_definitions_for_type_def)

lemma stale_after_word: "uint (word_of_int (stale_after_ms config) :: u32) = stale_after_ms config"
  by (simp add: uint_word_of_int stale_after_eq int_max_def kMinStaleAfterMs_def take_bit_int_eq_self)

text \<open>The functions of a family: the shared three, and for pH and DO the calibration and compensation functions.\<close>

lemma capability_functions:
  "map fn_function_id (cap_functions (build_capabilities ops drv config type)) =
     (if type \<in> {Ph, Do} then [1, 2, 3, 4, 5, 6] else [1, 2, 3])"
  "map fn_name (cap_functions (build_capabilities ops drv config type)) =
     [''find'', ''set_led'', ''sleep''] @
     (if type \<in> {Ph, Do} then [''calibrate'', ''clear_calibration'', ''set_compensation''] else [])"
  by (simp_all add: build_capabilities_def capability_builders function_numbers empty_CapabilitySet_def)

text \<open>
  C33: every family advertises a consistent surface. Function ids are contiguous from 1, as the executable profile
  asks, and names are distinct; the two calibration functions are allowed in MANUAL mode only, every other one in
  any mode (its list of modes is empty), and none needs a lease; the signals are the family's table in order; the freshness bound on the wire is the bound
  the provider itself applies; and the default signals are advertised ones.
\<close>

theorem capabilities_wellformed:
  "map (unat \<circ> fn_function_id) (cap_functions (build_capabilities ops drv config type)) =
     [1 ..< Suc (length (cap_functions (build_capabilities ops drv config type)))] \<and>
   distinct (map fn_name (cap_functions (build_capabilities ops drv config type))) \<and>
   list_all (\<lambda>f. allowed_modes (policy f) =
       (if fn_function_id f \<in> {kFunctionCalibrate, kFunctionClearCalibration} then [''MANUAL''] else []) \<and>
       \<not> requires_lease (policy f))
     (cap_functions (build_capabilities ops drv config type)) \<and>
   map ss_signal_id (cap_signals (build_capabilities ops drv config type)) =
     map sd_signal_id (signals (adapter_for ops drv type)) \<and>
   list_all (\<lambda>s. uint (ss_stale_after_ms s) = stale_after_ms config) (cap_signals (build_capabilities ops drv config type)) \<and>
   set (default_signal_ids_for_type ops drv type) \<subseteq>
     set (map ss_signal_id (cap_signals (build_capabilities ops drv config type)))"
proof (intro conjI)
  show "map (unat \<circ> fn_function_id) (cap_functions (build_capabilities ops drv config type)) =
      [1 ..< Suc (length (cap_functions (build_capabilities ops drv config type)))]"
    using capability_functions(1) [of ops drv config type]
    by (cases type) (simp_all add: build_capabilities_def capability_builders function_numbers empty_CapabilitySet_def upt_rec)
  show "distinct (map fn_name (cap_functions (build_capabilities ops drv config type)))"
    by (simp add: capability_functions(2))
  show "list_all (\<lambda>f. allowed_modes (policy f) =
       (if fn_function_id f \<in> {kFunctionCalibrate, kFunctionClearCalibration} then [''MANUAL''] else []) \<and>
       \<not> requires_lease (policy f))
     (cap_functions (build_capabilities ops drv config type))"
    by (cases type) (simp_all add: build_capabilities_def capability_builders function_numbers empty_CapabilitySet_def)
  show "list_all (\<lambda>s. uint (ss_stale_after_ms s) = stale_after_ms config) (cap_signals (build_capabilities ops drv config type))"
    by (simp add: list_all_iff signal_spec_def stale_after_word)
qed (auto simp: signal_spec_def default_signal_ids_for_type_def signal_definitions_for_type_def)

end
