(* ===== verification/Ezo_State.thy ===== *)
theory Ezo_State
  imports Ezo_Capabilities Ezo_Executor "HOL-Library.Sublist"
begin

text \<open>
  The state the runtime keeps per device and per process (\<^verbatim>\<open>src/core/runtime_state.hpp\<close>) and the
  updates of one device that \<^verbatim>\<open>src/core/runtime_state.cpp\<close> makes under its lock: writing the calibration level and
  the compensation into a sample, taking a new sample or a failed read, the cadence warning, recording a call.
  The list of active devices is a keyed store, stated as the locale \<open>keyed_store\<close>.
\<close>

section \<open>Data\<close>

record DeviceSampleCache =
  has_sample :: bool
  last_read_ok :: bool
  sampled_at :: time_point
  last_error :: string
  success_count :: u64
  failure_count :: u64
  sample_sequence :: u64
  sampled_at_steady :: time_point
  consecutive_lagging_gaps :: u32
  stale_gap_warned :: bool
  sample_signals :: "SignalSample list"

definition new_DeviceSampleCache :: DeviceSampleCache where
  "new_DeviceSampleCache =
     \<lparr>has_sample = False, last_read_ok = False, sampled_at = 0, last_error = '''', success_count = 0, failure_count = 0,
      sample_sequence = 0, sampled_at_steady = 0, consecutive_lagging_gaps = 0, stale_gap_warned = False,
      sample_signals = []\<rparr>"

record ActiveDevice =
  ad_spec :: DeviceSpec
  descriptor :: Device
  ad_capabilities :: CapabilitySet
  default_signal_ids :: "string list"
  startup_product_code :: string
  startup_firmware_version :: string
  ad_sample :: DeviceSampleCache
  calibration_level :: "double option"
  calibration_level_error :: string
  compensation_set :: Compensation
  compensation_read :: CompensationReading
  compensation_error :: string
  compensation_reapplied_count :: u64
  has_last_call :: bool
  last_call_ok :: bool
  last_call_function :: string
  last_call_error :: string
  last_call_at :: time_point
  call_success_count :: u64
  call_failure_count :: u64

record ExcludedDevice =
  ed_spec :: DeviceSpec
  ed_reason :: string

text \<open>\<open>'r\<close> is the SDK's host requirement.\<close>

record 'r RuntimeState =
  rs_config :: ProviderConfig
  active_devices :: "ActiveDevice list"
  excluded_devices :: "ExcludedDevice list"
  ready :: bool
  startup_message :: string
  started_at :: time_point
  ready_at :: time_point
  i2c_executor_running :: bool
  i2c_metrics :: BusExecutorMetrics
  i2c_status_message :: string
  host_requirements :: "'r list"

definition new_RuntimeState :: "'r RuntimeState" where
  "new_RuntimeState =
     \<lparr>rs_config = default_ProviderConfig, active_devices = [], excluded_devices = [], ready = False,
      startup_message = '''', started_at = 0, ready_at = 0, i2c_executor_running = False, i2c_metrics = zero_metrics,
      i2c_status_message = ''not initialized'', host_requirements = []\<rparr>"

definition kCompensationCheckEvery :: u32 where
  "kCompensationCheckEvery = 24"

definition kCadenceLagStreak :: u32 where
  "kCadenceLagStreak = 3"

section \<open>Looking a device up by its id\<close>

definition has_id :: "string \<Rightarrow> ActiveDevice \<Rightarrow> bool" where
  "has_id i d \<longleftrightarrow> ds_id (ad_spec d) = i"

definition find_active_device_unlocked :: "ActiveDevice list \<Rightarrow> string \<Rightarrow> ActiveDevice option" where
  "find_active_device_unlocked ds i = find (has_id i) ds"

text \<open>An assignment through the iterator of the lookup; nothing happens when it is the end iterator.\<close>

definition update_device :: "string \<Rightarrow> (ActiveDevice \<Rightarrow> ActiveDevice) \<Rightarrow> ActiveDevice list \<Rightarrow> ActiveDevice list" where
  "update_device i f ds = update_first (has_id i) f ds"

text \<open>
  The laws the runtime relies on. \<open>keeps\<close> says that an update does not change the identity of a record.
\<close>

locale keyed_store =
  fixes look :: "'s \<Rightarrow> 'k \<Rightarrow> 'v option" and upd :: "'k \<Rightarrow> ('v \<Rightarrow> 'v) \<Rightarrow> 's \<Rightarrow> 's"
    and keeps :: "('v \<Rightarrow> 'v) \<Rightarrow> bool"
  assumes look_upd: "keeps f \<Longrightarrow> look (upd k f s) k = map_option f (look s k)"
    and look_upd_other: "keeps f \<Longrightarrow> k' \<noteq> k \<Longrightarrow> look (upd k f s) k' = look s k'"
    and upd_missing: "look s k = None \<Longrightarrow> upd k f s = s"
    and upd_upd: "keeps f \<Longrightarrow> upd k g (upd k f s) = upd k (g \<circ> f) s"
    and keeps_comp: "keeps f \<Longrightarrow> keeps g \<Longrightarrow> keeps (g \<circ> f)"
begin

lemma look_upd_any: "keeps f \<Longrightarrow> look (upd k f s) k' = (if k' = k then map_option f (look s k) else look s k')"
  by (simp add: look_upd look_upd_other)

lemma look_upd_None: "keeps f \<Longrightarrow> look (upd k f s) k' = None \<longleftrightarrow> look s k' = None"
  by (cases "k' = k") (simp_all add: look_upd look_upd_other)

lemma upd_any: "keeps f \<Longrightarrow> look s k = Some v \<Longrightarrow> look (upd k f s) k = Some (f v)"
  by (simp add: look_upd)

end

definition keeps_spec :: "(ActiveDevice \<Rightarrow> ActiveDevice) \<Rightarrow> bool" where
  "keeps_spec f \<longleftrightarrow> (\<forall>d. ad_spec (f d) = ad_spec d)"

interpretation device_store: keyed_store find_active_device_unlocked update_device keeps_spec
proof unfold_locales
  fix f g :: "ActiveDevice \<Rightarrow> ActiveDevice" and k k' :: string and s :: "ActiveDevice list"
  show "find_active_device_unlocked (update_device k f s) k = map_option f (find_active_device_unlocked s k)"
    if "keeps_spec f"
    using that unfolding find_active_device_unlocked_def update_device_def keeps_spec_def
    by (intro find_update_first_keep) (simp add: has_id_def)
  show "find_active_device_unlocked (update_device k f s) k' = find_active_device_unlocked s k'"
    if "keeps_spec f" and "k' \<noteq> k"
    using that unfolding find_active_device_unlocked_def update_device_def keeps_spec_def
    by (intro find_update_first_other) (auto simp: has_id_def)
  show "update_device k f s = s" if "find_active_device_unlocked s k = None"
    using that unfolding find_active_device_unlocked_def update_device_def by (rule update_first_none)
  show "update_device k g (update_device k f s) = update_device k (g \<circ> f) s" if "keeps_spec f"
    using that unfolding update_device_def keeps_spec_def
    by (intro update_first_update_first) (simp add: has_id_def)
  show "keeps_spec (g \<circ> f)" if "keeps_spec f" and "keeps_spec g"
    using that by (simp add: keeps_spec_def)
qed

section \<open>Values read on demand\<close>

definition apply_calibration_level ::
    "('b, 'm) bus_ops_scheme \<Rightarrow> ('b, 'h, 'n) ezo_driver_scheme \<Rightarrow> ActiveDevice \<Rightarrow> ActiveDevice" where
  "apply_calibration_level ops drv device =
     (let adapter = adapter_for ops drv (ds_type (ad_spec device)); sigs = sample_signals (ad_sample device) in
      if calibration_level_signal adapter < 0 then device
      else let index = nat (calibration_level_signal adapter) in
        if length sigs \<le> index then device
        else
          let slot = (case calibration_level device of
                Some level \<Rightarrow> (sigs ! index)\<lparr>available := True, has_value := True, svalue := level, unavailable_reason := ''''\<rparr>
              | None \<Rightarrow> (sigs ! index)\<lparr>available := False, has_value := False,
                  unavailable_reason := (if calibration_level_error device = '''' then ''calibration level not read yet''
                                         else calibration_level_error device)\<rparr>)
          in device\<lparr>ad_sample := (ad_sample device)\<lparr>sample_signals := sigs[index := slot]\<rparr>\<rparr>)"

definition fill_compensation :: "int \<Rightarrow> double option \<Rightarrow> string \<Rightarrow> SignalSample list \<Rightarrow> SignalSample list" where
  "fill_compensation signal v missing sigs =
     (if signal < 0 \<or> length sigs \<le> nat signal then sigs
      else case v of
        Some x \<Rightarrow> set_signal_value sigs (nat signal) x
      | None \<Rightarrow> set_signal_unavailable sigs (nat signal) missing)"

definition apply_compensation ::
    "('b, 'm) bus_ops_scheme \<Rightarrow> ('b, 'h, 'n) ezo_driver_scheme \<Rightarrow> ActiveDevice \<Rightarrow> ActiveDevice" where
  "apply_compensation ops drv device =
     (let adapter = adapter_for ops drv (ds_type (ad_spec device));
          unknown = (if compensation_error device = '''' then ''compensation not read yet'' else compensation_error device);
          reading = compensation_read device;
          sigs = sample_signals (ad_sample device);
          sigs = fill_compensation (temperature_compensation_signal adapter) (temperature_c (cr_values reading)) unknown sigs;
          sigs = fill_compensation (salinity_compensation_signal adapter) (salinity_us_cm (cr_values reading))
            (if salinity_unavailable reading = '''' then unknown else salinity_unavailable reading) sigs;
          sigs = fill_compensation (pressure_compensation_signal adapter) (pressure_kpa (cr_values reading)) unknown sigs
      in device\<lparr>ad_sample := (ad_sample device)\<lparr>sample_signals := sigs\<rparr>\<rparr>)"

definition kTemperatureTolerance :: double where "kTemperatureTolerance = round_double (6 / 100)"
definition kSalinityTolerance :: double where "kSalinityTolerance = Fin 1"
definition kPressureTolerance :: double where "kPressureTolerance = round_double (6 / 100)"

definition holds :: "double option \<Rightarrow> double option \<Rightarrow> double \<Rightarrow> bool" where
  "holds set_v read_v tolerance \<longleftrightarrow>
     (case set_v of None \<Rightarrow> True
      | Some s \<Rightarrow> (case read_v of None \<Rightarrow> False | Some r \<Rightarrow> dabs (dsub s r) \<le> tolerance))"

definition holds_all :: "Compensation \<Rightarrow> Compensation \<Rightarrow> bool" where
  "holds_all set_v read_v \<longleftrightarrow>
     holds (temperature_c set_v) (temperature_c read_v) kTemperatureTolerance \<and>
     holds (salinity_us_cm set_v) (salinity_us_cm read_v) kSalinityTolerance \<and>
     holds (pressure_kpa set_v) (pressure_kpa read_v) kPressureTolerance"

section \<open>A new sample, or a failed read\<close>

text \<open>
  The check of the gap since the previous sample: the counter and the latch it leaves, and the warning to log, if
  any. It is made only when the previous read succeeded and nothing has been warned about yet.
\<close>

definition cadence_warning_text :: "string \<Rightarrow> u32 \<Rightarrow> int \<Rightarrow> int \<Rightarrow> int \<Rightarrow> string" where
  "cadence_warning_text i gaps gap_ms bound_ms interval =
     ''device '' @ quoted i @ '' samples refreshed '' @ show_nat (unat gaps) @ '' times running at ~'' @ show_int gap_ms @
     '' ms, but are declared stale after '' @ show_int bound_ms @ '' ms; raise hardware.sample_interval_ms (currently '' @
     show_int interval @ '' ms) to match the consumer'' @ [CHR 0x27] @ ''s poll interval''"

definition cadence_check ::
    "ProviderConfig \<Rightarrow> string \<Rightarrow> time_point \<Rightarrow> DeviceSampleCache \<Rightarrow> DeviceSampleCache \<times> string option" where
  "cadence_check config i now_steady s =
     (if has_sample s \<and> last_read_ok s \<and> \<not> stale_gap_warned s then
        let gap_ms = duration_ms (now_steady - sampled_at_steady s); bound_ms = stale_after_ms config in
        if gap_ms > bound_ms then
          let gaps = consecutive_lagging_gaps s + 1; s' = s\<lparr>consecutive_lagging_gaps := gaps\<rparr> in
          if gaps \<ge> kCadenceLagStreak
          then (s'\<lparr>stale_gap_warned := True\<rparr>,
                Some (cadence_warning_text i gaps gap_ms bound_ms (cfg_sample_interval_ms config)))
          else (s', None)
        else (s\<lparr>consecutive_lagging_gaps := 0\<rparr>, None)
      else (s, None))"

definition take_sample ::
    "('b, 'm) bus_ops_scheme \<Rightarrow> ('b, 'h, 'n) ezo_driver_scheme \<Rightarrow> ProviderConfig \<Rightarrow> string \<Rightarrow> time_point \<Rightarrow> time_point
      \<Rightarrow> SignalSample list \<Rightarrow> ActiveDevice \<Rightarrow> ActiveDevice" where
  "take_sample ops drv config i now now_steady new_signals d =
     (let s = fst (cadence_check config i now_steady (ad_sample d));
          d = d\<lparr>ad_sample := s\<lparr>sample_signals := new_signals\<rparr>\<rparr>;
          d = apply_compensation ops drv (apply_calibration_level ops drv d);
          s = ad_sample d
      in d\<lparr>ad_sample := s\<lparr>sampled_at := now, sampled_at_steady := now_steady, has_sample := True, last_read_ok := True,
             last_error := '''', success_count := success_count s + 1, sample_sequence := sample_sequence s + 1\<rparr>\<rparr>)"

definition compensation_due :: "ActiveDevice \<Rightarrow> bool" where
  "compensation_due d \<longleftrightarrow> success_count (ad_sample d) mod ucast kCompensationCheckEvery = 0"

definition fail_sample :: "Status \<Rightarrow> ActiveDevice \<Rightarrow> ActiveDevice" where
  "fail_sample status d =
     (let s = ad_sample d in
      d\<lparr>ad_sample := s\<lparr>last_read_ok := False, last_error := message status, failure_count := failure_count s + 1,
                       consecutive_lagging_gaps := 0\<rparr>\<rparr>)"

section \<open>The other updates of a device\<close>

definition store_calibration_level ::
    "('b, 'm) bus_ops_scheme \<Rightarrow> ('b, 'h, 'n) ezo_driver_scheme \<Rightarrow> Status \<Rightarrow> double \<Rightarrow> ActiveDevice \<Rightarrow> ActiveDevice" where
  "store_calibration_level ops drv status level d =
     apply_calibration_level ops drv
       (if is_ok status then d\<lparr>calibration_level := Some level, calibration_level_error := ''''\<rparr>
        else d\<lparr>calibration_level := None,
               calibration_level_error := ''calibration level unknown: '' @ message status\<rparr>)"

definition store_compensation ::
    "('b, 'm) bus_ops_scheme \<Rightarrow> ('b, 'h, 'n) ezo_driver_scheme \<Rightarrow> Status \<Rightarrow> CompensationReading \<Rightarrow> bool \<Rightarrow> ActiveDevice \<Rightarrow> ActiveDevice" where
  "store_compensation ops drv status reading reapplied d =
     (let d = (if is_ok status then d\<lparr>compensation_read := reading, compensation_error := ''''\<rparr>
               else d\<lparr>compensation_read := empty_CompensationReading,
                      compensation_error := ''compensation unknown: '' @ message status\<rparr>);
          d = (if reapplied then d\<lparr>compensation_reapplied_count := compensation_reapplied_count d + 1\<rparr> else d)
      in apply_compensation ops drv d)"

definition or_else :: "'a option \<Rightarrow> 'a option \<Rightarrow> 'a option" where
  "or_else a b = (case a of None \<Rightarrow> b | Some _ \<Rightarrow> a)"

definition merge_compensation :: "Compensation \<Rightarrow> Compensation \<Rightarrow> Compensation" where
  "merge_compensation new old =
     \<lparr>temperature_c = or_else (temperature_c new) (temperature_c old),
      salinity_us_cm = or_else (salinity_us_cm new) (salinity_us_cm old),
      pressure_kpa = or_else (pressure_kpa new) (pressure_kpa old)\<rparr>"

definition note_call :: "string \<Rightarrow> bool \<Rightarrow> string \<Rightarrow> time_point \<Rightarrow> ActiveDevice \<Rightarrow> ActiveDevice" where
  "note_call function_name ok msg now d =
     (let d = d\<lparr>has_last_call := True, last_call_ok := ok, last_call_function := function_name, last_call_at := now\<rparr> in
      if ok then d\<lparr>last_call_error := '''', call_success_count := call_success_count d + 1\<rparr>
      else d\<lparr>last_call_error := msg, call_failure_count := call_failure_count d + 1\<rparr>)"

section \<open>What every update keeps\<close>

text \<open>The part of a device fixed at startup.\<close>

definition static_part :: "ActiveDevice \<Rightarrow> DeviceSpec \<times> Device \<times> CapabilitySet \<times> string list \<times> string \<times> string" where
  "static_part d = (ad_spec d, descriptor d, ad_capabilities d, default_signal_ids d, startup_product_code d,
     startup_firmware_version d)"

lemma static_part_update [simp]:
  "static_part (d\<lparr>ad_sample := s\<rparr>) = static_part d"
  "static_part (d\<lparr>calibration_level := l\<rparr>) = static_part d"
  "static_part (d\<lparr>calibration_level_error := m\<rparr>) = static_part d"
  "static_part (d\<lparr>compensation_set := c\<rparr>) = static_part d"
  "static_part (d\<lparr>compensation_read := r\<rparr>) = static_part d"
  "static_part (d\<lparr>compensation_error := m\<rparr>) = static_part d"
  "static_part (d\<lparr>compensation_reapplied_count := n\<rparr>) = static_part d"
  by (simp_all add: static_part_def)

lemma static_apply [simp]:
  "static_part (apply_calibration_level ops drv d) = static_part d"
  "static_part (apply_compensation ops drv d) = static_part d"
  by (simp_all add: apply_calibration_level_def apply_compensation_def Let_def)

lemma static_updates [simp]:
  "static_part (take_sample ops drv config i now now_steady sigs d) = static_part d"
  "static_part (fail_sample st d) = static_part d"
  "static_part (store_calibration_level ops drv st l d) = static_part d"
  "static_part (store_compensation ops drv st r re d) = static_part d"
  "static_part (note_call fn ok msg now d) = static_part d"
  by (simp_all add: take_sample_def fail_sample_def store_calibration_level_def store_compensation_def note_call_def
      Let_def) (simp add: static_part_def)

lemma ad_spec_static: "static_part d = static_part d' \<Longrightarrow> ad_spec d = ad_spec d'"
  by (simp add: static_part_def)

lemma keeps_specI: "(\<And>d. static_part (f d) = static_part d) \<Longrightarrow> keeps_spec f"
  by (simp add: keeps_spec_def static_part_def)

section \<open>Samples agree with what was read on demand\<close>

fun slot_shows :: "double option \<Rightarrow> SignalSample \<Rightarrow> bool" where
  "slot_shows (Some x) s = (available s \<and> has_value s \<and> svalue s = x \<and> unavailable_reason s = '''')"
| "slot_shows None s = (\<not> available s \<and> \<not> has_value s \<and> unavailable_reason s \<noteq> '''')"

definition shows_at :: "SignalSample list \<Rightarrow> int \<Rightarrow> double option \<Rightarrow> bool" where
  "shows_at sigs k v \<longleftrightarrow> (0 \<le> k \<longrightarrow> nat k < length sigs \<and> slot_shows v (sigs ! nat k))"

definition level_shown :: "('b, 'm) bus_ops_scheme \<Rightarrow> ('b, 'h, 'n) ezo_driver_scheme \<Rightarrow> ActiveDevice \<Rightarrow> bool" where
  "level_shown ops drv d \<longleftrightarrow>
     shows_at (sample_signals (ad_sample d)) (calibration_level_signal (adapter_for ops drv (ds_type (ad_spec d)))) (calibration_level d)"

definition compensation_shown :: "('b, 'm) bus_ops_scheme \<Rightarrow> ('b, 'h, 'n) ezo_driver_scheme \<Rightarrow> ActiveDevice \<Rightarrow> bool" where
  "compensation_shown ops drv d \<longleftrightarrow>
     (let a = adapter_for ops drv (ds_type (ad_spec d)); sigs = sample_signals (ad_sample d); v = cr_values (compensation_read d) in
      shows_at sigs (temperature_compensation_signal a) (temperature_c v) \<and>
      shows_at sigs (salinity_compensation_signal a) (salinity_us_cm v) \<and>
      shows_at sigs (pressure_compensation_signal a) (pressure_kpa v))"

definition signal_count :: "('b, 'm) bus_ops_scheme \<Rightarrow> ('b, 'h, 'n) ezo_driver_scheme \<Rightarrow> ActiveDevice \<Rightarrow> nat" where
  "signal_count ops drv d = length (signals (adapter_for ops drv (ds_type (ad_spec d))))"

definition device_ok :: "('b, 'm) bus_ops_scheme \<Rightarrow> ('b, 'h, 'n) ezo_driver_scheme \<Rightarrow> ActiveDevice \<Rightarrow> bool" where
  "device_ok ops drv d \<longleftrightarrow>
     length (sample_signals (ad_sample d)) = signal_count ops drv d \<and>
     (has_sample (ad_sample d) \<longrightarrow> level_shown ops drv d \<and> compensation_shown ops drv d)"

lemma length_fill [simp]: "length (fill_compensation k v m sigs) = length sigs"
  by (simp add: fill_compensation_def set_signal_value_def set_signal_unavailable_def split: option.split)

lemma nth_fill_other: "j < length sigs \<Longrightarrow> k < 0 \<or> nat k \<noteq> j \<Longrightarrow> fill_compensation k v m sigs ! j = sigs ! j"
  by (auto simp: fill_compensation_def set_signal_value_def set_signal_unavailable_def split: option.split)

lemma nth_fill_same: "0 \<le> k \<Longrightarrow> nat k < length sigs \<Longrightarrow> m \<noteq> '''' \<Longrightarrow> slot_shows v (fill_compensation k v m sigs ! nat k)"
  by (cases v) (auto simp: fill_compensation_def set_signal_value_def set_signal_unavailable_def)

text \<open>The slots of the two families that have them; the other families have none.\<close>

lemma on_demand_slots:
  "calibration_level_signal (adapter_for ops drv t) = (case t of Ph \<Rightarrow> 1 | Do \<Rightarrow> 2 | _ \<Rightarrow> -1)"
  "temperature_compensation_signal (adapter_for ops drv t) = (case t of Ph \<Rightarrow> 2 | Do \<Rightarrow> 3 | _ \<Rightarrow> -1)"
  "salinity_compensation_signal (adapter_for ops drv t) = (case t of Do \<Rightarrow> 4 | _ \<Rightarrow> -1)"
  "pressure_compensation_signal (adapter_for ops drv t) = (case t of Do \<Rightarrow> 5 | _ \<Rightarrow> -1)"
  "length (signals (adapter_for ops drv t)) = (case t of Ph \<Rightarrow> 3 | Do \<Rightarrow> 6 | Ec \<Rightarrow> 4 | Hum \<Rightarrow> 3 | _ \<Rightarrow> 1)"
  by (cases t; simp add: adapters signal_tables)+

declare adapter_for.simps [simp del]

definition unknown_text :: "ActiveDevice \<Rightarrow> string" where
  "unknown_text d = (if compensation_error d = '''' then ''compensation not read yet'' else compensation_error d)"

definition salinity_text :: "ActiveDevice \<Rightarrow> string" where
  "salinity_text d = (if salinity_unavailable (compensation_read d) = '''' then unknown_text d
     else salinity_unavailable (compensation_read d))"

lemma missing_texts [simp]: "unknown_text d \<noteq> ''''" "salinity_text d \<noteq> ''''"
  by (simp_all add: unknown_text_def salinity_text_def)

lemma sample_fields_apply [simp]:
  "sample_signals (ad_sample (apply_compensation ops drv d)) =
     (let a = adapter_for ops drv (ds_type (ad_spec d)); v = cr_values (compensation_read d) in
      fill_compensation (pressure_compensation_signal a) (pressure_kpa v) (unknown_text d)
        (fill_compensation (salinity_compensation_signal a) (salinity_us_cm v) (salinity_text d)
          (fill_compensation (temperature_compensation_signal a) (temperature_c v) (unknown_text d)
            (sample_signals (ad_sample d)))))"
  "length (sample_signals (ad_sample (apply_calibration_level ops drv d))) = length (sample_signals (ad_sample d))"
  by (simp_all add: apply_calibration_level_def apply_compensation_def unknown_text_def salinity_text_def Let_def)

lemma apply_keeps [simp]:
  "ad_spec (apply_calibration_level ops drv d) = ad_spec d"
  "ad_spec (apply_compensation ops drv d) = ad_spec d"
  "calibration_level (apply_calibration_level ops drv d) = calibration_level d"
  "calibration_level (apply_compensation ops drv d) = calibration_level d"
  "compensation_read (apply_calibration_level ops drv d) = compensation_read d"
  "compensation_read (apply_compensation ops drv d) = compensation_read d"
  "compensation_set (apply_calibration_level ops drv d) = compensation_set d"
  "compensation_set (apply_compensation ops drv d) = compensation_set d"
  "calibration_level_error (apply_calibration_level ops drv d) = calibration_level_error d"
  "calibration_level_error (apply_compensation ops drv d) = calibration_level_error d"
  "compensation_error (apply_calibration_level ops drv d) = compensation_error d"
  "compensation_error (apply_compensation ops drv d) = compensation_error d"
  "compensation_reapplied_count (apply_compensation ops drv d) = compensation_reapplied_count d"
  by (simp_all add: apply_calibration_level_def apply_compensation_def Let_def)

lemma has_sample_apply [simp]:
  "has_sample (ad_sample (apply_compensation ops drv d)) = has_sample (ad_sample d)"
  "has_sample (ad_sample (apply_calibration_level ops drv d)) = has_sample (ad_sample d)"
  by (simp_all add: apply_calibration_level_def apply_compensation_def Let_def)

lemma apply_level_shown:
  assumes "length (sample_signals (ad_sample d)) = signal_count ops drv d"
  shows "level_shown ops drv (apply_calibration_level ops drv d)"
  using assms
  by (cases "ds_type (ad_spec d)"; cases "calibration_level d")
    (simp_all add: level_shown_def shows_at_def signal_count_def on_demand_slots apply_calibration_level_def Let_def)

lemma apply_level_keeps_compensation:
  "compensation_shown ops drv d \<Longrightarrow> compensation_shown ops drv (apply_calibration_level ops drv d)"
  by (cases "ds_type (ad_spec d)")
    (simp_all add: compensation_shown_def shows_at_def on_demand_slots apply_calibration_level_def Let_def)

lemma apply_compensation_keeps_level:
  "level_shown ops drv d \<Longrightarrow> level_shown ops drv (apply_compensation ops drv d)"
  by (cases "ds_type (ad_spec d)") (simp_all add: level_shown_def shows_at_def on_demand_slots nth_fill_other Let_def)

lemma apply_compensation_shown:
  assumes "length (sample_signals (ad_sample d)) = signal_count ops drv d"
  shows "compensation_shown ops drv (apply_compensation ops drv d)"
proof (cases "ds_type (ad_spec d)")
  case Ph
  then show ?thesis
    using assms nth_fill_same [of 2 "sample_signals (ad_sample d)"]
    by (simp add: compensation_shown_def shows_at_def signal_count_def on_demand_slots nth_fill_other Let_def)
next
  case Do
  then show ?thesis
    using assms nth_fill_same [of 3] nth_fill_same [of 4] nth_fill_same [of 5]
    by (simp add: compensation_shown_def shows_at_def signal_count_def on_demand_slots nth_fill_other Let_def)
qed (simp_all add: compensation_shown_def shows_at_def on_demand_slots)

lemma device_ok_cong:
  assumes "device_ok ops drv d" and "ad_spec d' = ad_spec d"
    and "sample_signals (ad_sample d') = sample_signals (ad_sample d)"
    and "has_sample (ad_sample d') = has_sample (ad_sample d)" and "calibration_level d' = calibration_level d"
    and "compensation_read d' = compensation_read d"
  shows "device_ok ops drv d'"
  using assms by (simp add: device_ok_def level_shown_def compensation_shown_def signal_count_def)

lemma device_ok_updates:
  assumes "device_ok ops drv d"
  shows "length sigs = signal_count ops drv d \<Longrightarrow> device_ok ops drv (take_sample ops drv config i now now_steady sigs d)"
    and "device_ok ops drv (fail_sample st d)"
    and "device_ok ops drv (store_calibration_level ops drv st level d)"
    and "device_ok ops drv (store_compensation ops drv st reading reapplied d)"
    and "device_ok ops drv (d\<lparr>compensation_set := c\<rparr>)"
    and "device_ok ops drv (note_call fn ok msg now d)"
proof -
  assume len: "length sigs = signal_count ops drv d"
  define d1 where "d1 = d\<lparr>ad_sample := (fst (cadence_check config i now_steady (ad_sample d)))\<lparr>sample_signals := sigs\<rparr>\<rparr>"
  define d2 where "d2 = apply_compensation ops drv (apply_calibration_level ops drv d1)"
  have "length (sample_signals (ad_sample d1)) = signal_count ops drv d1"
    using len by (simp add: d1_def signal_count_def)
  then have "level_shown ops drv d2 \<and> compensation_shown ops drv d2 \<and>
      length (sample_signals (ad_sample d2)) = signal_count ops drv d2"
    unfolding d2_def
    by (auto simp: signal_count_def Let_def intro!: apply_compensation_keeps_level apply_level_shown apply_compensation_shown)
  then have "device_ok ops drv (d2\<lparr>ad_sample := (ad_sample d2)\<lparr>has_sample := True\<rparr>\<rparr>)"
    by (simp add: device_ok_def level_shown_def compensation_shown_def signal_count_def)
  then show "device_ok ops drv (take_sample ops drv config i now now_steady sigs d)"
    unfolding take_sample_def Let_def d1_def [symmetric] d2_def [symmetric]
    by (rule device_ok_cong) simp_all
next
  show "device_ok ops drv (fail_sample st d)" "device_ok ops drv (d\<lparr>compensation_set := c\<rparr>)"
    "device_ok ops drv (note_call fn ok msg now d)"
    using assms by (auto intro: device_ok_cong simp: fail_sample_def note_call_def Let_def)
next
  have *: "device_ok ops drv (apply_calibration_level ops drv d')"
    if "ad_spec d' = ad_spec d" "ad_sample d' = ad_sample d" "compensation_read d' = compensation_read d" for d'
  proof -
    have len: "length (sample_signals (ad_sample d')) = signal_count ops drv d'"
      using assms that by (simp add: device_ok_def signal_count_def)
    have "has_sample (ad_sample d') \<longrightarrow> compensation_shown ops drv d'"
      using assms that by (simp add: device_ok_def compensation_shown_def)
    with len apply_level_shown [OF len] show ?thesis
      by (auto simp: device_ok_def signal_count_def apply_level_keeps_compensation)
  qed
  show "device_ok ops drv (store_calibration_level ops drv st level d)"
    unfolding store_calibration_level_def by (rule *) simp_all
next
  have *: "device_ok ops drv (apply_compensation ops drv d')"
    if "ad_spec d' = ad_spec d" "ad_sample d' = ad_sample d" "calibration_level d' = calibration_level d" for d'
  proof -
    have len: "length (sample_signals (ad_sample d')) = signal_count ops drv d'"
      using assms that by (simp add: device_ok_def signal_count_def)
    have "has_sample (ad_sample d') \<longrightarrow> level_shown ops drv d'"
      using assms that by (simp add: device_ok_def level_shown_def)
    with len apply_compensation_shown [OF len] show ?thesis
      by (auto simp: device_ok_def signal_count_def Let_def apply_compensation_keeps_level)
  qed
  show "device_ok ops drv (store_compensation ops drv st reading reapplied d)"
    unfolding store_compensation_def Let_def by (rule *) simp_all
qed

section \<open>The cadence warning over a history of reads\<close>

lemma cache_fields_apply [simp]:
  "(ad_sample (apply_compensation ops drv d))\<lparr>sample_signals := []\<rparr> = (ad_sample d)\<lparr>sample_signals := []\<rparr>"
  "(ad_sample (apply_calibration_level ops drv d))\<lparr>sample_signals := []\<rparr> = (ad_sample d)\<lparr>sample_signals := []\<rparr>"
  by (simp_all add: apply_calibration_level_def apply_compensation_def Let_def)

lemma cadence_keeps [simp]:
  "success_count (fst (cadence_check config i t s)) = success_count s"
  "failure_count (fst (cadence_check config i t s)) = failure_count s"
  "sample_sequence (fst (cadence_check config i t s)) = sample_sequence s"
  by (simp_all add: cadence_check_def Let_def)

lemma take_sample_cache:
  "(ad_sample (take_sample ops drv config i now t sigs d))\<lparr>sample_signals := []\<rparr> =
     (fst (cadence_check config i t (ad_sample d)))
       \<lparr>sample_signals := [], sampled_at := now, sampled_at_steady := t, has_sample := True, last_read_ok := True,
        last_error := '''', success_count := success_count (ad_sample d) + 1,
        sample_sequence := sample_sequence (ad_sample d) + 1\<rparr>"
proof -
  define c where "c = fst (cadence_check config i t (ad_sample d))"
  define e where "e = ad_sample (apply_compensation ops drv (apply_calibration_level ops drv
    (d\<lparr>ad_sample := c\<lparr>sample_signals := sigs\<rparr>\<rparr>)))"
  have e: "e\<lparr>sample_signals := []\<rparr> = c\<lparr>sample_signals := []\<rparr>" by (simp add: e_def)
  from arg_cong [OF e, of success_count] arg_cong [OF e, of sample_sequence]
  have counts: "success_count e = success_count (ad_sample d)" "sample_sequence e = sample_sequence (ad_sample d)"
    by (simp_all add: c_def)
  have "(ad_sample (take_sample ops drv config i now t sigs d))\<lparr>sample_signals := []\<rparr> =
      (e\<lparr>sample_signals := []\<rparr>)\<lparr>sampled_at := now, sampled_at_steady := t, has_sample := True, last_read_ok := True,
        last_error := '''', success_count := success_count e + 1, sample_sequence := sample_sequence e + 1\<rparr>"
    unfolding take_sample_def Let_def c_def [symmetric] e_def [symmetric] by (cases e) simp
  then show ?thesis by (simp only: e counts c_def)
qed

lemma take_sample_fields [simp]:
  "stale_gap_warned (ad_sample (take_sample ops drv config i now t sigs d)) =
     stale_gap_warned (fst (cadence_check config i t (ad_sample d)))"
  "consecutive_lagging_gaps (ad_sample (take_sample ops drv config i now t sigs d)) =
     consecutive_lagging_gaps (fst (cadence_check config i t (ad_sample d)))"
  "sampled_at (ad_sample (take_sample ops drv config i now t sigs d)) = now"
  "sampled_at_steady (ad_sample (take_sample ops drv config i now t sigs d)) = t"
  "has_sample (ad_sample (take_sample ops drv config i now t sigs d))"
  "last_read_ok (ad_sample (take_sample ops drv config i now t sigs d))"
  "last_error (ad_sample (take_sample ops drv config i now t sigs d)) = ''''"
  "success_count (ad_sample (take_sample ops drv config i now t sigs d)) = success_count (ad_sample d) + 1"
  "failure_count (ad_sample (take_sample ops drv config i now t sigs d)) = failure_count (ad_sample d)"
  using arg_cong [OF take_sample_cache [of ops drv config i now t sigs d], of stale_gap_warned]
    arg_cong [OF take_sample_cache [of ops drv config i now t sigs d], of consecutive_lagging_gaps]
    arg_cong [OF take_sample_cache [of ops drv config i now t sigs d], of sampled_at]
    arg_cong [OF take_sample_cache [of ops drv config i now t sigs d], of sampled_at_steady]
    arg_cong [OF take_sample_cache [of ops drv config i now t sigs d], of has_sample]
    arg_cong [OF take_sample_cache [of ops drv config i now t sigs d], of last_read_ok]
    arg_cong [OF take_sample_cache [of ops drv config i now t sigs d], of last_error]
    arg_cong [OF take_sample_cache [of ops drv config i now t sigs d], of success_count]
    arg_cong [OF take_sample_cache [of ops drv config i now t sigs d], of failure_count]
  by simp_all

datatype read_event = Good time_point time_point "SignalSample list" | Bad Status

fun run_reads ::
    "('b, 'm) bus_ops_scheme \<Rightarrow> ('b, 'h, 'n) ezo_driver_scheme \<Rightarrow> ProviderConfig \<Rightarrow> string \<Rightarrow> read_event list \<Rightarrow> ActiveDevice
      \<Rightarrow> string list \<times> ActiveDevice" where
  "run_reads ops drv config i [] d = ([], d)"
| "run_reads ops drv config i (Good now t sigs # es) d =
     (case run_reads ops drv config i es (take_sample ops drv config i now t sigs d) of (ws, d') \<Rightarrow>
        ((case snd (cadence_check config i t (ad_sample d)) of None \<Rightarrow> ws | Some w \<Rightarrow> w # ws), d'))"
| "run_reads ops drv config i (Bad st # es) d = run_reads ops drv config i es (fail_sample st d)"

text \<open>
  The run of over-bound gaps at the head of a history, newest event first: only gaps between two good reads with no
  failure between them count.
\<close>

fun streak :: "int \<Rightarrow> read_event list \<Rightarrow> nat" where
  "streak bound (Good n t s # Good n' t' s' # es) =
     (if bound < duration_ms (t - t') then Suc (streak bound (Good n' t' s' # es)) else 0)"
| "streak bound _ = 0"

definition sustained_lag :: "int \<Rightarrow> read_event list \<Rightarrow> bool" where
  "sustained_lag bound hist \<longleftrightarrow> (\<exists>h. suffix h hist \<and> 3 \<le> streak bound h)"

lemma sustained_lag_Cons: "sustained_lag bound (e # hist) \<longleftrightarrow> 3 \<le> streak bound (e # hist) \<or> sustained_lag bound hist"
  by (auto simp: sustained_lag_def suffix_Cons)

lemma sustained_lag_Nil [simp]: "\<not> sustained_lag bound []"
  by (simp add: sustained_lag_def)

fun good_head :: "read_event list \<Rightarrow> time_point option" where
  "good_head (Good n t s # es) = Some t"
| "good_head _ = None"

definition history_inv :: "int \<Rightarrow> read_event list \<Rightarrow> DeviceSampleCache \<Rightarrow> bool" where
  "history_inv bound hist s \<longleftrightarrow>
     (stale_gap_warned s \<longleftrightarrow> sustained_lag bound hist) \<and>
     (has_sample s \<and> last_read_ok s \<longleftrightarrow> good_head hist \<noteq> None) \<and>
     (\<forall>t. good_head hist = Some t \<longrightarrow> sampled_at_steady s = t) \<and>
     (\<not> stale_gap_warned s \<longrightarrow> unat (consecutive_lagging_gaps s) = streak bound hist)"

lemma streak_no_good_head: "good_head hist = None \<Longrightarrow> streak bound (Good n t s # hist) = 0"
  by (cases hist rule: good_head.cases) simp_all

lemma streak_no_head: "good_head hist = None \<Longrightarrow> streak bound hist = 0"
  by (cases hist rule: good_head.cases) simp_all

lemma streak_good_head:
  "good_head hist = Some t' \<Longrightarrow> streak bound (Good n t s # hist) =
     (if bound < duration_ms (t - t') then Suc (streak bound hist) else 0)"
  by (cases hist rule: good_head.cases) simp_all

lemma unat_succ_small: "unat (g :: u32) < 3 \<Longrightarrow> unat (g + 1) = Suc (unat g)"
  by (simp add: unat_word_ariths)

lemma cadence_history:
  assumes inv: "history_inv (stale_after_ms config) hist s"
  shows "(stale_gap_warned (fst (cadence_check config i t s)) \<longleftrightarrow> sustained_lag (stale_after_ms config) (Good n t sg # hist)) \<and>
    (\<not> stale_gap_warned (fst (cadence_check config i t s)) \<longrightarrow>
      unat (consecutive_lagging_gaps (fst (cadence_check config i t s))) = streak (stale_after_ms config) (Good n t sg # hist)) \<and>
    (snd (cadence_check config i t s) \<noteq> None \<longleftrightarrow>
      sustained_lag (stale_after_ms config) (Good n t sg # hist) \<and> \<not> sustained_lag (stale_after_ms config) hist)"
proof (cases "has_sample s \<and> last_read_ok s \<and> \<not> stale_gap_warned s")
  case False
  then show ?thesis
    using inv by (auto simp: history_inv_def cadence_check_def sustained_lag_Cons streak_no_good_head streak_no_head)
next
  case True
  then obtain t' where head: "good_head hist = Some t'" and t': "sampled_at_steady s = t'"
    using inv by (auto simp: history_inv_def)
  have gaps: "unat (consecutive_lagging_gaps s) = streak (stale_after_ms config) hist"
    and quiet: "\<not> sustained_lag (stale_after_ms config) hist"
    using inv True by (auto simp: history_inv_def)
  then have small: "streak (stale_after_ms config) hist < 3"
    by (metis not_less sustained_lag_def suffix_order.refl)
  with gaps have succ: "unat (consecutive_lagging_gaps s + 1) = Suc (streak (stale_after_ms config) hist)"
    by (simp add: unat_succ_small)
  then have enough: "kCadenceLagStreak \<le> consecutive_lagging_gaps s + 1 \<longleftrightarrow> 3 \<le> Suc (streak (stale_after_ms config) hist)"
    by (simp add: word_le_nat_alt kCadenceLagStreak_def)
  show ?thesis
    using True quiet succ enough
    by (simp add: cadence_check_def Let_def t' sustained_lag_Cons streak_good_head [OF head])
qed

lemma run_reads_history:
  "history_inv (stale_after_ms config) hist (ad_sample d) \<Longrightarrow>
     length (fst (run_reads ops drv config i es d)) =
       (if sustained_lag (stale_after_ms config) (rev es @ hist) \<and> \<not> sustained_lag (stale_after_ms config) hist then 1 else 0)
     \<and> (sustained_lag (stale_after_ms config) hist \<longrightarrow> sustained_lag (stale_after_ms config) (rev es @ hist))"
proof (induction es arbitrary: hist d)
  case Nil
  then show ?case by simp
next
  case (Cons e es)
  show ?case
  proof (cases e)
    case (Good n t sg)
    note step = cadence_history [OF Cons.prems, of i t n sg]
    have "history_inv (stale_after_ms config) (Good n t sg # hist) (ad_sample (take_sample ops drv config i n t sg d))"
      using step by (simp add: history_inv_def)
    from Cons.IH [OF this] step show ?thesis
      by (auto simp: Good sustained_lag_Cons split: prod.split option.split)
  next
    case (Bad st)
    have "history_inv (stale_after_ms config) (Bad st # hist) (ad_sample (fail_sample st d))"
      using Cons.prems by (simp add: history_inv_def fail_sample_def sustained_lag_Cons Let_def)
    from Cons.IH [OF this] show ?thesis by (simp add: Bad sustained_lag_Cons)
  qed
qed

section \<open>Properties\<close>

text \<open>
  C26: the cadence warning is given exactly when it is due, and once. Over any sequence of successful and failed reads of
  a newly activated device, one warning is logged if at some point three consecutive gaps between
  successive successful reads, with no failed read among them, exceeded the freshness bound; otherwise none.
\<close>

theorem cadence_warning_exact:
  "length (fst (run_reads ops drv config i es (d\<lparr>ad_sample := new_DeviceSampleCache\<rparr>))) =
     (if sustained_lag (stale_after_ms config) (rev es) then 1 else 0)"
  using run_reads_history [of config "[]" "d\<lparr>ad_sample := new_DeviceSampleCache\<rparr>" ops drv i es]
  by (simp add: history_inv_def new_DeviceSampleCache_def)

end
