(* ===== verification/Ezo_Runtime.thy ===== *)
theory Ezo_Runtime
  imports Ezo_State "HOL-Library.Multiset"
begin

text \<open>
  The process-wide runtime (\<^verbatim>\<open>src/core/runtime_state.cpp\<close>): startup with identity probes, snapshots, and the
  refresh operations, as computations over the global state \<open>world\<close>. What lies outside the repository is the
  parameter \<open>platform\<close>: the bus and driver operations, the SDK, the clocks, and how each bus job fares against
  its deadline.
\<close>

section \<open>The outside world and the global state\<close>

record ('b, 'h, 'r) platform = claim_api +
  bops :: "'b bus_ops"
  drv :: "('b, 'h) ezo_driver"
  linux_build :: bool
  split_bus_query :: "string \<Rightarrow> string \<times> string"
  canned_bus :: "string \<Rightarrow> string \<Rightarrow> 'b"
  fault_any :: "string \<Rightarrow> bool"
  fault_bus :: "'b \<Rightarrow> string \<Rightarrow> 'b"
  linux_bus :: "string \<Rightarrow> int \<Rightarrow> 'b"
  noop_bus :: "string \<Rightarrow> 'b"
  i2c_check_host :: "string \<Rightarrow> 'r list"
  host_exit_code :: "'r list \<Rightarrow> int"
  readiness_diagnostics :: "'r list \<Rightarrow> (string \<rightharpoonup> string)"
  system_clock :: "nat \<Rightarrow> time_point"
  steady_clock :: "nat \<Rightarrow> time_point"
  schedule_of :: "nat \<Rightarrow> schedule"

text \<open>
  The globals \<^verbatim>\<open>g_state\<close> and \<^verbatim>\<open>g_executor\<close>, the executors that were stopped (newest first), how often the
  clocks were read and how many jobs were submitted, and what was logged (oldest first).
\<close>

record ('b, 'r) world =
  g_state :: "'r RuntimeState"
  g_executor :: "'b BusExecutor option"
  retired :: "'b BusExecutor list"
  clock_reads :: nat
  job_count :: nat
  logged :: "string list"

definition initial_world :: "('b, 'r) world" where
  "initial_world = \<lparr>g_state = new_RuntimeState, g_executor = None, retired = [], clock_reads = 0, job_count = 0, logged = []\<rparr>"

type_synonym ('b, 'r, 'a) prog = "(('b, 'r) world, 'a) state"

definition gets :: "(('b, 'r) world \<Rightarrow> 'a) \<Rightarrow> ('b, 'r, 'a) prog" where
  "gets f = State (\<lambda>w. (f w, w))"

definition modify :: "(('b, 'r) world \<Rightarrow> ('b, 'r) world) \<Rightarrow> ('b, 'r, unit) prog" where
  "modify f = State (\<lambda>w. ((), f w))"

definition system_now :: "('b, 'h, 'r) platform \<Rightarrow> ('b, 'r, time_point) prog" where
  "system_now p = State (\<lambda>w. (system_clock p (clock_reads w), w\<lparr>clock_reads := clock_reads w + 1\<rparr>))"

definition steady_now :: "('b, 'h, 'r) platform \<Rightarrow> ('b, 'r, time_point) prog" where
  "steady_now p = State (\<lambda>w. (steady_clock p (clock_reads w), w\<lparr>clock_reads := clock_reads w + 1\<rparr>))"

definition log_line :: "string \<Rightarrow> string \<Rightarrow> string" where
  "log_line level msg = ''[anolis-provider-ezo] ['' @ level @ ''] '' @ msg @ [CHR 0x0A]"

definition log_write :: "string \<Rightarrow> string \<Rightarrow> ('b, 'r, unit) prog" where
  "log_write level msg = modify (\<lambda>w. w\<lparr>logged := logged w @ [log_line level msg]\<rparr>)"

definition log_info :: "string \<Rightarrow> ('b, 'r, unit) prog" where "log_info = log_write ''INFO''"
definition log_warning :: "string \<Rightarrow> ('b, 'r, unit) prog" where "log_warning = log_write ''WARN''"
definition log_error :: "string \<Rightarrow> ('b, 'r, unit) prog" where "log_error = log_write ''ERROR''"

definition upd_world :: "string \<Rightarrow> (ActiveDevice \<Rightarrow> ActiveDevice) \<Rightarrow> ('b, 'r) world \<Rightarrow> ('b, 'r) world" where
  "upd_world i f w = w\<lparr>g_state := (g_state w)\<lparr>active_devices := update_device i f (active_devices (g_state w))\<rparr>\<rparr>"

definition update_active :: "string \<Rightarrow> (ActiveDevice \<Rightarrow> ActiveDevice) \<Rightarrow> ('b, 'r, unit) prog" where
  "update_active i f = modify (upd_world i f)"

definition active_device :: "string \<Rightarrow> ('b, 'r) world \<Rightarrow> ActiveDevice option" where
  "active_device i w = find_active_device_unlocked (active_devices (g_state w)) i"

section \<open>Host check and bus selection\<close>

definition check_host :: "('b, 'h, 'r) platform \<Rightarrow> ProviderConfig \<Rightarrow> 'r list" where
  "check_host p config = (if has_prefix (bus_path config) ''mock://'' then [] else i2c_check_host p (bus_path config))"

definition summarize_unmet :: "('b, 'h, 'r) platform \<Rightarrow> 'r list \<Rightarrow> string" where
  "summarize_unmet p reqs = (case readiness_diagnostics p reqs ''host_unmet'' of None \<Rightarrow> '''' | Some s \<Rightarrow> s)"

definition make_bus :: "('b, 'h, 'r) platform \<Rightarrow> ProviderConfig \<Rightarrow> 'b" where
  "make_bus p config =
     (if is_mock_mode config then
        case split_bus_query p (bus_path config) of (path, query) \<Rightarrow>
          let canned = canned_bus p path query in
          if fault_any p query then fault_bus p canned query else canned
      else if linux_build p then linux_bus p (bus_path config) (retry_count config)
      else noop_bus p (bus_path config))"

section \<open>Bus jobs\<close>

text \<open>Every job binds the driver to its address first.\<close>

definition bound_job ::
    "('b, 'h, 'r) platform \<Rightarrow> u8 \<Rightarrow> 'o \<Rightarrow> ('h \<Rightarrow> ('b, Status \<times> 'o) state) \<Rightarrow> ('b, Status \<times> 'o) state" where
  "bound_job p address out0 body =
     (case bind_ezo_i2c_device (bops p) (drv p) address (new_binding (drv p)) of (bind_status, binding) \<Rightarrow>
        if \<not> is_ok bind_status then State_Monad.return (bind_status, out0) else body (bd_device binding))"

definition default_info :: ezo_device_info where
  "default_info = \<lparr>product_id = EZO_PRODUCT_UNKNOWN, product_code = '''', firmware_version = ''''\<rparr>"

definition probe_job :: "('b, 'h, 'r) platform \<Rightarrow> DeviceSpec \<Rightarrow> ('b, Status \<times> ezo_device_info) state" where
  "probe_job p spec =
     bound_job p (word_of_int (ds_address spec)) default_info (\<lambda>device. do {
       (send_result, wait_ms) \<leftarrow> ezo_control_send_info_query (drv p) device
         (expected_product (adapter_for (bops p) (drv p) (ds_type spec)));
       if send_result \<noteq> EZO_OK
       then State_Monad.return (status_from_ezo_result (ezo_result_name (drv p)) send_result ''send info query'', default_info)
       else do {
         bus_delay (bops p) (wait_ms * 1000);
         (read_result, info) \<leftarrow> ezo_control_read_info (drv p) device;
         if read_result \<noteq> EZO_OK
         then State_Monad.return (status_from_ezo_result (ezo_result_name (drv p)) read_result ''read info response'', info)
         else State_Monad.return (Status_ok, info)
       }
     })"

definition sample_job :: "('b, 'h, 'r) platform \<Rightarrow> DeviceSpec \<Rightarrow> ('b, Status \<times> SignalSample list) state" where
  "sample_job p spec =
     bound_job p (word_of_int (ds_address spec)) [] (\<lambda>device.
       read_sample (adapter_for (bops p) (drv p) (ds_type spec)) device)"

definition level_job ::
    "('b, 'h, 'r) platform \<Rightarrow> DeviceSpec \<Rightarrow> ('h \<Rightarrow> double \<Rightarrow> ('b, Status \<times> double) state) \<Rightarrow> ('b, Status \<times> double) state" where
  "level_job p spec reader =
     bound_job p (word_of_int (ds_address spec)) (Fin 0) (\<lambda>device. reader device (Fin 0))"

type_synonym outcome = "CompensationReading \<times> bool"

definition no_outcome :: outcome where
  "no_outcome = (empty_CompensationReading, False)"

definition compensation_job ::
    "('b, 'h, 'r) platform \<Rightarrow> DeviceSpec \<Rightarrow> Compensation
      \<Rightarrow> ('h \<Rightarrow> CompensationReading \<Rightarrow> ('b, Status \<times> CompensationReading) state)
      \<Rightarrow> ('h \<Rightarrow> Compensation \<Rightarrow> ('b, Status) state) \<Rightarrow> ('b, Status \<times> outcome) state" where
  "compensation_job p spec set_v reader writer =
     bound_job p (word_of_int (ds_address spec)) no_outcome (\<lambda>device. do {
       (read_status, reading) \<leftarrow> reader device empty_CompensationReading;
       if \<not> is_ok read_status \<or> holds_all set_v (cr_values reading)
       then State_Monad.return (read_status, (reading, False))
       else do {
         write_status \<leftarrow> writer device set_v;
         if \<not> is_ok write_status
         then State_Monad.return
           (make_status (code write_status)
              (''probe lost its compensation and sending it again failed: '' @ message write_status), (reading, False))
         else do {
           (again_status, again) \<leftarrow> reader device reading;
           State_Monad.return (again_status, (again, True))
         }
       }
     })"

section \<open>The operations\<close>

text \<open>Shutting down stops the executor; dropping the last reference then runs its destructor, which stops it again.\<close>

definition shutdown :: "('b, 'h, 'r) platform \<Rightarrow> ('b, 'r, unit) prog" where
  "shutdown p =
     modify (\<lambda>w. w\<lparr>g_executor := None, g_state := (g_state w)\<lparr>i2c_executor_running := False\<rparr>,
                   retired := (case g_executor w of None \<Rightarrow> [] | Some e \<Rightarrow> [exec_stop (bops p) (exec_stop (bops p) e)]) @ retired w\<rparr>)"

definition reset :: "('b, 'h, 'r) platform \<Rightarrow> ('b, 'r, unit) prog" where
  "reset p = do { shutdown p; modify (\<lambda>w. w\<lparr>g_state := new_RuntimeState\<rparr>) }"

definition snapshot :: "('b, 'r) world \<Rightarrow> 'r RuntimeState" where
  "snapshot w =
     (case g_executor w of
        None \<Rightarrow> g_state w
      | Some e \<Rightarrow>
          let m = ex_metrics e;
              copy = (g_state w)\<lparr>i2c_executor_running := ex_running e, i2c_metrics := m\<rparr>
          in if metrics_last_error m = ''''
             then (if i2c_status_message copy = '''' then copy\<lparr>i2c_status_message := ''ok''\<rparr> else copy)
             else copy\<lparr>i2c_status_message := metrics_last_error m\<rparr>)"

definition io_stats_for :: "('b, 'h, 'r) platform \<Rightarrow> u8 \<Rightarrow> ('b, 'r) world \<Rightarrow> IoStats" where
  "io_stats_for p address w =
     (case g_executor w of None \<Rightarrow> zero_IoStats | Some e \<Rightarrow> bus_io_stats_for (bops p) address (the (ex_bus e)))"

definition submit_i2c_job ::
    "('b, 'h, 'r) platform \<Rightarrow> string \<Rightarrow> int \<Rightarrow> ('b, Status \<times> 'o) state \<Rightarrow> ('b, 'r, Status \<times> 'o option) prog" where
  "submit_i2c_job p job_name timeout job =
     State (\<lambda>w. case g_executor w of
        None \<Rightarrow> ((make_status Unavailable ''i2c executor is not running'', None), w)
      | Some e \<Rightarrow>
          (case submit job_name timeout job (schedule_of p (job_count w)) e of
             (r, e') \<Rightarrow> (r, w\<lparr>g_executor := Some e', job_count := job_count w + 1\<rparr>)))"

definition unknown_device :: Status where
  "unknown_device = make_status NotFound ''unknown device_id''"

text \<open>
  Each refresh has two halves: up to the submission of its job, and what is done with the job's status and output once
  the device has been looked up again.
\<close>

definition job_for :: "string \<Rightarrow> string \<Rightarrow> string" where
  "job_for kind i = kind @ i"

definition refresh_timeout_ms :: "ProviderConfig \<Rightarrow> int \<Rightarrow> int" where
  "refresh_timeout_ms config commands = max (timeout_ms config) (commands * query_latency_ms config + 1500)"

definition level_finished ::
    "('b, 'h, 'r) platform \<Rightarrow> string \<Rightarrow> Status \<times> double option \<Rightarrow> ('b, 'r, Status) prog" where
  "level_finished p i r = do {
     again \<leftarrow> gets (active_device i);
     case again of
       None \<Rightarrow> State_Monad.return unknown_device
     | Some _ \<Rightarrow> do {
         update_active i (store_calibration_level (bops p) (drv p) (fst r) (case snd r of None \<Rightarrow> Fin 0 | Some l \<Rightarrow> l));
         State_Monad.return (fst r)
       }
   }"

definition refresh_calibration_level :: "('b, 'h, 'r) platform \<Rightarrow> string \<Rightarrow> ('b, 'r, Status) prog" where
  "refresh_calibration_level p i = do {
     found \<leftarrow> gets (active_device i);
     config \<leftarrow> gets (\<lambda>w. rs_config (g_state w));
     case found of
       None \<Rightarrow> State_Monad.return unknown_device
     | Some it \<Rightarrow>
         (case read_calibration_level (adapter_for (bops p) (drv p) (ds_type (ad_spec it))) of
            None \<Rightarrow> State_Monad.return Status_ok
          | Some reader \<Rightarrow> do {
              r \<leftarrow> submit_i2c_job p (job_for ''calibration-level:'' i) (refresh_timeout_ms config 1)
                (level_job p (ad_spec it) reader);
              level_finished p i r
            })
   }"

definition compensation_finished ::
    "('b, 'h, 'r) platform \<Rightarrow> string \<Rightarrow> Status \<times> outcome option \<Rightarrow> ('b, 'r, Status) prog" where
  "compensation_finished p i r = do {
     again \<leftarrow> gets (active_device i);
     case again of
       None \<Rightarrow> State_Monad.return unknown_device
     | Some _ \<Rightarrow>
         (case (case snd r of None \<Rightarrow> no_outcome | Some seen \<Rightarrow> seen) of (reading, reapplied) \<Rightarrow> do {
            update_active i (store_compensation (bops p) (drv p) (fst r) reading reapplied);
            (if reapplied
             then log_warning (''device '' @ quoted i @
               '' had lost its compensation, as after a power cut; sent the set values again'')
             else State_Monad.return ());
            State_Monad.return (fst r)
          })
   }"

definition check_compensation :: "('b, 'h, 'r) platform \<Rightarrow> string \<Rightarrow> ('b, 'r, Status) prog" where
  "check_compensation p i = do {
     found \<leftarrow> gets (active_device i);
     config \<leftarrow> gets (\<lambda>w. rs_config (g_state w));
     case found of
       None \<Rightarrow> State_Monad.return unknown_device
     | Some it \<Rightarrow>
         (let adapter = adapter_for (bops p) (drv p) (ds_type (ad_spec it)) in
          case (read_compensation adapter, write_compensation adapter) of
            (Some reader, Some writer) \<Rightarrow> do {
              r \<leftarrow> submit_i2c_job p (job_for ''compensation:'' i) (refresh_timeout_ms config 9)
                (compensation_job p (ad_spec it) (compensation_set it) reader writer);
              compensation_finished p i r
            }
          | _ \<Rightarrow> State_Monad.return Status_ok)
   }"

definition sample_taken ::
    "('b, 'h, 'r) platform \<Rightarrow> string \<Rightarrow> Status \<Rightarrow> string option \<Rightarrow> bool \<Rightarrow> ('b, 'r, Status) prog" where
  "sample_taken p i status cadence_warning due = do {
     (case cadence_warning of None \<Rightarrow> State_Monad.return () | Some warning \<Rightarrow> log_warning warning);
     (if due then do {
        check \<leftarrow> check_compensation p i;
        (if \<not> is_ok check
         then log_warning (''compensation check failed for device '' @ quoted i @ '': '' @ message check)
         else State_Monad.return ())
      } else State_Monad.return ());
     State_Monad.return status
   }"

definition sample_finished ::
    "('b, 'h, 'r) platform \<Rightarrow> string \<Rightarrow> ProviderConfig \<Rightarrow> Status \<times> SignalSample list option \<Rightarrow> ('b, 'r, Status) prog" where
  "sample_finished p i config r = do {
     now \<leftarrow> system_now p;
     now_steady \<leftarrow> steady_now p;
     again \<leftarrow> gets (active_device i);
     case again of
       None \<Rightarrow> State_Monad.return unknown_device
     | Some d \<Rightarrow>
         if is_ok (fst r) then do {
           let take = take_sample (bops p) (drv p) config i now now_steady (case snd r of None \<Rightarrow> [] | Some s \<Rightarrow> s);
           update_active i take;
           sample_taken p i (fst r) (snd (cadence_check config i now_steady (ad_sample d))) (compensation_due (take d))
         } else do {
           update_active i (fail_sample (fst r));
           State_Monad.return (fst r)
         }
   }"

definition refresh_device_sample :: "('b, 'h, 'r) platform \<Rightarrow> string \<Rightarrow> ('b, 'r, Status) prog" where
  "refresh_device_sample p i =
     (if i = '''' then State_Monad.return (make_status InvalidArgument ''device_id is required'')
      else do {
        found \<leftarrow> gets (active_device i);
        config \<leftarrow> gets (\<lambda>w. rs_config (g_state w));
        case found of
          None \<Rightarrow> State_Monad.return unknown_device
        | Some it \<Rightarrow> do {
            r \<leftarrow> submit_i2c_job p (job_for ''sample:'' i) (refresh_timeout_ms config 1) (sample_job p (ad_spec it));
            sample_finished p i config r
          }
      })"

definition remember_compensation :: "string \<Rightarrow> Compensation \<Rightarrow> ('b, 'r, unit) prog" where
  "remember_compensation i vals =
     update_active i (\<lambda>d. d\<lparr>compensation_set := merge_compensation vals (compensation_set d)\<rparr>)"

definition record_call_result ::
    "('b, 'h, 'r) platform \<Rightarrow> string \<Rightarrow> string \<Rightarrow> bool \<Rightarrow> string \<Rightarrow> ('b, 'r, unit) prog" where
  "record_call_result p i function_name ok msg =
     (if i = '''' then State_Monad.return ()
      else do { now \<leftarrow> system_now p; update_active i (note_call function_name ok msg now) })"

section \<open>Startup\<close>

definition probe_identity_real ::
    "('b, 'h, 'r) platform \<Rightarrow> ProviderConfig \<Rightarrow> DeviceSpec \<Rightarrow> schedule \<Rightarrow> 'b BusExecutor
      \<Rightarrow> (Status \<times> ezo_device_info) \<times> 'b BusExecutor" where
  "probe_identity_real p config spec sched e =
     (case submit (''startup_probe:'' @ ds_id spec) (max (timeout_ms config) 2000) (probe_job p spec) sched e of
        ((status, out), e') \<Rightarrow>
          ((status, if is_ok status then (case out of None \<Rightarrow> default_info | Some info \<Rightarrow> info) else default_info), e'))"

definition activate :: "('b, 'h, 'r) platform \<Rightarrow> ProviderConfig \<Rightarrow> DeviceSpec \<Rightarrow> ezo_device_info \<Rightarrow> ActiveDevice" where
  "activate p config spec info =
     (let caps = build_capabilities (bops p) (drv p) config (ds_type spec);
          desc = build_descriptor (bops p) (drv p) p config spec
      in \<lparr>ad_spec = spec,
          descriptor = desc\<lparr>tags := (tags desc)(''ezo_product_code'' \<mapsto> product_code info, ''ezo_firmware'' \<mapsto> firmware_version info)\<rparr>,
          ad_capabilities = caps, default_signal_ids = default_signal_ids_for_type (bops p) (drv p) (ds_type spec),
          startup_product_code = product_code info, startup_firmware_version = firmware_version info,
          ad_sample = new_DeviceSampleCache\<lparr>sample_signals := replicate (length (cap_signals caps)) default_SignalSample\<rparr>,
          calibration_level = None, calibration_level_error = '''', compensation_set = empty_Compensation,
          compensation_read = empty_CompensationReading, compensation_error = '''', compensation_reapplied_count = 0,
          has_last_call = False, last_call_ok = False, last_call_function = '''', last_call_error = '''', last_call_at = 0,
          call_success_count = 0, call_failure_count = 0\<rparr>)"

text \<open>What a probe makes of a configured device: a reason to exclude it, or an active device.\<close>

definition admit :: "('b, 'h, 'r) platform \<Rightarrow> ProviderConfig \<Rightarrow> DeviceSpec \<Rightarrow> Status \<Rightarrow> ezo_device_info \<Rightarrow> string + ActiveDevice" where
  "admit p config spec status info =
     (if \<not> is_ok status then Inl (message status)
      else if product_id info \<noteq> expected_product (adapter_for (bops p) (drv p) (ds_type spec))
      then Inl (''type mismatch: configured '' @ to_string (ds_type spec) @ '', detected '' @
             (case ezo_product_get_metadata (drv p) (product_id info) of None \<Rightarrow> ''unknown'' | Some family \<Rightarrow> family))
      else Inr (activate p config spec info))"

fun probe_devices ::
    "('b, 'h, 'r) platform \<Rightarrow> ProviderConfig \<Rightarrow> DeviceSpec list \<Rightarrow> nat \<Rightarrow> 'b BusExecutor \<Rightarrow> 'r RuntimeState
      \<Rightarrow> 'r RuntimeState \<times> 'b BusExecutor" where
  "probe_devices p config [] n e st = (st, e)"
| "probe_devices p config (spec # specs) n e st =
     (case probe_identity_real p config spec (schedule_of p n) e of ((status, info), e') \<Rightarrow>
        probe_devices p config specs (Suc n) e'
          (case admit p config spec status info of
             Inl reason \<Rightarrow> st\<lparr>excluded_devices := excluded_devices st @ [\<lparr>ed_spec = spec, ed_reason = reason\<rparr>]\<rparr>
           | Inr device \<Rightarrow> st\<lparr>active_devices := active_devices st @ [device]\<rparr>))"

definition build_startup_message :: "'r RuntimeState \<Rightarrow> string" where
  "build_startup_message st =
     ''startup complete: active='' @ show_nat (length (active_devices st)) @ '', excluded='' @
     show_nat (length (excluded_devices st)) @ '', configured='' @ show_nat (length (devices (rs_config st))) @
     (if i2c_status_message st = '''' then '''' else '', i2c='' @ i2c_status_message st)"

definition cache_window_warning :: "ProviderConfig \<Rightarrow> string" where
  "cache_window_warning config =
     ''hardware.query_delay_us ('' @ show_int (query_delay_us config) @ '' us) implies a '' @
     show_int (query_latency_ms config) @ '' ms cache-reuse window, which is not shorter than the '' @
     show_int (cfg_sample_interval_ms config) @
     '' ms hardware.sample_interval_ms; samples may be served from cache and reported stale''"

definition warn_unless_ok :: "string \<Rightarrow> Status \<Rightarrow> ('b, 'r, unit) prog" where
  "warn_unless_ok what st = (if is_ok st then State_Monad.return () else log_warning (what @ message st))"

definition startup_refresh :: "('b, 'h, 'r) platform \<Rightarrow> string \<Rightarrow> ('b, 'r, unit) prog" where
  "startup_refresh p i = do {
     refresh_status \<leftarrow> refresh_device_sample p i;
     warn_unless_ok (''startup sample failed for device '' @ quoted i @ '': '') refresh_status;
     level_status \<leftarrow> refresh_calibration_level p i;
     warn_unless_ok (''startup calibration-level read failed for device '' @ quoted i @ '': '') level_status;
     compensation_status \<leftarrow> check_compensation p i;
     warn_unless_ok (''startup compensation read failed for device '' @ quoted i @ '': '') compensation_status
   }"

fun for_each :: "('a \<Rightarrow> ('b, 'r, unit) prog) \<Rightarrow> 'a list \<Rightarrow> ('b, 'r, unit) prog" where
  "for_each f [] = State_Monad.return ()"
| "for_each f (x # xs) = do { f x; for_each f xs }"

text \<open>The state a failed host check leaves: nothing was opened, every configured device is excluded.\<close>

definition host_unmet_state :: "('b, 'h, 'r) platform \<Rightarrow> ProviderConfig \<Rightarrow> 'r RuntimeState \<Rightarrow> 'r RuntimeState" where
  "host_unmet_state p config st =
     (let msg = ''host requirements unmet: '' @ summarize_unmet p (host_requirements st) in
      st\<lparr>startup_message := msg, i2c_status_message := msg,
         excluded_devices := excluded_devices st @ map (\<lambda>spec. \<lparr>ed_spec = spec, ed_reason = msg\<rparr>) (devices config)\<rparr>)"

definition started_state :: "Status \<Rightarrow> 'b BusExecutor \<Rightarrow> 'r RuntimeState \<Rightarrow> 'r RuntimeState" where
  "started_state start_status e st =
     st\<lparr>i2c_executor_running := is_ok start_status, i2c_status_message := message start_status, i2c_metrics := ex_metrics e\<rparr>"

text \<open>From the probed devices on: the state is published together with the executor, then each device is read.\<close>

definition publish_started :: "('b, 'h, 'r) platform \<Rightarrow> 'r RuntimeState \<Rightarrow> 'b BusExecutor \<Rightarrow> ('b, 'r, unit) prog" where
  "publish_started p st e = do {
     let st = st\<lparr>ready := active_devices st \<noteq> []\<rparr>;
     st \<leftarrow> (if ready st then do {
             t1 \<leftarrow> system_now p;
             State_Monad.return (st\<lparr>ready_at := t1,
               i2c_status_message := (if i2c_status_message st = '''' then ''ok'' else i2c_status_message st)\<rparr>)
           } else State_Monad.return st);
     let st = st\<lparr>startup_message := build_startup_message st\<rparr>;
     modify (\<lambda>w. w\<lparr>g_state := st, g_executor := Some e\<rparr>);
     for_each (startup_refresh p) (map (ds_id \<circ> ad_spec) (active_devices st))
   }"

definition start_devices :: "('b, 'h, 'r) platform \<Rightarrow> ProviderConfig \<Rightarrow> 'r RuntimeState \<Rightarrow> ('b, 'r, unit) prog" where
  "start_devices p config st =
     (case exec_start (bops p) (BusExecutor_new (Some (make_bus p config))) of (start_status, e) \<Rightarrow>
        let st = started_state start_status e st in
        if \<not> is_ok start_status
        then modify (\<lambda>w. w\<lparr>g_state := st\<lparr>startup_message := ''startup failed to initialize I2C executor: '' @ message start_status\<rparr>,
                          retired := exec_stop (bops p) e # retired w\<rparr>)
        else do {
          n \<leftarrow> gets job_count;
          modify (\<lambda>w. w\<lparr>job_count := n + length (devices config)\<rparr>);
          (case probe_devices p config (devices config) n e st of (st, e) \<Rightarrow> publish_started p st e)
        })"

definition startup_from :: "('b, 'h, 'r) platform \<Rightarrow> ProviderConfig \<Rightarrow> time_point \<Rightarrow> ('b, 'r, unit) prog" where
  "startup_from p config t0 =
     (let st = new_RuntimeState\<lparr>rs_config := config, started_at := t0, ready := False,
                host_requirements := check_host p config\<rparr> in
      if host_exit_code p (host_requirements st) \<noteq> 0
      then modify (\<lambda>w. w\<lparr>g_state := host_unmet_state p config st\<rparr>)
      else start_devices p config st)"

definition initialize :: "('b, 'h, 'r) platform \<Rightarrow> ProviderConfig \<Rightarrow> ('b, 'r, unit) prog" where
  "initialize p config = do {
     reset p;
     (if query_latency_ms config \<ge> sample_interval_ms config then log_warning (cache_window_warning config)
      else State_Monad.return ());
     t0 \<leftarrow> system_now p;
     startup_from p config t0
   }"

section \<open>Running the operations\<close>

lemma run_basic [simp]:
  "run_state (gets f) w = (f w, w)"
  "run_state (modify g) w = ((), g w)"
  "run_state (system_now p) w = (system_clock p (clock_reads w), w\<lparr>clock_reads := clock_reads w + 1\<rparr>)"
  "run_state (steady_now p) w = (steady_clock p (clock_reads w), w\<lparr>clock_reads := clock_reads w + 1\<rparr>)"
  "run_state (update_active i u) w = ((), upd_world i u w)"
  by (simp_all add: gets_def modify_def system_now_def steady_now_def update_active_def)

lemma run_log [simp]: "run_state (log_write level msg) w = ((), w\<lparr>logged := logged w @ [log_line level msg]\<rparr>)"
  by (simp add: log_write_def)

lemma run_logs [simp]:
  "run_state (log_warning msg) w = ((), w\<lparr>logged := logged w @ [log_line ''WARN'' msg]\<rparr>)"
  "run_state (log_info msg) w = ((), w\<lparr>logged := logged w @ [log_line ''INFO'' msg]\<rparr>)"
  "run_state (log_error msg) w = ((), w\<lparr>logged := logged w @ [log_line ''ERROR'' msg]\<rparr>)"
  by (simp_all add: log_warning_def log_info_def log_error_def)

lemma active_device_quiet [simp]:
  "active_device i (w\<lparr>logged := l\<rparr>) = active_device i w"
  "active_device i (w\<lparr>clock_reads := n\<rparr>) = active_device i w"
  "active_device i (w\<lparr>job_count := n\<rparr>) = active_device i w"
  "active_device i (w\<lparr>g_executor := e\<rparr>) = active_device i w"
  by (simp_all add: active_device_def)

lemma active_device_upd:
  "keeps_spec f \<Longrightarrow> active_device j (upd_world i f w) = (if j = i then map_option f (active_device i w) else active_device j w)"
  by (simp add: active_device_def upd_world_def device_store.look_upd_any)

text \<open>What a bus job may change: the executor, which stays idle, and the job count.\<close>

fun executor_kept :: "'b BusExecutor option \<Rightarrow> 'b BusExecutor option \<Rightarrow> bool" where
  "executor_kept (Some e) (Some e') = (idle e \<longrightarrow> idle e')"
| "executor_kept None None = True"
| "executor_kept _ _ = False"

lemma executor_kept_refl [simp]: "executor_kept e e"
  by (cases e) simp_all

lemma submit_keeps_idle: "idle e \<Longrightarrow> idle (snd (submit n t job sched e))"
  by (simp add: submit_def idle_def Let_def split: prod.split schedule.split)

lemma submit_ok:
  assumes "submit n t job sched e = ((st, out), e')" and "is_ok st"
  shows "\<exists>b' o'. out = Some o' \<and> run_state job (the (ex_bus e)) = ((st, o'), b')"
  using assms
  by (auto simp: submit_def deadline_status_def Let_def split: if_splits prod.splits schedule.splits)

lemma submit_i2c_job_frame:
  assumes "run_state (submit_i2c_job p n t job) w = (r, w')"
  shows "g_state w' = g_state w \<and> executor_kept (g_executor w) (g_executor w') \<and> retired w' = retired w \<and>
    logged w' = logged w \<and> clock_reads w' = clock_reads w"
proof (cases "g_executor w")
  case None
  then show ?thesis using assms by (auto simp: submit_i2c_job_def)
next
  case (Some e)
  obtain r' e' where "submit n t job (schedule_of p (job_count w)) e = (r', e')" by fastforce
  with submit_keeps_idle [of e n t job "schedule_of p (job_count w)"] Some assms show ?thesis
    by (auto simp: submit_i2c_job_def)
qed

lemma submit_i2c_job_bus:
  assumes "run_state (submit_i2c_job p n t job) w = ((st, out), w')" and "is_ok st"
  shows "\<exists>e e' b' o'. g_executor w = Some e \<and> g_executor w' = Some e' \<and> ex_bus e' = Some b' \<and> out = Some o' \<and>
    run_state job (the (ex_bus e)) = ((st, o'), b')"
  using assms
  by (auto simp: submit_i2c_job_def submit_def deadline_status_def Let_def split: option.splits if_splits prod.splits schedule.splits)

lemma submit_i2c_job_ok:
  assumes "run_state (submit_i2c_job p n t job) w = ((st, out), w')" and "is_ok st"
  shows "\<exists>e b' o'. g_executor w = Some e \<and> out = Some o' \<and> run_state job (the (ex_bus e)) = ((st, o'), b')"
  using assms submit_ok
  by (fastforce simp: submit_i2c_job_def split: option.splits prod.splits)

lemma sample_job_length:
  assumes "run_state (sample_job p spec) b = ((st, out), b')" and "is_ok st"
  shows "length out = length (signals (adapter_for (bops p) (drv p) (ds_type spec)))"
  using assms adapter.sample_length
  by (auto simp: sample_job_def bound_job_def split: prod.splits if_splits)

section \<open>Relations that clocks and log do not break\<close>

locale world_frame = frame_order R for R :: "('b, 'r) world \<Rightarrow> ('b, 'r) world \<Rightarrow> bool" +
  assumes clock_quiet: "R w (w\<lparr>clock_reads := n\<rparr>)"
    and log_quiet: "R w (w\<lparr>logged := l\<rparr>)"
begin

lemma keeps_quiet [keeps_intros]:
  "keeps_frame R (gets g)" "keeps_frame R (system_now p)" "keeps_frame R (steady_now p)" "keeps_frame R (log_warning msg)"
  by (simp_all add: keeps_frame_def frame_refl clock_quiet log_quiet)

lemma keeps_warn_unless_ok [keeps_intros]: "keeps_frame R (warn_unless_ok what st)"
  unfolding warn_unless_ok_def by (intro keeps_intros)

lemma keeps_for_each: "(\<And>x. x \<in> set xs \<Longrightarrow> keeps_frame R (f x)) \<Longrightarrow> keeps_frame R (for_each f xs)"
proof (induction xs)
  case (Cons x xs)
  then show ?case unfolding for_each.simps by (intro keeps_intros) simp_all
qed (simp add: keeps_return)

end

section \<open>A contract for everything done to one device\<close>

text \<open>
  A relation between worlds that is transitive, holds when only clocks, log, counters or the idle executor change, and
  holds across each of the updates of device \<open>i\<close>, holds across every operation on that device.
\<close>

locale device_frame =
  fixes p :: "('b, 'h, 'r) platform" and i :: string and R :: "('b, 'r) world \<Rightarrow> ('b, 'r) world \<Rightarrow> bool"
  assumes R_trans: "R w w' \<Longrightarrow> R w' w'' \<Longrightarrow> R w w''"
    and quiet: "g_state w' = g_state w \<Longrightarrow> executor_kept (g_executor w) (g_executor w') \<Longrightarrow> retired w' = retired w \<Longrightarrow> R w w'"
    and sampled: "active_device i w = Some d \<Longrightarrow> length sigs = signal_count (bops p) (drv p) d \<Longrightarrow>
      R w (upd_world i (take_sample (bops p) (drv p) config i now t sigs) w)"
    and failed_read: "R w (upd_world i (fail_sample st) w)"
    and levelled: "R w (upd_world i (store_calibration_level (bops p) (drv p) st level) w)"
    and compensated: "R w (upd_world i (store_compensation (bops p) (drv p) st reading reapplied) w)"
    and remembered: "R w (upd_world i (\<lambda>d. d\<lparr>compensation_set := merge_compensation c (compensation_set d)\<rparr>) w)"
    and called: "R w (upd_world i (note_call fn ok msg now) w)"
begin

lemma R_refl: "R w w"
  by (rule quiet) simp_all

lemma quiet_then:
  "g_state w' = g_state w \<Longrightarrow> executor_kept (g_executor w) (g_executor w') \<Longrightarrow> retired w' = retired w \<Longrightarrow> R w' w'' \<Longrightarrow> R w w''"
  by (rule R_trans [OF quiet])

lemma logged_after: "R w w' \<Longrightarrow> R w (w'\<lparr>logged := l\<rparr>)"
  by (erule R_trans) (rule quiet; simp)

lemma level_finished_R: "R w (snd (run_state (level_finished p i r) w))"
  by (simp add: level_finished_def R_refl levelled split: option.split)

lemma compensation_finished_R: "R w (snd (run_state (compensation_finished p i r) w))"
  by (simp add: compensation_finished_def R_refl compensated logged_after split: option.split prod.split)

lemma job_then: "run_state (submit_i2c_job p n t job) w = (r, w1) \<Longrightarrow> R w1 w2 \<Longrightarrow> R w w2"
  using submit_i2c_job_frame by (blast intro: quiet_then)

lemma refresh_calibration_level_R: "R w (snd (run_state (refresh_calibration_level p i) w))"
  by (auto simp: refresh_calibration_level_def R_refl split: option.split prod.split
      intro: job_then [OF _ level_finished_R])

lemma check_compensation_R: "R w (snd (run_state (check_compensation p i) w))"
  by (auto simp: check_compensation_def R_refl Let_def split: option.split prod.split
      intro: job_then [OF _ compensation_finished_R])

lemma sample_taken_R: "R w (snd (run_state (sample_taken p i status warning due) w))"
proof -
  have "R w (snd (run_state (sample_taken p i status None due) w))" for w
  proof -
    obtain st w2 where run: "run_state (check_compensation p i) w = (st, w2)" by fastforce
    then have "R w w2" using check_compensation_R [of w] by simp
    then show ?thesis by (auto simp: sample_taken_def run R_refl intro: logged_after)
  qed
  note none = this
  show ?thesis
  proof (cases warning)
    case (Some msg)
    then show ?thesis
      using R_trans [OF logged_after [OF R_refl] none [of "w\<lparr>logged := logged w @ [log_line ''WARN'' msg]\<rparr>"]]
      by (simp add: sample_taken_def)
  qed (simp add: none)
qed

lemma sample_finished_R:
  assumes "is_ok (fst r) \<Longrightarrow> \<exists>d sigs. active_device i w = Some d \<and> snd r = Some sigs \<and> length sigs = signal_count (bops p) (drv p) d"
  shows "R w (snd (run_state (sample_finished p i config r) w))"
proof -
  define w2 where "w2 = w\<lparr>clock_reads := Suc (Suc (clock_reads w))\<rparr>"
  have w2: "R w w2" by (rule quiet) (simp_all add: w2_def)
  show ?thesis
  proof (cases "is_ok (fst r)")
    case True
    with assms obtain d sigs where d: "active_device i w2 = Some d" "snd r = Some sigs"
      "length sigs = signal_count (bops p) (drv p) d" by (auto simp: w2_def)
    from R_trans [OF R_trans [OF w2 sampled [OF d(1,3)]] sample_taken_R] True d(1,2) show ?thesis
      by (simp add: sample_finished_def w2_def Let_def)
  next
    case False
    then show ?thesis
      using w2 R_trans [OF w2 failed_read]
      by (auto simp: sample_finished_def w2_def split: option.split)
  qed
qed

lemma refresh_device_sample_R: "R w (snd (run_state (refresh_device_sample p i) w))"
proof -
  have "R w (snd (run_state (sample_finished p i config r) w1))"
    if it: "active_device i w = Some it" and run: "run_state (submit_i2c_job p n t (sample_job p (ad_spec it))) w = (r, w1)"
    for it n t r w1 config
  proof (rule job_then [OF run sample_finished_R])
    assume ok: "is_ok (fst r)"
    have "run_state (submit_i2c_job p n t (sample_job p (ad_spec it))) w = ((fst r, snd r), w1)" using run by simp
    from submit_i2c_job_ok [OF this ok] sample_job_length [OF _ ok] it submit_i2c_job_frame [OF run]
    show "\<exists>d sigs. active_device i w1 = Some d \<and> snd r = Some sigs \<and> length sigs = signal_count (bops p) (drv p) d"
      by (fastforce simp: signal_count_def active_device_def)
  qed
  then show ?thesis by (auto simp: refresh_device_sample_def R_refl split: option.split prod.split)
qed

lemma remember_compensation_R: "R w (snd (run_state (remember_compensation i c) w))"
  by (simp add: remember_compensation_def remembered)

lemma record_call_result_R: "R w (snd (run_state (record_call_result p i fn ok msg) w))"
  by (simp add: record_call_result_def R_refl quiet_then [OF _ _ _ called])

end

sublocale device_frame \<subseteq> world_frame R
  by unfold_locales (auto intro: R_refl R_trans quiet)

section \<open>Five readings of the contract\<close>

text \<open>
  What is fixed at startup stays; the other devices stay; consistency stays; an idle executor stays idle; no executor is
  stopped.
\<close>

definition frame_part :: "('b, 'r) world \<Rightarrow> 'r RuntimeState \<times> (DeviceSpec \<times> Device \<times> CapabilitySet \<times> string list \<times> string \<times> string) list" where
  "frame_part w = ((g_state w)\<lparr>active_devices := []\<rparr>, map static_part (active_devices (g_state w)))"

definition devices_ok :: "('b, 'h, 'r) platform \<Rightarrow> ('b, 'r) world \<Rightarrow> bool" where
  "devices_ok p w \<longleftrightarrow> list_all (device_ok (bops p) (drv p)) (active_devices (g_state w))"

lemma frame_part_upd: "(\<And>d. static_part (f d) = static_part d) \<Longrightarrow> frame_part (upd_world i f w) = frame_part w"
  by (simp add: frame_part_def upd_world_def update_device_def map_update_first)

lemma devices_ok_upd:
  "devices_ok p w \<Longrightarrow> (\<And>d. device_ok (bops p) (drv p) d \<Longrightarrow> device_ok (bops p) (drv p) (f d)) \<Longrightarrow> devices_ok p (upd_world i f w)"
  by (simp add: devices_ok_def upd_world_def update_device_def list_all_update_first)

lemma list_all_update_found:
  "list_all P ds \<Longrightarrow> find Q ds = Some d \<Longrightarrow> P (f d) \<Longrightarrow> list_all P (update_first Q f ds)"
  by (induction ds) (auto split: if_splits)

lemma devices_ok_sampled:
  assumes "devices_ok p w" and "active_device i w = Some d" and "length sigs = signal_count (bops p) (drv p) d"
  shows "devices_ok p (upd_world i (take_sample (bops p) (drv p) config i now t sigs) w)"
proof -
  have found: "find (has_id i) (active_devices (g_state w)) = Some d"
    using assms(2) by (simp add: active_device_def find_active_device_unlocked_def)
  have all: "list_all (device_ok (bops p) (drv p)) (active_devices (g_state w))"
    using assms(1) by (simp add: devices_ok_def)
  then have "device_ok (bops p) (drv p) d" using find_SomeD [OF found] by (simp add: list_all_iff)
  then show ?thesis
    by (simp add: devices_ok_def upd_world_def update_device_def list_all_update_found [OF all found]
        device_ok_updates(1) assms(3))
qed

lemma g_executor_upd [simp]: "g_executor (upd_world i f w) = g_executor w"
  by (simp add: upd_world_def)

lemma executor_kept_trans: "executor_kept a b \<Longrightarrow> executor_kept b c \<Longrightarrow> executor_kept a c"
  by (cases a; cases b; cases c) simp_all

interpretation fixed: device_frame p i "\<lambda>w w'. frame_part w' = frame_part w" for p :: "('b, 'h, 'r) platform" and i
  by unfold_locales (simp_all add: frame_part_upd, simp_all add: frame_part_def)

definition other_devices :: "string \<Rightarrow> ('b, 'r) world \<Rightarrow> ActiveDevice list" where
  "other_devices i w = filter (\<lambda>d. ds_id (ad_spec d) \<noteq> i) (active_devices (g_state w))"

lemma others_upd:
  assumes "\<And>d. static_part (f d) = static_part d"
  shows "other_devices i (upd_world i f w) = other_devices i w"
proof -
  have "filter (\<lambda>d. ds_id (ad_spec d) \<noteq> i) (update_first (has_id i) f ds) = filter (\<lambda>d. ds_id (ad_spec d) \<noteq> i) ds" for ds
    using ad_spec_static [OF assms] by (induction ds) (simp_all add: has_id_def)
  then show ?thesis by (simp add: other_devices_def upd_world_def update_device_def)
qed

interpretation others: device_frame p i "\<lambda>w w'. other_devices i w' = other_devices i w"
  for p :: "('b, 'h, 'r) platform" and i
  by unfold_locales (simp_all add: others_upd, simp add: other_devices_def)

interpretation consistent: device_frame p i "\<lambda>w w'. devices_ok p w \<longrightarrow> devices_ok p w'"
  for p :: "('b, 'h, 'r) platform" and i
  by unfold_locales (auto simp: devices_ok_sampled device_ok_updates intro: devices_ok_upd, auto simp: devices_ok_def)

interpretation executor_idle: device_frame p i "\<lambda>w w'. executor_kept (g_executor w) (g_executor w')"
  for p :: "('b, 'h, 'r) platform" and i
  by unfold_locales (auto intro: executor_kept_trans)

lemma retired_upd [simp]: "retired (upd_world i f w) = retired w"
  by (simp add: upd_world_def)

interpretation none_retired: device_frame p i "\<lambda>w w'. retired w' = retired w" for p :: "('b, 'h, 'r) platform" and i
  by unfold_locales simp_all

section \<open>Startup\<close>

lemma probe_identity_idle:
  "idle e \<Longrightarrow> probe_identity_real p config spec sched e = (r, e') \<Longrightarrow> idle e'"
  using submit_keeps_idle [of e "''startup_probe:'' @ ds_id spec" "max (timeout_ms config) 2000" "probe_job p spec" sched]
  by (auto simp: probe_identity_real_def split: prod.splits)

lemma activate_simps [simp]:
  "ad_spec (activate p config spec info) = spec"
  "ad_capabilities (activate p config spec info) = build_capabilities (bops p) (drv p) config (ds_type spec)"
  "default_signal_ids (activate p config spec info) = default_signal_ids_for_type (bops p) (drv p) (ds_type spec)"
  by (simp_all add: activate_def Let_def)

lemma device_ok_activate: "device_ok (bops p) (drv p) (activate p config spec info)"
  by (simp add: device_ok_def activate_def Let_def new_DeviceSampleCache_def signal_count_def)

text \<open>An admitted device has what its specification and the answer to the probe give, and nothing has been done with it yet.\<close>

definition admitted :: "('b, 'h, 'r) platform \<Rightarrow> ProviderConfig \<Rightarrow> ActiveDevice \<Rightarrow> bool" where
  "admitted p config d \<longleftrightarrow> (\<exists>info. d = activate p config (ad_spec d) info)"

text \<open>
  The reference for the probing of startup: the probes one after the other on the executor, and which of their answers
  identify the configured product.
\<close>

fun probe_answers ::
    "('b, 'h, 'r) platform \<Rightarrow> ProviderConfig \<Rightarrow> DeviceSpec list \<Rightarrow> nat \<Rightarrow> 'b BusExecutor \<Rightarrow> (DeviceSpec \<times> Status \<times> ezo_device_info) list" where
  "probe_answers p config [] n e = []"
| "probe_answers p config (spec # specs) n e =
     (case probe_identity_real p config spec (schedule_of p n) e of (a, e') \<Rightarrow> (spec, a) # probe_answers p config specs (Suc n) e')"

fun genuine :: "('b, 'h, 'r) platform \<Rightarrow> DeviceSpec \<times> Status \<times> ezo_device_info \<Rightarrow> bool" where
  "genuine p (spec, st, info) \<longleftrightarrow> is_ok st \<and> product_id info = expected_product (adapter_for (bops p) (drv p) (ds_type spec))"

text \<open>An answer that is a success is what the identity query read on the bus.\<close>

fun from_bus :: "('b, 'h, 'r) platform \<Rightarrow> DeviceSpec \<times> Status \<times> ezo_device_info \<Rightarrow> bool" where
  "from_bus p (spec, st, info) \<longleftrightarrow> (is_ok st \<longrightarrow> (\<exists>b b'. run_state (probe_job p spec) b = ((st, info), b')))"

fun activated :: "('b, 'h, 'r) platform \<Rightarrow> ProviderConfig \<Rightarrow> DeviceSpec \<times> Status \<times> ezo_device_info \<Rightarrow> ActiveDevice" where
  "activated p config (spec, st, info) = activate p config spec info"

fun turned_away :: "('b, 'h, 'r) platform \<Rightarrow> DeviceSpec \<times> Status \<times> ezo_device_info \<Rightarrow> ExcludedDevice" where
  "turned_away p (spec, st, info) =
     \<lparr>ed_spec = spec, ed_reason =
        (if is_ok st
         then ''type mismatch: configured '' @ to_string (ds_type spec) @ '', detected '' @
           (case ezo_product_get_metadata (drv p) (product_id info) of None \<Rightarrow> ''unknown'' | Some family \<Rightarrow> family)
         else message st)\<rparr>"

lemma probe_devices_answers:
  assumes "probe_devices p config specs n e st = (st', e')"
  shows "st' = st\<lparr>active_devices := active_devices st @ map (activated p config) (filter (genuine p) (probe_answers p config specs n e)),
    excluded_devices := excluded_devices st @ map (turned_away p) (filter (Not \<circ> genuine p) (probe_answers p config specs n e))\<rparr>"
  using assms
proof (induction specs arbitrary: n e st)
  case (Cons spec specs)
  obtain status info e1 where probe: "probe_identity_real p config spec (schedule_of p n) e = ((status, info), e1)"
    by (metis surj_pair)
  show ?case
  proof (cases "admit p config spec status info")
    case (Inl reason)
    then have away: "turned_away p (spec, status, info) = \<lparr>ed_spec = spec, ed_reason = reason\<rparr>" "\<not> genuine p (spec, status, info)"
      by (auto simp: admit_def split: if_splits)
    have "probe_devices p config specs (Suc n) e1
        (st\<lparr>excluded_devices := excluded_devices st @ [\<lparr>ed_spec = spec, ed_reason = reason\<rparr>]\<rparr>) = (st', e')"
      using Cons.prems by (simp add: probe Inl)
    from Cons.IH [OF this] away show ?thesis by (cases st) (simp add: probe del: turned_away.simps genuine.simps)
  next
    case (Inr d)
    then have genuine: "genuine p (spec, status, info)" "d = activate p config spec info"
      by (auto simp: admit_def split: if_splits)
    have "probe_devices p config specs (Suc n) e1 (st\<lparr>active_devices := active_devices st @ [d]\<rparr>) = (st', e')"
      using Cons.prems by (simp add: probe Inr)
    from Cons.IH [OF this] genuine show ?thesis by (cases st) (simp add: probe del: turned_away.simps genuine.simps)
  qed
qed simp

lemma map_fst_answers: "map fst (probe_answers p config specs n e) = specs"
  by (induction specs arbitrary: n e) (simp_all split: prod.split)

lemma answers_from_bus: "list_all (from_bus p) (probe_answers p config specs n e)"
proof (induction specs arbitrary: n e)
  case (Cons spec specs)
  obtain status info e1 where probe: "probe_identity_real p config spec (schedule_of p n) e = ((status, info), e1)"
    by (metis surj_pair)
  have "from_bus p (spec, status, info)"
    using probe submit_ok by (fastforce simp: probe_identity_real_def split: prod.splits if_splits)
  then show ?case using Cons.IH by (simp add: probe)
qed simp

lemma probe_devices_idle: "probe_devices p config specs n e st = (st', e') \<Longrightarrow> idle e \<Longrightarrow> idle e'"
proof (induction specs arbitrary: n e st)
  case (Cons spec specs)
  obtain a e1 where "probe_identity_real p config spec (schedule_of p n) e = (a, e1)" by fastforce
  then show ?case using Cons probe_identity_idle [of e p config spec "schedule_of p n"] by (cases a) auto
qed simp

lemma probe_devices_spec:
  assumes "probe_devices p config specs n e st = (st', e')"
  shows "\<exists>act exc. st' = st\<lparr>active_devices := active_devices st @ act, excluded_devices := excluded_devices st @ exc\<rparr> \<and>
    mset (map ad_spec act @ map ed_spec exc) = mset specs \<and> list_all (admitted p config) act \<and> (idle e \<longrightarrow> idle e')"
proof -
  let ?as = "probe_answers p config specs n e"
  have spec: "ad_spec (activated p config a) = fst a" "ed_spec (turned_away p a) = fst a" for a by (cases a; simp)+
  have "mset (map ad_spec (map (activated p config) (filter (genuine p) ?as)) @
      map ed_spec (map (turned_away p) (filter (Not \<circ> genuine p) ?as))) = mset (map fst ?as)"
    by (simp add: comp_def spec flip: image_mset_union)
  note this [unfolded map_fst_answers]
  moreover have "list_all (admitted p config) (map (activated p config) (filter (genuine p) ?as))"
    by (auto simp: list_all_iff admitted_def)
  ultimately show ?thesis using probe_devices_answers [OF assms] probe_devices_idle [OF assms] by blast
qed

lemma exec_start_idle:
  assumes "exec_start ops (BusExecutor_new (Some b)) = (st, e)" and "is_ok st"
  shows "idle e"
  using exec_start_opened [OF assms(1) _ assms(2)] by (fastforce simp: BusExecutor_new_def idle_def)

context device_frame
begin

lemma keeps_refresh [keeps_intros]:
  "keeps_frame R (refresh_device_sample p i)" "keeps_frame R (refresh_calibration_level p i)"
  "keeps_frame R (check_compensation p i)"
  unfolding keeps_frame_def
  by (blast intro: refresh_device_sample_R refresh_calibration_level_R check_compensation_R)+

lemma startup_refresh_R: "keeps_frame R (startup_refresh p i)"
  unfolding startup_refresh_def by (intro keeps_intros)

end

text \<open>A device whose fixed part is what its specification and some identity give.\<close>

definition described :: "('b, 'h, 'r) platform \<Rightarrow> ProviderConfig
    \<Rightarrow> DeviceSpec \<times> Device \<times> CapabilitySet \<times> string list \<times> string \<times> string \<Rightarrow> bool" where
  "described p config s \<longleftrightarrow> (\<exists>info. s = static_part (activate p config (fst s) info))"

lemma described_admitted: "admitted p config d \<Longrightarrow> described p config (static_part d)"
  unfolding admitted_def described_def by (metis fst_conv static_part_def)

text \<open>What \<^verbatim>\<open>initialize\<close> promises of the state it publishes and the executor beside it.\<close>

definition startup_ok :: "('b, 'h, 'r) platform \<Rightarrow> ProviderConfig \<Rightarrow> 'r RuntimeState \<Rightarrow> 'b BusExecutor option \<Rightarrow> bool" where
  "startup_ok p config st ex \<longleftrightarrow>
     rs_config st = config \<and> (ready st \<longleftrightarrow> active_devices st \<noteq> []) \<and>
     (case ex of
        Some e \<Rightarrow> mset (map ad_spec (active_devices st)) + mset (map ed_spec (excluded_devices st)) = mset (devices config) \<and>
          list_all (described p config \<circ> static_part) (active_devices st)
      | None \<Rightarrow> active_devices st = [] \<and> excluded_devices st =
          (if host_exit_code p (check_host p config) \<noteq> 0
           then map (\<lambda>spec. \<lparr>ed_spec = spec, ed_reason = startup_message st\<rparr>) (devices config) else []))"

lemma map_static_spec: "map static_part ds = map static_part ds' \<Longrightarrow> map ad_spec ds = map ad_spec ds'"
  by (induction ds ds' rule: list_induct2') (auto simp: static_part_def)

lemma frame_part_fields:
  assumes "frame_part w' = frame_part w"
  shows "map static_part (active_devices (g_state w')) = map static_part (active_devices (g_state w))"
    and "rs_config (g_state w') = rs_config (g_state w)" and "ready (g_state w') = ready (g_state w)"
    and "excluded_devices (g_state w') = excluded_devices (g_state w)"
    and "startup_message (g_state w') = startup_message (g_state w)"
    and "active_devices (g_state w') = [] \<longleftrightarrow> active_devices (g_state w) = []"
proof -
  have st: "(g_state w')\<lparr>active_devices := []\<rparr> = (g_state w)\<lparr>active_devices := []\<rparr>"
    and map: "map static_part (active_devices (g_state w')) = map static_part (active_devices (g_state w))"
    using assms by (simp_all add: frame_part_def)
  show "map static_part (active_devices (g_state w')) = map static_part (active_devices (g_state w))" by (rule map)
  show "active_devices (g_state w') = [] \<longleftrightarrow> active_devices (g_state w) = []" using map by (metis list.map_disc_iff)
  show "rs_config (g_state w') = rs_config (g_state w)" "ready (g_state w') = ready (g_state w)"
    "excluded_devices (g_state w') = excluded_devices (g_state w)" "startup_message (g_state w') = startup_message (g_state w)"
    using arg_cong [OF st, of rs_config] arg_cong [OF st, of ready] arg_cong [OF st, of excluded_devices]
      arg_cong [OF st, of startup_message] by simp_all
qed

lemma startup_ok_frame:
  assumes "frame_part w' = frame_part w" and "executor_kept (g_executor w) (g_executor w')"
    and "startup_ok p config (g_state w) (g_executor w)"
  shows "startup_ok p config (g_state w') (g_executor w')"
proof -
  note fields = frame_part_fields [OF assms(1)]
  have "list_all (described p config \<circ> static_part) (active_devices (g_state w')) \<longleftrightarrow>
      list_all (described p config \<circ> static_part) (active_devices (g_state w))"
    using fields(1) by (simp add: list.pred_map [symmetric])
  then show ?thesis
    using assms(2,3) fields(2-) map_static_spec [OF fields(1)]
    by (cases "g_executor w"; cases "g_executor w'") (simp_all add: startup_ok_def)
qed

lemma started_frames:
  "frame_part (snd (run_state (for_each (startup_refresh p) ids) w)) = frame_part w"
  "executor_kept (g_executor w) (g_executor (snd (run_state (for_each (startup_refresh p) ids) w)))"
  "devices_ok p w \<longrightarrow> devices_ok p (snd (run_state (for_each (startup_refresh p) ids) w))"
  "retired (snd (run_state (for_each (startup_refresh p) ids) w)) = retired w"
  using fixed.keeps_for_each [where f = "startup_refresh p" and xs = ids, OF fixed.startup_refresh_R]
    executor_idle.keeps_for_each [where f = "startup_refresh p" and xs = ids, OF executor_idle.startup_refresh_R]
    consistent.keeps_for_each [where f = "startup_refresh p" and xs = ids, OF consistent.startup_refresh_R]
    none_retired.keeps_for_each [where f = "startup_refresh p" and xs = ids, OF none_retired.startup_refresh_R]
  by (simp_all add: keeps_frame_def)

definition world_ok :: "('b, 'h, 'r) platform \<Rightarrow> ('b, 'r) world \<Rightarrow> bool" where
  "world_ok p w \<longleftrightarrow> devices_ok p w \<and> (\<forall>e. g_executor w = Some e \<longrightarrow> idle e)"

lemma publish_started_run:
  obtains w1 where "snd (run_state (publish_started p st e) w) =
      snd (run_state (for_each (startup_refresh p) (map (ds_id \<circ> ad_spec) (active_devices (g_state w1)))) w1)"
    and "active_devices (g_state w1) = active_devices st" and "excluded_devices (g_state w1) = excluded_devices st"
    and "rs_config (g_state w1) = rs_config st" and "ready (g_state w1) \<longleftrightarrow> active_devices st \<noteq> []" and "g_executor w1 = Some e"
proof (cases "active_devices st = []")
  case True
  then show ?thesis
    using that [of "w\<lparr>g_state := st\<lparr>ready := False, startup_message := build_startup_message (st\<lparr>ready := False\<rparr>)\<rparr>,
        g_executor := Some e\<rparr>"]
    by (simp add: publish_started_def Let_def)
next
  case False
  define st1 where "st1 = st\<lparr>ready := True, ready_at := system_clock p (clock_reads w),
    i2c_status_message := (if i2c_status_message st = '''' then ''ok'' else i2c_status_message st)\<rparr>"
  show ?thesis
    using that [of "w\<lparr>clock_reads := Suc (clock_reads w), g_state := st1\<lparr>startup_message := build_startup_message st1\<rparr>,
        g_executor := Some e\<rparr>"] False
    by (simp add: publish_started_def Let_def st1_def)
qed

lemma publish_started_ok:
  assumes "idle e" and "rs_config st = config" and "list_all (admitted p config) (active_devices st)"
    and "mset (map ad_spec (active_devices st)) + mset (map ed_spec (excluded_devices st)) = mset (devices config)"
  shows "startup_ok p config (g_state (snd (run_state (publish_started p st e) w)))
      (g_executor (snd (run_state (publish_started p st e) w))) \<and>
    world_ok p (snd (run_state (publish_started p st e) w)) \<and>
    g_executor (snd (run_state (publish_started p st e) w)) \<noteq> None"
proof -
  define w' where "w' = snd (run_state (publish_started p st e) w)"
  obtain w1 where w': "w' = snd (run_state (for_each (startup_refresh p) (map (ds_id \<circ> ad_spec) (active_devices (g_state w1)))) w1)"
    and w1: "active_devices (g_state w1) = active_devices st" "excluded_devices (g_state w1) = excluded_devices st"
      "rs_config (g_state w1) = config" "ready (g_state w1) \<longleftrightarrow> active_devices st \<noteq> []" "g_executor w1 = Some e"
    unfolding w'_def using publish_started_run assms(2) by metis
  have "startup_ok p config (g_state w1) (g_executor w1)"
    using w1 assms(3,4) by (auto simp: startup_ok_def list_all_iff intro: described_admitted)
  moreover have "devices_ok p w1"
    using assms(3) unfolding devices_ok_def w1 list_all_iff admitted_def by (metis device_ok_activate)
  moreover have "frame_part w' = frame_part w1" "executor_kept (g_executor w1) (g_executor w')"
    "devices_ok p w1 \<longrightarrow> devices_ok p w'"
    unfolding w' by (rule started_frames)+
  ultimately have "startup_ok p config (g_state w') (g_executor w')" "devices_ok p w'"
    "executor_kept (Some e) (g_executor w')"
    using w1(5) startup_ok_frame by metis+
  then show ?thesis
    unfolding w'_def [symmetric] using assms(1) by (cases "g_executor w'") (simp_all add: world_ok_def)
qed

lemma host_unmet_ok:
  assumes "host_exit_code p (check_host p config) \<noteq> 0" and "rs_config st = config" and "\<not> ready st"
    and "active_devices st = []" and "excluded_devices st = []"
  shows "startup_ok p config (host_unmet_state p config st) None"
  using assms by (simp add: startup_ok_def host_unmet_state_def Let_def)

lemma start_devices_ok:
  assumes "host_exit_code p (check_host p config) = 0" and "rs_config st = config" and "\<not> ready st"
    and "active_devices st = []" and "excluded_devices st = []" and "g_executor w = None"
  shows "startup_ok p config (g_state (snd (run_state (start_devices p config st) w)))
      (g_executor (snd (run_state (start_devices p config st) w))) \<and>
    world_ok p (snd (run_state (start_devices p config st) w))"
proof -
  obtain ss e where start: "exec_start (bops p) (BusExecutor_new (Some (make_bus p config))) = (ss, e)" by fastforce
  show ?thesis
  proof (cases "is_ok ss")
    case False
    then show ?thesis
      using assms by (simp add: start_devices_def start Let_def startup_ok_def started_state_def world_ok_def devices_ok_def)
  next
    case True
    obtain st1 e1 where probe: "probe_devices p config (devices config) (job_count w) e (started_state ss e st) = (st1, e1)"
      by fastforce
    from probe_devices_spec [OF this] obtain act exc where
      "st1 = (started_state ss e st)\<lparr>active_devices := act, excluded_devices := exc\<rparr>"
      "mset (map ad_spec act @ map ed_spec exc) = mset (devices config)" "list_all (admitted p config) act" "idle e1"
      using assms(4,5) exec_start_idle [OF start True] by (auto simp: started_state_def)
    then have "rs_config st1 = config" "list_all (admitted p config) (active_devices st1)"
      "mset (map ad_spec (active_devices st1)) + mset (map ed_spec (excluded_devices st1)) = mset (devices config)" "idle e1"
      using assms(2) by (simp_all add: started_state_def)
    from publish_started_ok [OF this(4,1,2,3), of "w\<lparr>job_count := job_count w + length (devices config)\<rparr>"] show ?thesis
      by (simp add: start_devices_def start Let_def True probe)
  qed
qed

lemma startup_from_ok:
  assumes "g_executor w = None"
  shows "startup_ok p config (g_state (snd (run_state (startup_from p config t) w)))
      (g_executor (snd (run_state (startup_from p config t) w))) \<and>
    world_ok p (snd (run_state (startup_from p config t) w))"
proof -
  define st0 where "st0 = (new_RuntimeState :: 'b RuntimeState)\<lparr>rs_config := config, started_at := t, ready := False,
    host_requirements := check_host p config\<rparr>"
  have st0: "rs_config st0 = config" "\<not> ready st0" "active_devices st0 = []" "excluded_devices st0 = []"
    "host_requirements st0 = check_host p config"
    by (simp_all add: st0_def new_RuntimeState_def)
  show ?thesis
  proof (cases "host_exit_code p (check_host p config) = 0")
    case True
    from start_devices_ok [OF True st0(1-4) assms] show ?thesis
      by (simp add: startup_from_def st0_def [symmetric] Let_def st0 True)
  next
    case False
    from host_unmet_ok [OF False st0(1-4)] False assms st0(3) show ?thesis
      by (simp add: startup_from_def st0_def [symmetric] Let_def st0(5) world_ok_def devices_ok_def host_unmet_state_def)
  qed
qed

lemma initialize_ok:
  "startup_ok p config (g_state (snd (run_state (initialize p config) w)))
      (g_executor (snd (run_state (initialize p config) w))) \<and>
    world_ok p (snd (run_state (initialize p config) w))"
  by (cases "query_latency_ms config \<ge> sample_interval_ms config")
    (simp_all add: initialize_def reset_def shutdown_def startup_from_ok)

section \<open>What startup made of the probes\<close>

lemma publish_started_frame:
  "map static_part (active_devices (g_state (snd (run_state (publish_started p st e) w)))) = map static_part (active_devices st)"
  "excluded_devices (g_state (snd (run_state (publish_started p st e) w))) = excluded_devices st"
  "g_executor (snd (run_state (publish_started p st e) w)) \<noteq> None"
proof -
  obtain w1 where w1: "snd (run_state (publish_started p st e) w) =
      snd (run_state (for_each (startup_refresh p) (map (ds_id \<circ> ad_spec) (active_devices (g_state w1)))) w1)"
    "active_devices (g_state w1) = active_devices st" "excluded_devices (g_state w1) = excluded_devices st" "g_executor w1 = Some e"
    using publish_started_run [of p st e w] by metis
  note same = frame_part_fields [OF started_frames(1) [of p "map (ds_id \<circ> ad_spec) (active_devices (g_state w1))" w1]]
  show "map static_part (active_devices (g_state (snd (run_state (publish_started p st e) w)))) = map static_part (active_devices st)"
    "excluded_devices (g_state (snd (run_state (publish_started p st e) w))) = excluded_devices st"
    unfolding w1(1) using same w1(2,3) by simp_all
  show "g_executor (snd (run_state (publish_started p st e) w)) \<noteq> None"
    unfolding w1(1) using started_frames(2) [of w1 p "map (ds_id \<circ> ad_spec) (active_devices (g_state w1))"] w1(4)
    by (auto elim: executor_kept.elims)
qed

text \<open>What startup does with a bus that was opened, and with one that was not.\<close>

lemma start_devices_answers:
  assumes "exec_start (bops p) (BusExecutor_new (Some (make_bus p config))) = (ss, e)"
    and "active_devices st = []" and "excluded_devices st = []" and "w' = snd (run_state (start_devices p config st) w)"
  shows "\<not> is_ok ss \<Longrightarrow> g_executor w' = g_executor w \<and> active_devices (g_state w') = [] \<and> excluded_devices (g_state w') = []"
    and "is_ok ss \<Longrightarrow> g_executor w' \<noteq> None \<and>
      map static_part (active_devices (g_state w')) =
        map (static_part \<circ> activated p config) (filter (genuine p) (probe_answers p config (devices config) (job_count w) e)) \<and>
      excluded_devices (g_state w') =
        map (turned_away p) (filter (Not \<circ> genuine p) (probe_answers p config (devices config) (job_count w) e))"
proof -
  show "\<not> is_ok ss \<Longrightarrow> g_executor w' = g_executor w \<and> active_devices (g_state w') = [] \<and> excluded_devices (g_state w') = []"
    using assms by (simp add: start_devices_def Let_def started_state_def)
  assume ok: "is_ok ss"
  obtain st1 e1 where probe: "probe_devices p config (devices config) (job_count w) e (started_state ss e st) = (st1, e1)"
    by fastforce
  have w': "w' = snd (run_state (publish_started p st1 e1) (w\<lparr>job_count := job_count w + length (devices config)\<rparr>))"
    using assms(4) by (simp add: start_devices_def assms(1) Let_def ok probe)
  show "g_executor w' \<noteq> None \<and>
      map static_part (active_devices (g_state w')) =
        map (static_part \<circ> activated p config) (filter (genuine p) (probe_answers p config (devices config) (job_count w) e)) \<and>
      excluded_devices (g_state w') =
        map (turned_away p) (filter (Not \<circ> genuine p) (probe_answers p config (devices config) (job_count w) e))"
    unfolding w' publish_started_frame using probe_devices_answers [OF probe] assms(2,3) publish_started_frame(3)
    by (simp add: started_state_def)
qed

text \<open>Startup proper runs from a state without executor.\<close>

lemma initialize_from:
  obtains t w1 where "snd (run_state (initialize p config) w) = snd (run_state (startup_from p config t) w1)"
    and "g_executor w1 = None" and "job_count w1 = job_count w"
  by (cases "query_latency_ms config \<ge> sample_interval_ms config")
    (simp_all add: initialize_def reset_def shutdown_def)

definition startup_state :: "('b, 'h, 'r) platform \<Rightarrow> ProviderConfig \<Rightarrow> time_point \<Rightarrow> 'r RuntimeState" where
  "startup_state p config t =
     new_RuntimeState\<lparr>rs_config := config, started_at := t, ready := False, host_requirements := check_host p config\<rparr>"

lemma startup_state_sel [simp]:
  "active_devices (startup_state p config t) = []" "excluded_devices (startup_state p config t) = []"
  "host_requirements (startup_state p config t) = check_host p config"
  by (simp_all add: startup_state_def new_RuntimeState_def)

lemma startup_from_cases:
  "snd (run_state (startup_from p config t) w) =
     (if host_exit_code p (check_host p config) \<noteq> 0 then w\<lparr>g_state := host_unmet_state p config (startup_state p config t)\<rparr>
      else snd (run_state (start_devices p config (startup_state p config t)) w))"
  by (simp add: startup_from_def startup_state_def [symmetric] Let_def)

lemma initialize_executor:
  assumes "host_exit_code p (check_host p config) = 0"
  shows "g_executor (snd (run_state (initialize p config) w)) = None \<longleftrightarrow>
    \<not> is_ok (fst (exec_start (bops p) (BusExecutor_new (Some (make_bus p config)))))"
proof -
  obtain t w1 where w1: "snd (run_state (initialize p config) w) = snd (run_state (startup_from p config t) w1)" "g_executor w1 = None"
    by (rule initialize_from [of p config w])
  obtain ss e where start: "exec_start (bops p) (BusExecutor_new (Some (make_bus p config))) = (ss, e)" by fastforce
  from start_devices_answers [OF start, where st = "startup_state p config t" and w = w1] show ?thesis
    by (cases "is_ok ss") (simp_all add: w1 startup_from_cases assms start)
qed

section \<open>The runtime as a state machine\<close>

datatype runtime_op = Op_initialize ProviderConfig | Op_shutdown | Op_reset | Op_refresh string | Op_level string
  | Op_check string | Op_remember string Compensation | Op_record string string bool string

fun perform :: "('b, 'h, 'r) platform \<Rightarrow> runtime_op \<Rightarrow> ('b, 'r) world \<Rightarrow> ('b, 'r) world" where
  "perform p (Op_initialize config) w = snd (run_state (initialize p config) w)"
| "perform p Op_shutdown w = snd (run_state (shutdown p) w)"
| "perform p Op_reset w = snd (run_state (reset p) w)"
| "perform p (Op_refresh i) w = snd (run_state (refresh_device_sample p i) w)"
| "perform p (Op_level i) w = snd (run_state (refresh_calibration_level p i) w)"
| "perform p (Op_check i) w = snd (run_state (check_compensation p i) w)"
| "perform p (Op_remember i c) w = snd (run_state (remember_compensation i c) w)"
| "perform p (Op_record i fn ok msg) w = snd (run_state (record_call_result p i fn ok msg) w)"

definition runtime_step :: "('b, 'h, 'r) platform \<Rightarrow> ('b, 'r) world \<Rightarrow> runtime_op \<Rightarrow> ('b, 'r) world \<Rightarrow> bool" where
  "runtime_step p w op w' \<longleftrightarrow> w' = perform p op w"

lemma world_ok_frame:
  assumes "devices_ok p w \<longrightarrow> devices_ok p w'" and "executor_kept (g_executor w) (g_executor w')" and "world_ok p w"
  shows "world_ok p w'"
  using assms by (cases "g_executor w"; cases "g_executor w'") (auto simp: world_ok_def)

lemmas device_op_ok =
  world_ok_frame [OF consistent.refresh_device_sample_R executor_idle.refresh_device_sample_R]
  world_ok_frame [OF consistent.refresh_calibration_level_R executor_idle.refresh_calibration_level_R]
  world_ok_frame [OF consistent.check_compensation_R executor_idle.check_compensation_R]
  world_ok_frame [OF consistent.remember_compensation_R executor_idle.remember_compensation_R]
  world_ok_frame [OF consistent.record_call_result_R executor_idle.record_call_result_R]

lemma shutdown_ok: "world_ok p w \<Longrightarrow> world_ok p (snd (run_state (shutdown p) w))"
  by (simp add: shutdown_def world_ok_def devices_ok_def)

lemma reset_ok: "world_ok p (snd (run_state (reset p) w))"
  by (simp add: reset_def shutdown_def world_ok_def devices_ok_def new_RuntimeState_def)

lemma world_ok_perform: "world_ok p w \<Longrightarrow> world_ok p (perform p op w)"
  by (cases op) (simp_all add: device_op_ok shutdown_ok reset_ok initialize_ok [THEN conjunct2])

lemma world_ok_initial: "world_ok p initial_world"
  by (simp add: world_ok_def devices_ok_def initial_world_def new_RuntimeState_def)

interpretation runtime: trace_invariant "\<lambda>w. w = initial_world" "runtime_step p" "\<lambda>_. world_ok p"
  for p :: "('b, 'h, 'r) platform"
  by unfold_locales (simp_all add: runtime_step_def world_ok_perform world_ok_initial)

section \<open>Properties\<close>

subsection \<open>Startup and the invariant\<close>

text \<open>
  C13: what startup leaves behind, for every configuration, host and bus. The configuration is kept and the provider is
  ready exactly when a device is active. On a host that lacks something nothing is opened and every configured device is
  excluded with the startup message, which names what is unmet, as its reason. When only the bus could not be opened no
  executor runs and no device is listed. Otherwise every configured device was probed, in order and one after the other on
  the executor, and a successful answer is what the identity query read on the bus. The active devices are exactly those
  that answered with the product their configuration names, in the order of the configuration, each with
  the descriptor, capabilities and default signals of its type and the identity it answered with; every other one is excluded with the
  error of its probe or with the family it was mistaken for.
\<close>

theorem initialize_outcome:
  "let w' = snd (run_state (initialize p config) w); st = g_state w' in
   rs_config st = config \<and> (ready st \<longleftrightarrow> active_devices st \<noteq> []) \<and>
   (if host_exit_code p (check_host p config) \<noteq> 0
    then g_executor w' = None \<and> active_devices st = [] \<and>
      startup_message st = ''host requirements unmet: '' @ summarize_unmet p (check_host p config) \<and>
      excluded_devices st = map (\<lambda>spec. \<lparr>ed_spec = spec, ed_reason = startup_message st\<rparr>) (devices config)
    else case exec_start (bops p) (BusExecutor_new (Some (make_bus p config))) of (start_status, e) \<Rightarrow>
      if \<not> is_ok start_status then g_executor w' = None \<and> active_devices st = [] \<and> excluded_devices st = []
      else let answers = probe_answers p config (devices config) (job_count w) e in
        g_executor w' \<noteq> None \<and> map fst answers = devices config \<and> list_all (from_bus p) answers \<and>
        map static_part (active_devices st) = map (static_part \<circ> activated p config) (filter (genuine p) answers) \<and>
        excluded_devices st = map (turned_away p) (filter (Not \<circ> genuine p) answers))"
proof -
  define w' where "w' = snd (run_state (initialize p config) w)"
  obtain t w1 where w1: "w' = snd (run_state (startup_from p config t) w1)" "g_executor w1 = None" "job_count w1 = job_count w"
    unfolding w'_def by (rule initialize_from [of p config w])
  have kept: "rs_config (g_state w') = config" "ready (g_state w') \<longleftrightarrow> active_devices (g_state w') \<noteq> []"
    using initialize_ok [of p config w] by (simp_all add: startup_ok_def w'_def)
  show ?thesis
  proof (cases "host_exit_code p (check_host p config) = 0")
    case True
    obtain ss e where start: "exec_start (bops p) (BusExecutor_new (Some (make_bus p config))) = (ss, e)" by fastforce
    have "w' = snd (run_state (start_devices p config (startup_state p config t)) w1)"
      using w1(1) by (simp add: startup_from_cases True)
    from start_devices_answers [OF start startup_state_sel(1,2) this] show ?thesis
      unfolding w'_def [symmetric] Let_def
      by (cases "is_ok ss") (simp_all add: kept True start w1(2,3) map_fst_answers answers_from_bus del: not_None_eq)
  next
    case False
    then show ?thesis
      using kept w1 unfolding w'_def [symmetric] Let_def by (simp add: startup_from_cases host_unmet_state_def Let_def)
  qed
qed

lemma steps_perform: "steps (runtime_step p) w ops (fold (perform p) ops w)"
proof (induction ops rule: rev_induct)
  case (snoc op ops)
  then show ?case by (auto simp: runtime_step_def intro: steps.intros)
qed (simp add: steps.intros)

text \<open>
  The runtime's invariant. After any sequence of starts, stops, resets, refreshes, checks and recorded calls, every
  active device has one slot per signal of its type, and once it has a sample the calibration level and compensation
  slots show what was last read on demand (unavailable, with a reason, when it is unknown); the executor is idle
  between operations, so each of its jobs runs as the stepwise executor allows.
\<close>

theorem runtime_invariant: "world_ok p (fold (perform p) ops initial_world)"
  using runtime.good_steps [OF steps_perform] by blast

text \<open>The device an operation is on.\<close>

fun target :: "runtime_op \<Rightarrow> string option" where
  "target (Op_refresh i) = Some i"
| "target (Op_level i) = Some i"
| "target (Op_check i) = Some i"
| "target (Op_remember i c) = Some i"
| "target (Op_record i fn ok msg) = Some i"
| "target _ = None"

text \<open>
  Isolation. An operation on one device changes no other device, and of that device neither its specification,
  descriptor, capabilities, default signals nor startup identity; nor does it change which devices are active or
  excluded, readiness, or any other part of the published state.
\<close>

theorem operations_isolated:
  "case target op of None \<Rightarrow> True
   | Some i \<Rightarrow> other_devices i (perform p op w) = other_devices i w \<and> frame_part (perform p op w) = frame_part w"
  by (cases op)
    (simp_all add: others.refresh_device_sample_R others.refresh_calibration_level_R others.check_compensation_R
      others.remember_compensation_R others.record_call_result_R
      fixed.refresh_device_sample_R fixed.refresh_calibration_level_R fixed.check_compensation_R
      fixed.remember_compensation_R fixed.record_call_result_R)

subsection \<open>What one operation does to its device\<close>

lemma active_device_same: "keeps_spec f \<Longrightarrow> active_device i (upd_world i f w) = map_option f (active_device i w)"
  by (simp add: active_device_upd)

lemma keeps_updates [simp]:
  "keeps_spec (take_sample ops dv config i now t sigs)" "keeps_spec (fail_sample st)"
  "keeps_spec (store_calibration_level ops dv st level)" "keeps_spec (store_compensation ops dv st reading re)"
  "keeps_spec (note_call fn ok msg now)" "keeps_spec (\<lambda>d. d\<lparr>compensation_set := c d\<rparr>)"
  by (simp_all add: keeps_specI)

lemma submitted_device:
  "run_state (submit_i2c_job p n t job) w = (r, w1) \<Longrightarrow> active_device i w1 = active_device i w \<and> clock_reads w1 = clock_reads w"
  using submit_i2c_job_frame by (fastforce simp: active_device_def)

text \<open>A level refresh stores a status together with a level its job read.\<close>

lemma refresh_level_cases:
  assumes "run_state (refresh_calibration_level p i) w = (st, w')" and "active_device i w = Some d"
    and "read_calibration_level (adapter_for (bops p) (drv p) (ds_type (ad_spec d))) = Some reader"
  obtains level where "active_device i w' = Some (store_calibration_level (bops p) (drv p) st level d)"
    and "is_ok st \<longrightarrow> (\<exists>e b'. g_executor w = Some e \<and> run_state (level_job p (ad_spec d) reader) (the (ex_bus e)) = ((st, level), b'))"
proof -
  obtain st1 out w1 where run: "run_state (submit_i2c_job p (job_for ''calibration-level:'' i)
      (refresh_timeout_ms (rs_config (g_state w)) 1) (level_job p (ad_spec d) reader)) w = ((st1, out), w1)"
    by (metis surj_pair)
  have w': "st = st1"
    "active_device i w' = Some (store_calibration_level (bops p) (drv p) st (case out of None \<Rightarrow> Fin 0 | Some l \<Rightarrow> l) d)"
    using assms submitted_device [OF run, of i]
    by (auto simp: refresh_calibration_level_def run level_finished_def active_device_same)
  show ?thesis using that [OF w'(2)] submit_i2c_job_ok [OF run] w'(1) by fastforce
qed

lemma check_compensation_cases:
  assumes "run_state (check_compensation p i) w = (st, w')" and "active_device i w = Some d"
    and "read_compensation (adapter_for (bops p) (drv p) (ds_type (ad_spec d))) = Some reader"
    and "write_compensation (adapter_for (bops p) (drv p) (ds_type (ad_spec d))) = Some writer"
  obtains reading re where "active_device i w' = Some (store_compensation (bops p) (drv p) st reading re d)"
    and "is_ok st \<longrightarrow> (\<exists>e e' b'. g_executor w = Some e \<and> g_executor w' = Some e' \<and> ex_bus e' = Some b' \<and>
      run_state (compensation_job p (ad_spec d) (compensation_set d) reader writer) (the (ex_bus e)) = ((st, (reading, re)), b'))"
proof -
  obtain st1 out w1 where run: "run_state (submit_i2c_job p (job_for ''compensation:'' i)
      (refresh_timeout_ms (rs_config (g_state w)) 9) (compensation_job p (ad_spec d) (compensation_set d) reader writer)) w =
      ((st1, out), w1)"
    by (metis surj_pair)
  obtain reading re where seen: "(case out of None \<Rightarrow> no_outcome | Some s \<Rightarrow> s) = (reading, re)" by fastforce
  have w': "st = st1" "active_device i w' = Some (store_compensation (bops p) (drv p) st reading re d)"
    using assms submitted_device [OF run, of i]
    by (auto simp: check_compensation_def run compensation_finished_def seen active_device_same split: if_splits)
  have ex: "g_executor w' = g_executor w1"
    using assms submitted_device [OF run, of i]
    by (auto simp: check_compensation_def run compensation_finished_def seen upd_world_def split: if_splits)
  have "\<exists>e e' b'. g_executor w = Some e \<and> g_executor w' = Some e' \<and> ex_bus e' = Some b' \<and>
      run_state (compensation_job p (ad_spec d) (compensation_set d) reader writer) (the (ex_bus e)) = ((st, (reading, re)), b')"
    if "is_ok st"
    using submit_i2c_job_bus [OF run] that seen w'(1) ex by (metis option.simps(5))
  then show ?thesis by (intro that [OF w'(2)]) blast
qed

lemma compensation_pair:
  "read_compensation (adapter_for ops dv t) = None \<longleftrightarrow> write_compensation (adapter_for ops dv t) = None"
  by (cases t) (simp_all add: adapter_for.simps adapters)

text \<open>Whatever its family, a check leaves the device alone or stores a reading.\<close>

lemma check_compensation_device:
  assumes "run_state (check_compensation p i) w = (st, w')" and "active_device i w = Some d"
  shows "active_device i w' = Some d \<or> (\<exists>reading re. active_device i w' = Some (store_compensation (bops p) (drv p) st reading re d))"
proof (cases "read_compensation (adapter_for (bops p) (drv p) (ds_type (ad_spec d)))")
  case None
  then show ?thesis using assms by (auto simp: check_compensation_def Let_def split: option.splits)
next
  case (Some reader)
  with compensation_pair [of "bops p" "drv p" "ds_type (ad_spec d)"] obtain writer
    where "write_compensation (adapter_for (bops p) (drv p) (ds_type (ad_spec d))) = Some writer"
    by auto
  from assms Some this obtain reading re
    where "active_device i w' = Some (store_compensation (bops p) (drv p) st reading re d)"
    by (rule check_compensation_cases)
  then show ?thesis by blast
qed

lemma store_compensation_sample:
  "has_sample (ad_sample (store_compensation ops dv st reading re d)) = has_sample (ad_sample d)"
  "(ad_sample (store_compensation ops dv st reading re d))\<lparr>sample_signals := []\<rparr> = (ad_sample d)\<lparr>sample_signals := []\<rparr>"
  by (simp_all add: store_compensation_def Let_def)

text \<open>The slots a family measures are written by its sample alone.\<close>

lemma measured_fill:
  "k < measured_signals (ds_type (ad_spec d)) \<Longrightarrow> k < length (sample_signals (ad_sample d)) \<Longrightarrow>
     sample_signals (ad_sample (apply_compensation ops dv d)) ! k = sample_signals (ad_sample d) ! k"
  by (cases "ds_type (ad_spec d)") (auto simp: on_demand_slots nth_fill_other Let_def)

lemma measured_level:
  "k < measured_signals (ds_type (ad_spec d)) \<Longrightarrow>
     sample_signals (ad_sample (apply_calibration_level ops dv d)) ! k = sample_signals (ad_sample d) ! k"
  by (cases "ds_type (ad_spec d)") (auto simp: apply_calibration_level_def on_demand_slots Let_def)

lemma measured_store:
  "k < measured_signals (ds_type (ad_spec d)) \<Longrightarrow> k < length (sample_signals (ad_sample d)) \<Longrightarrow>
     sample_signals (ad_sample (store_compensation ops dv st reading re d)) ! k = sample_signals (ad_sample d) ! k"
  by (simp add: store_compensation_def Let_def measured_fill del: sample_fields_apply(1))

lemma measured_take:
  "k < measured_signals (ds_type (ad_spec d)) \<Longrightarrow> k < length sigs \<Longrightarrow>
     sample_signals (ad_sample (take_sample ops dv config i now t sigs d)) ! k = sigs ! k"
  by (simp add: take_sample_def Let_def measured_fill measured_level del: sample_fields_apply(1))

text \<open>What a successful refresh leaves in the cache, on top of the measured slots \<open>sigs\<close>.\<close>

definition freshly_sampled :: "time_point \<Rightarrow> time_point \<Rightarrow> SignalSample list \<Rightarrow> ActiveDevice \<Rightarrow> ActiveDevice \<Rightarrow> bool" where
  "freshly_sampled now t sigs d d' \<longleftrightarrow>
     has_sample (ad_sample d') \<and> last_read_ok (ad_sample d') \<and> last_error (ad_sample d') = '''' \<and>
     sampled_at (ad_sample d') = now \<and> sampled_at_steady (ad_sample d') = t \<and>
     success_count (ad_sample d') = success_count (ad_sample d) + 1 \<and>
     failure_count (ad_sample d') = failure_count (ad_sample d) \<and>
     sample_sequence (ad_sample d') = sample_sequence (ad_sample d) + 1 \<and>
     take (measured_signals (ds_type (ad_spec d))) (sample_signals (ad_sample d')) =
       take (measured_signals (ds_type (ad_spec d))) sigs"

lemma length_updates:
  "length (sample_signals (ad_sample (take_sample ops dv config i now t sigs d))) = length sigs"
  "length (sample_signals (ad_sample (store_compensation ops dv st reading re d))) = length (sample_signals (ad_sample d))"
  by (simp_all add: take_sample_def store_compensation_def Let_def)

lemma freshly_sampled_take:
  "measured_signals (ds_type (ad_spec d)) \<le> length sigs \<Longrightarrow>
     freshly_sampled now t sigs d (take_sample ops dv config i now t sigs d)"
  using arg_cong [OF take_sample_cache [of ops dv config i now t sigs d], of failure_count]
    arg_cong [OF take_sample_cache [of ops dv config i now t sigs d], of success_count]
    arg_cong [OF take_sample_cache [of ops dv config i now t sigs d], of sample_sequence]
  by (auto simp: freshly_sampled_def measured_take length_updates intro!: nth_equalityI)

lemma freshly_sampled_store:
  assumes "freshly_sampled now t sigs d d1" and "ad_spec d1 = ad_spec d"
    and "measured_signals (ds_type (ad_spec d)) \<le> length (sample_signals (ad_sample d1))"
  shows "freshly_sampled now t sigs d (store_compensation ops dv st reading re d1)"
proof -
  note eq = store_compensation_sample(2) [of ops dv st reading re d1]
  have "take (measured_signals (ds_type (ad_spec d))) (sample_signals (ad_sample (store_compensation ops dv st reading re d1))) =
      take (measured_signals (ds_type (ad_spec d))) (sample_signals (ad_sample d1))"
    using assms(2,3) by (auto simp: measured_store length_updates intro!: nth_equalityI)
  then show ?thesis
    using assms(1) arg_cong [OF eq, of has_sample] arg_cong [OF eq, of last_read_ok] arg_cong [OF eq, of last_error]
      arg_cong [OF eq, of sampled_at] arg_cong [OF eq, of sampled_at_steady] arg_cong [OF eq, of success_count]
      arg_cong [OF eq, of failure_count] arg_cong [OF eq, of sample_sequence]
    by (simp add: freshly_sampled_def)
qed

lemma measured_le: "measured_signals t \<le> length (signals (adapter_for ops dv t))"
  by (cases t) (simp_all add: on_demand_slots)

text \<open>A successful read, including the compensation check it may set off.\<close>

lemma sample_taken_device:
  assumes "run_state (sample_taken p i st warning due) w = (st', w')" and "active_device i w = Some d1"
    and "freshly_sampled now t sigs d d1" and "ad_spec d1 = ad_spec d"
    and "measured_signals (ds_type (ad_spec d)) \<le> length (sample_signals (ad_sample d1))"
  shows "st' = st \<and> (\<exists>d'. active_device i w' = Some d' \<and> freshly_sampled now t sigs d d')"
proof -
  have *: "st' = st \<and> (\<exists>d'. active_device i w' = Some d' \<and> freshly_sampled now t sigs d d')"
    if "run_state (sample_taken p i st None due) w1 = (st', w')" and d1: "active_device i w1 = Some d1" for w1
  proof -
    obtain st2 w2 where run: "run_state (check_compensation p i) w1 = (st2, w2)" by fastforce
    have "\<exists>d'. active_device i w2 = Some d' \<and> freshly_sampled now t sigs d d'"
      using check_compensation_device [OF run d1] freshly_sampled_store [OF assms(3-5)] assms(3) by auto
    with that assms(3) show ?thesis by (auto simp: sample_taken_def run split: if_splits)
  qed
  show ?thesis
  proof (cases warning)
    case None
    then show ?thesis using * assms(1,2) by simp
  next
    case (Some msg)
    then have "run_state (sample_taken p i st None due) (w\<lparr>logged := logged w @ [log_line ''WARN'' msg]\<rparr>) = (st', w')"
      using assms(1) by (simp add: sample_taken_def)
    from * [OF this] assms(2) show ?thesis by simp
  qed
qed

lemma refresh_device_outcome:
  assumes "run_state (refresh_device_sample p i) w = (st, w')" and "active_device i w = Some d" and "i \<noteq> ''''"
  shows "if is_ok st
    then (\<exists>d' e sigs b'. active_device i w' = Some d' \<and> g_executor w = Some e \<and>
      run_state (sample_job p (ad_spec d)) (the (ex_bus e)) = ((st, sigs), b') \<and>
      freshly_sampled (system_clock p (clock_reads w)) (steady_clock p (clock_reads w + 1)) sigs d d')
    else active_device i w' = Some (fail_sample st d)"
proof -
  obtain st1 out w1 where run: "run_state (submit_i2c_job p (job_for ''sample:'' i) (refresh_timeout_ms (rs_config (g_state w)) 1)
      (sample_job p (ad_spec d))) w = ((st1, out), w1)"
    by (metis surj_pair)
  note kept = submitted_device [OF run, of i]
  have fin: "run_state (sample_finished p i (rs_config (g_state w)) (st1, out)) w1 = (st, w')"
    using assms by (simp add: refresh_device_sample_def run)
  show ?thesis
  proof (cases "is_ok st1")
    case False
    then show ?thesis using fin kept assms(2) by (auto simp: sample_finished_def active_device_same)
  next
    case True
    from submit_i2c_job_ok [OF run True] obtain e b' sigs
      where out: "out = Some sigs" and job: "run_state (sample_job p (ad_spec d)) (the (ex_bus e)) = ((st1, sigs), b')"
        and e: "g_executor w = Some e" by blast
    let ?now = "system_clock p (clock_reads w)" and ?t = "steady_clock p (clock_reads w + 1)"
    define d1 where "d1 = take_sample (bops p) (drv p) (rs_config (g_state w)) i ?now ?t sigs d"
    have len: "measured_signals (ds_type (ad_spec d)) \<le> length sigs"
      using sample_job_length [OF job True] measured_le by metis
    have d1: "freshly_sampled ?now ?t sigs d d1" "ad_spec d1 = ad_spec d"
      "measured_signals (ds_type (ad_spec d)) \<le> length (sample_signals (ad_sample d1))"
      using freshly_sampled_take [OF len] len ad_spec_static [OF static_updates(1)]
      by (simp_all add: d1_def length_updates)
    obtain warning due w2 where taken: "run_state (sample_taken p i st1 warning due) w2 = (st, w')"
      and w2: "active_device i w2 = Some d1"
      using fin kept assms(2) True
      by (fastforce simp: sample_finished_def out d1_def active_device_same Let_def)
    from sample_taken_device [OF taken w2 d1] True job e show ?thesis by auto
  qed
qed

text \<open>
  C21: refreshing a device, on every outcome. If the refresh fails, for whatever reason (no executor, a bus or driver
  error, a deadline), only the failure is noted: the latest read is marked failed with its error text, the failure count
  advances by one and the lag streak starts again; the last good sample, its time, the success count, the sequence number
  and everything else of the device stay as they were. If it succeeds, the sample was produced by running the device's sample job on the executor's bus, carries its
  measured values and the time at which the job was finished, and the counters advance by one, also when the periodic
  compensation check runs with it and whatever that check finds.
\<close>

theorem refresh_outcome:
  assumes "run_state (refresh_device_sample p i) w = (st, w')" and "active_device i w = Some d" and "i \<noteq> ''''"
  shows "if is_ok st
    then (\<exists>d' e sigs b'. active_device i w' = Some d' \<and> g_executor w = Some e \<and>
      run_state (sample_job p (ad_spec d)) (the (ex_bus e)) = ((st, sigs), b') \<and>
      freshly_sampled (system_clock p (clock_reads w)) (steady_clock p (clock_reads w + 1)) sigs d d')
    else active_device i w' = Some (d\<lparr>ad_sample := (ad_sample d)\<lparr>last_read_ok := False, last_error := message st,
      failure_count := failure_count (ad_sample d) + 1, consecutive_lagging_gaps := 0\<rparr>\<rparr>)"
  using refresh_device_outcome [OF assms] unfolding fail_sample_def Let_def .

text \<open>
  C23: refreshing the calibration level of a pH or DO device. On success the level is the one a run of the family's
  reader on the executor's bus returned; on any failure the level is unknown and says why. The level from before is
  never kept.
\<close>

theorem level_outcome:
  assumes "run_state (refresh_calibration_level p i) w = (st, w')" and "active_device i w = Some d"
    and "ds_type (ad_spec d) \<in> {Ph, Do}"
  shows "\<exists>d'. active_device i w' = Some d' \<and>
    (if is_ok st
     then calibration_level_error d' = '''' \<and>
       (\<exists>e reader level b'. g_executor w = Some e \<and>
          read_calibration_level (adapter_for (bops p) (drv p) (ds_type (ad_spec d))) = Some reader \<and>
          run_state (level_job p (ad_spec d) reader) (the (ex_bus e)) = ((st, level), b') \<and>
          calibration_level d' = Some level)
     else calibration_level d' = None \<and> calibration_level_error d' = ''calibration level unknown: '' @ message st)"
proof -
  obtain reader where reader: "read_calibration_level (adapter_for (bops p) (drv p) (ds_type (ad_spec d))) = Some reader"
    using assms(3) by (auto simp: adapter_for.simps adapters)
  from assms(1,2) reader obtain level
    where "active_device i w' = Some (store_calibration_level (bops p) (drv p) st level d)"
      and "is_ok st \<longrightarrow> (\<exists>e b'. g_executor w = Some e \<and> run_state (level_job p (ad_spec d) reader) (the (ex_bus e)) = ((st, level), b'))"
    by (rule refresh_level_cases)
  with reader show ?thesis by (auto simp: store_calibration_level_def)
qed

text \<open>What one run of the compensation job did, when it succeeded.\<close>

lemma compensation_job_ok:
  assumes "run_state (compensation_job p spec set_v reader writer) b = ((st, (reading, re)), b')" and "is_ok st"
  shows "\<exists>bst binding st0 reading0 b0.
    bind_ezo_i2c_device (bops p) (drv p) (word_of_int (ds_address spec)) (new_binding (drv p)) = (bst, binding) \<and> is_ok bst \<and>
    run_state (reader (bd_device binding) empty_CompensationReading) b = ((st0, reading0), b0) \<and> is_ok st0 \<and>
    re = (\<not> holds_all set_v (cr_values reading0)) \<and>
    (if re then \<exists>st1 b1. run_state (writer (bd_device binding) set_v) b0 = (st1, b1) \<and> is_ok st1 \<and>
                 run_state (reader (bd_device binding) reading0) b1 = ((st, reading), b')
     else reading = reading0 \<and> b' = b0)"
proof -
  obtain bst bd where bind: "bind_ezo_i2c_device (bops p) (drv p) (word_of_int (ds_address spec)) (new_binding (drv p)) = (bst, bd)"
    by fastforce
  have bst: "is_ok bst" using assms by (cases "is_ok bst") (auto simp: compensation_job_def bound_job_def bind)
  obtain st0 reading0 b0 where read: "run_state (reader (bd_device bd) empty_CompensationReading) b = ((st0, reading0), b0)"
    by (metis surj_pair)
  obtain st1 b1 where "write": "run_state (writer (bd_device bd) set_v) b0 = (st1, b1)" by fastforce
  have "is_ok st0" and "re = (\<not> holds_all set_v (cr_values reading0))" and "re \<longrightarrow> is_ok st1"
    and "if re then run_state (reader (bd_device bd) reading0) b1 = ((st, reading), b') else reading = reading0 \<and> b' = b0"
    using assms bst by (auto simp: compensation_job_def bound_job_def bind read "write" is_ok_def split: if_splits prod.splits)
  with read "write" bind bst show ?thesis by fastforce
qed

text \<open>
  C22: a compensation check on a pH or DO device. It never changes the values set by the user. When it succeeds, the
  probe at the device's address was read; if it still held every set value (within the read-back tolerance) that was all that was
  done to the bus, and the reading is published; otherwise the set values were sent, the probe was read again, nothing
  else was done to the bus, and that reading is published with the re-application counted. When it fails, the
  reading is unknown and says why.
\<close>

theorem compensation_check_outcome:
  assumes "run_state (check_compensation p i) w = (st, w')" and "active_device i w = Some d"
    and "ds_type (ad_spec d) \<in> {Ph, Do}"
  shows "\<exists>d'. active_device i w' = Some d' \<and> compensation_set d' = compensation_set d \<and>
    (if is_ok st
     then compensation_error d' = '''' \<and>
       (\<exists>e e' reader writer bst binding st0 reading0 b0. g_executor w = Some e \<and> g_executor w' = Some e' \<and>
          read_compensation (adapter_for (bops p) (drv p) (ds_type (ad_spec d))) = Some reader \<and>
          write_compensation (adapter_for (bops p) (drv p) (ds_type (ad_spec d))) = Some writer \<and>
          bind_ezo_i2c_device (bops p) (drv p) (word_of_int (ds_address (ad_spec d))) (new_binding (drv p)) = (bst, binding) \<and>
          is_ok bst \<and>
          run_state (reader (bd_device binding) empty_CompensationReading) (the (ex_bus e)) = ((st0, reading0), b0) \<and> is_ok st0 \<and>
          (if holds_all (compensation_set d) (cr_values reading0)
           then ex_bus e' = Some b0 \<and> compensation_read d' = reading0 \<and>
             compensation_reapplied_count d' = compensation_reapplied_count d
           else \<exists>st1 b1 b2. run_state (writer (bd_device binding) (compensation_set d)) b0 = (st1, b1) \<and> is_ok st1 \<and>
             run_state (reader (bd_device binding) reading0) b1 = ((st, compensation_read d'), b2) \<and> ex_bus e' = Some b2 \<and>
             compensation_reapplied_count d' = compensation_reapplied_count d + 1))
     else compensation_read d' = empty_CompensationReading \<and>
       compensation_error d' = ''compensation unknown: '' @ message st)"
proof -
  obtain reader writer where rw: "read_compensation (adapter_for (bops p) (drv p) (ds_type (ad_spec d))) = Some reader"
    "write_compensation (adapter_for (bops p) (drv p) (ds_type (ad_spec d))) = Some writer"
    using assms(3) by (auto simp: adapter_for.simps adapters)
  from assms(1,2) rw obtain reading re
    where d': "active_device i w' = Some (store_compensation (bops p) (drv p) st reading re d)"
      and job: "is_ok st \<longrightarrow> (\<exists>e e' b'. g_executor w = Some e \<and> g_executor w' = Some e' \<and> ex_bus e' = Some b' \<and>
        run_state (compensation_job p (ad_spec d) (compensation_set d) reader writer) (the (ex_bus e)) = ((st, (reading, re)), b'))"
    by (rule check_compensation_cases)
  show ?thesis
  proof (cases "is_ok st")
    case True
    from job True obtain e e' b' where e: "g_executor w = Some e" "g_executor w' = Some e'" "ex_bus e' = Some b'"
      and run: "run_state (compensation_job p (ad_spec d) (compensation_set d) reader writer) (the (ex_bus e)) = ((st, (reading, re)), b')"
      by blast
    from compensation_job_ok [OF run True] d' True rw e show ?thesis
      by (cases re) (fastforce simp: store_compensation_def Let_def)+
  next
    case False
    with d' show ?thesis by (auto simp: store_compensation_def Let_def)
  qed
qed

subsection \<open>A concrete platform\<close>

text \<open>One pH probe that reads 7.0, has a two-point calibration and holds 25 degrees; the bus counts the commands sent.\<close>

definition demo_driver :: "(nat, unit) ezo_driver" where
  "demo_driver = one_ph_driver
     \<lparr>ezo_ph_send_calibration_query := (\<lambda>_. State (\<lambda>n. ((EZO_OK, 300), n + 1))),
      ezo_ph_read_calibration_status := (\<lambda>_. State_Monad.return (EZO_OK, 2)),
      ezo_ph_send_temperature_query := (\<lambda>_. State (\<lambda>n. ((EZO_OK, 300), n + 1))),
      ezo_ph_read_temperature := (\<lambda>_. State_Monad.return (EZO_OK, Fin 25))\<rparr>"

definition demo_platform :: "(nat, unit, unit) platform" where
  "demo_platform =
     \<lparr>claim_key = (\<lambda>bus a. bus), add_claim = (\<lambda>d k. d), bops = stub_ops, drv = demo_driver, linux_build = False,
      split_bus_query = (\<lambda>path. (path, '''')), canned_bus = (\<lambda>_ _. 0), fault_any = (\<lambda>_. False),
      fault_bus = (\<lambda>b _. b), linux_bus = (\<lambda>_ _. 0), noop_bus = (\<lambda>_. 0), i2c_check_host = (\<lambda>_. []),
      host_exit_code = (\<lambda>_. 0), readiness_diagnostics = (\<lambda>_ _. None), system_clock = (\<lambda>n. int n),
      steady_clock = (\<lambda>n. int n), schedule_of = (\<lambda>_. InTime)\<rparr>"

definition demo_spec :: DeviceSpec where
  "demo_spec = \<lparr>ds_id = ''ph0'', ds_type = Ph, ds_label = '''', ds_address = 99\<rparr>"

definition demo_device :: ActiveDevice where
  "demo_device = activate demo_platform default_ProviderConfig demo_spec default_info"

definition demo_world :: "(nat, unit) world" where
  "demo_world = initial_world
     \<lparr>g_state := new_RuntimeState\<lparr>active_devices := [demo_device]\<rparr>,
      g_executor := Some (snd (exec_start stub_ops (BusExecutor_new (Some 0))))\<rparr>"

lemma demo_platform_sel [simp]: "bops demo_platform = stub_ops" "drv demo_platform = demo_driver"
  by (simp_all add: demo_platform_def)

lemma demo_active: "active_device ''ph0'' demo_world = Some demo_device"
  by (simp add: active_device_def demo_world_def find_active_device_unlocked_def has_id_def demo_device_def demo_spec_def)

lemma demo_type: "ds_type (ad_spec demo_device) = Ph"
  by (simp add: demo_device_def demo_spec_def)

lemma demo_submit:
  "0 < t \<Longrightarrow> fst (run_state (submit_i2c_job demo_platform n t job) demo_world) =
     (case run_state job 0 of ((st, out), b) \<Rightarrow> (st, Some out))"
  by (simp add: submit_i2c_job_def demo_world_def exec_start_def BusExecutor_new_def stub_ops_def submit_def
      submit_refused_def demo_platform_def Let_def split: prod.split)

lemma demo_sample_job: "fst (fst (run_state (sample_job demo_platform (ad_spec demo_device)) 0)) = Status_ok"
  by (simp add: sample_job_def bound_job_def bind_ezo_i2c_device_def demo_type adapter_for.simps ph_kAdapter_def ph_read_sample_def exchange_def
       demo_driver_def one_ph_driver_def stub_for_def new_binding_def
        wait_for_timing_hint_def bus_delay_def stub_ops_def Let_def)

lemmas demo_evaluate = bound_job_def bind_ezo_i2c_device_def demo_type adapter_for.simps ph_kAdapter_def exchange_def
  demo_driver_def one_ph_driver_def stub_for_def new_binding_def wait_for_timing_hint_def bus_delay_def stub_ops_def Let_def

lemma demo_level_job:
  "fst (run_state (level_job demo_platform (ad_spec demo_device) (ph_read_calibration_level stub_ops demo_driver)) 0) =
     (Status_ok, double_of_int 2)"
  by (simp add: level_job_def ph_read_calibration_level_def demo_evaluate)

lemma demo_set: "compensation_set demo_device = empty_Compensation"
  by (simp add: demo_device_def activate_def Let_def)

lemma demo_compensation_job:
  "fst (fst (run_state (compensation_job demo_platform (ad_spec demo_device) (compensation_set demo_device)
     (ph_read_compensation stub_ops demo_driver) (ph_write_compensation stub_ops demo_driver)) 0)) = Status_ok"
  by (simp add: demo_set compensation_job_def ph_read_compensation_def demo_evaluate holds_all_def holds_def empty_Compensation_def)

lemma demo_ran: "0 < t \<Longrightarrow> fst (fst (run_state (submit_i2c_job demo_platform n t job) demo_world)) = fst (fst (run_state job 0))"
  by (simp add: demo_submit split: prod.split)

lemma refresh_timeout_pos: "0 < refresh_timeout_ms default_ProviderConfig k"
  by (simp add: refresh_timeout_ms_def default_ProviderConfig_def)

lemma demo_config: "rs_config (g_state demo_world) = default_ProviderConfig"
  by (simp add: demo_world_def new_RuntimeState_def)

lemma sample_taken_status: "fst (run_state (sample_taken p i st warning due) w) = st"
  by (simp add: sample_taken_def split: option.split prod.split)

lemma refresh_status:
  assumes "active_device i w = Some d"
  shows "i \<noteq> '''' \<Longrightarrow> fst (run_state (refresh_device_sample p i) w) =
    fst (fst (run_state (submit_i2c_job p (job_for ''sample:'' i) (refresh_timeout_ms (rs_config (g_state w)) 1)
      (sample_job p (ad_spec d))) w))"
proof -
  obtain st out w1 where run: "run_state (submit_i2c_job p (job_for ''sample:'' i) (refresh_timeout_ms (rs_config (g_state w)) 1)
      (sample_job p (ad_spec d))) w = ((st, out), w1)" by (metis surj_pair)
  show "i \<noteq> '''' \<Longrightarrow> ?thesis"
    using assms submitted_device [OF run, of i]
    by (simp add: run refresh_device_sample_def sample_finished_def sample_taken_status Let_def)
qed

lemma level_status:
  assumes "active_device i w = Some d"
    and "read_calibration_level (adapter_for (bops p) (drv p) (ds_type (ad_spec d))) = Some reader"
  shows "fst (run_state (refresh_calibration_level p i) w) =
    fst (fst (run_state (submit_i2c_job p (job_for ''calibration-level:'' i) (refresh_timeout_ms (rs_config (g_state w)) 1)
      (level_job p (ad_spec d) reader)) w))"
proof -
  obtain st out w1 where run: "run_state (submit_i2c_job p (job_for ''calibration-level:'' i)
      (refresh_timeout_ms (rs_config (g_state w)) 1) (level_job p (ad_spec d) reader)) w = ((st, out), w1)"
    by (metis surj_pair)
  show ?thesis
    using assms submitted_device [OF run, of i] by (simp add: run refresh_calibration_level_def level_finished_def)
qed

lemma check_status:
  assumes "active_device i w = Some d"
    and "read_compensation (adapter_for (bops p) (drv p) (ds_type (ad_spec d))) = Some reader"
    and "write_compensation (adapter_for (bops p) (drv p) (ds_type (ad_spec d))) = Some writer"
  shows "fst (run_state (check_compensation p i) w) =
    fst (fst (run_state (submit_i2c_job p (job_for ''compensation:'' i) (refresh_timeout_ms (rs_config (g_state w)) 9)
      (compensation_job p (ad_spec d) (compensation_set d) reader writer)) w))"
proof -
  obtain st out w1 where run: "run_state (submit_i2c_job p (job_for ''compensation:'' i)
      (refresh_timeout_ms (rs_config (g_state w)) 9) (compensation_job p (ad_spec d) (compensation_set d) reader writer)) w =
      ((st, out), w1)"
    by (metis surj_pair)
  show ?thesis
    using assms submitted_device [OF run, of i]
    by (simp add: run check_compensation_def compensation_finished_def split: prod.split)
qed

lemma demo_adapter:
  "read_calibration_level (adapter_for (bops demo_platform) (drv demo_platform) (ds_type (ad_spec demo_device))) =
     Some (ph_read_calibration_level stub_ops demo_driver)"
  "read_compensation (adapter_for (bops demo_platform) (drv demo_platform) (ds_type (ad_spec demo_device))) =
     Some (ph_read_compensation stub_ops demo_driver)"
  "write_compensation (adapter_for (bops demo_platform) (drv demo_platform) (ds_type (ad_spec demo_device))) =
     Some (ph_write_compensation stub_ops demo_driver)"
  by (simp_all add: demo_type adapter_for.simps ph_kAdapter_def)

lemma demo_statuses:
  "fst (run_state (refresh_device_sample demo_platform ''ph0'') demo_world) = Status_ok"
  "fst (run_state (refresh_calibration_level demo_platform ''ph0'') demo_world) = Status_ok"
  "fst (run_state (check_compensation demo_platform ''ph0'') demo_world) = Status_ok"
  by (simp_all add: refresh_status [OF demo_active] level_status [OF demo_active demo_adapter(1)]
      check_status [OF demo_active demo_adapter(2,3)] demo_config demo_ran refresh_timeout_pos demo_sample_job demo_level_job
      demo_compensation_job del: demo_platform_sel)

theorem refresh_outcome_witness:
  "\<exists>w' d'. run_state (refresh_device_sample demo_platform ''ph0'') demo_world = (Status_ok, w') \<and>
     active_device ''ph0'' w' = Some d' \<and> has_sample (ad_sample d') \<and> success_count (ad_sample d') = 1"
proof -
  obtain w' where run: "run_state (refresh_device_sample demo_platform ''ph0'') demo_world = (Status_ok, w')"
    using demo_statuses(1) by (metis prod.collapse)
  then show ?thesis
    using refresh_outcome [OF run demo_active]
    by (auto simp: freshly_sampled_def demo_device_def activate_def Let_def new_DeviceSampleCache_def)
qed

theorem level_outcome_witness:
  "\<exists>w' d'. run_state (refresh_calibration_level demo_platform ''ph0'') demo_world = (Status_ok, w') \<and>
     active_device ''ph0'' w' = Some d' \<and> calibration_level d' \<noteq> None"
proof -
  obtain w' where run: "run_state (refresh_calibration_level demo_platform ''ph0'') demo_world = (Status_ok, w')"
    using demo_statuses(2) by (metis prod.collapse)
  then show ?thesis using level_outcome [OF run demo_active] by (auto simp: demo_type)
qed

theorem compensation_check_outcome_witness:
  "\<exists>w' d'. run_state (check_compensation demo_platform ''ph0'') demo_world = (Status_ok, w') \<and>
     active_device ''ph0'' w' = Some d' \<and> compensation_set d' = empty_Compensation \<and> compensation_error d' = ''''"
proof -
  obtain w' where run: "run_state (check_compensation demo_platform ''ph0'') demo_world = (Status_ok, w')"
    using demo_statuses(3) by (metis prod.collapse)
  then show ?thesis using compensation_check_outcome [OF run demo_active] by (auto simp: demo_type demo_set)
qed

end
