(* ===== verification/Ezo_Calls.thy ===== *)
theory Ezo_Calls
  imports Ezo_Runtime
begin

text \<open>
  Control calls (the call half of \<^verbatim>\<open>src/core/ezo_provider_runtime.cpp\<close>): the argument checks, the bus job of each
  function, and the call operation that records results and re-reads what a call may have changed. The SDK's own
  functions are the parameter \<open>provider_sdk\<close>.
\<close>

section \<open>Messages and the SDK\<close>

record AdapterCallResult =
  acr_ok :: bool
  acr_code :: AdppCode
  acr_message :: string

text \<open>\<open>'q\<close> is the protocol's quality enumeration.\<close>

record 'q provider_sdk =
  quality_from :: "bool \<Rightarrow> bool \<Rightarrow> bool \<Rightarrow> int \<Rightarrow> int \<Rightarrow> 'q"
  QUALITY_UNKNOWN :: 'q
  call_invalid_argument :: "string \<Rightarrow> AdapterCallResult"
  call_out_of_range :: "string \<Rightarrow> AdapterCallResult"
  call_not_found :: "string \<Rightarrow> AdapterCallResult"
  provider_version :: string

text \<open>A protobuf value: its declared type, and what each getter returns (the default when another field is set).\<close>

record Value =
  v_type :: ValueType
  bool_value :: bool
  double_value :: double
  string_value :: string

text \<open>The argument map, in iteration order; the keys are distinct.\<close>

type_synonym ValueMap = "(string \<times> Value) list"

section \<open>Helpers\<close>

definition find_device :: "'r RuntimeState \<Rightarrow> string \<Rightarrow> ActiveDevice option" where
  "find_device st i = find (\<lambda>d. ds_id (ad_spec d) = i) (active_devices st)"

definition find_function_by_id :: "ActiveDevice \<Rightarrow> u32 \<Rightarrow> FunctionSpec option" where
  "find_function_by_id d fid = find (\<lambda>f. fn_function_id f = fid) (cap_functions (ad_capabilities d))"

definition find_function_by_name :: "ActiveDevice \<Rightarrow> string \<Rightarrow> FunctionSpec option" where
  "find_function_by_name d name = find (\<lambda>f. fn_name f = name) (cap_functions (ad_capabilities d))"

section \<open>Argument checks\<close>

record ControlArgs =
  led_enabled :: bool
  calibration_point :: int
  reference_ph :: double
  ca_compensation :: Compensation
  restore :: Compensation

definition new_ControlArgs :: ControlArgs where
  "new_ControlArgs = \<lparr>led_enabled = False, calibration_point = 0, reference_ph = Fin 0,
     ca_compensation = empty_Compensation, restore = empty_Compensation\<rparr>"

definition calibration_points :: "EzoDeviceType \<Rightarrow> string list" where
  "calibration_points type =
     (if type = Ph then [''mid'', ''low'', ''high''] else if type = Do then [''atmospheric'', ''zero''] else [])"

text \<open>A check yields the error to return, or the arguments for the bus job.\<close>

definition join_names :: "string list \<Rightarrow> string" where
  "join_names names = foldl (\<lambda>acc name. acc @ (if acc = '''' then '''' else '', '') @ name) '''' names"

definition validate_calibrate_args ::
    "'q provider_sdk \<Rightarrow> EzoDeviceType \<Rightarrow> ValueMap \<Rightarrow> AdapterCallResult + ControlArgs" where
  "validate_calibrate_args sdk type args =
     (case map_of args ''point'' of
        None \<Rightarrow> Inl (call_invalid_argument sdk (''missing required arg '' @ quoted ''point''))
      | Some point \<Rightarrow>
          if v_type point \<noteq> VALUE_TYPE_STRING
          then Inl (call_invalid_argument sdk (''arg '' @ quoted ''point'' @ '' must be VALUE_TYPE_STRING''))
          else case index_from 0 (\<lambda>n. n = string_value point) (calibration_points type) of
            None \<Rightarrow> Inl (call_invalid_argument sdk (''arg '' @ quoted ''point'' @ '' must be one of: '' @
                      join_names (calibration_points type)))
          | Some chosen \<Rightarrow>
              let out = new_ControlArgs\<lparr>calibration_point := int chosen\<rparr> in
              if type \<noteq> Ph then
                if length args \<noteq> 1 then Inl (call_invalid_argument sdk ''calibrate accepts only one arg: point'')
                else Inr out
              else case map_of args ''reference_ph'' of
                None \<Rightarrow> Inl (call_invalid_argument sdk (''missing required arg '' @ quoted ''reference_ph''))
              | Some reference \<Rightarrow>
                  if length args \<noteq> 2
                  then Inl (call_invalid_argument sdk ''calibrate accepts only two args: point, reference_ph'')
                  else if v_type reference \<noteq> VALUE_TYPE_DOUBLE
                  then Inl (call_invalid_argument sdk (''arg '' @ quoted ''reference_ph'' @ '' must be VALUE_TYPE_DOUBLE''))
                  else if \<not> isfinite (double_value reference)
                  then Inl (call_invalid_argument sdk (''arg '' @ quoted ''reference_ph'' @ '' must be finite''))
                  else if double_value reference < Fin 0 \<or> double_value reference > Fin 14
                  then Inl (call_out_of_range sdk (''arg '' @ quoted ''reference_ph'' @ '' must be between 0 and 14''))
                  else Inr (out\<lparr>reference_ph := double_value reference\<rparr>))"

record Field =
  field_name :: string
  field_min :: double
  field_max :: double
  field_target :: "double \<Rightarrow> Compensation \<Rightarrow> Compensation"

definition compensation_fields :: "EzoDeviceType \<Rightarrow> Field list" where
  "compensation_fields type =
     [\<lparr>field_name = ''temperature_c'', field_min = kMinTemperatureC, field_max = kMaxTemperatureC,
       field_target = (\<lambda>x c. c\<lparr>temperature_c := Some x\<rparr>)\<rparr>] @
     (if type = Do then
        [\<lparr>field_name = ''salinity_us_cm'', field_min = kMinSalinityUsCm, field_max = kMaxSalinityUsCm,
          field_target = (\<lambda>x c. c\<lparr>salinity_us_cm := Some x\<rparr>)\<rparr>,
         \<lparr>field_name = ''pressure_kpa'', field_min = kMinPressureKpa, field_max = kMaxPressureKpa,
          field_target = (\<lambda>x c. c\<lparr>pressure_kpa := Some x\<rparr>)\<rparr>]
      else [])"

text \<open>
  \<^verbatim>\<open>std::format("{}", x)\<close> on a non-negative integral double: the shorter of the plain and the scientific form,
  the plain one when they are equally long. The bounds are the only doubles the provider prints.
\<close>

definition format_integral :: "double \<Rightarrow> string" where
  "format_integral x =
     (case x of
        Fin q \<Rightarrow>
          let digits = show_nat (nat \<lfloor>q\<rfloor>);
              mantissa = rev (dropWhile (\<lambda>c. c = CHR ''0'') (rev digits));
              e = show_nat (length digits - 1);
              scientific = take 1 mantissa @ (if length mantissa \<le> 1 then '''' else CHR ''.'' # drop 1 mantissa) @
                ''e+'' @ (if length e < 2 then CHR ''0'' # e else e)
          in if mantissa = '''' \<or> length digits \<le> length scientific then digits else scientific
      | _ \<Rightarrow> '''')"

fun validate_fields ::
    "'q provider_sdk \<Rightarrow> Field list \<Rightarrow> ValueMap \<Rightarrow> Compensation \<Rightarrow> AdapterCallResult + Compensation" where
  "validate_fields sdk table [] c = Inr c"
| "validate_fields sdk table ((name, v) # args) c =
     (case find (\<lambda>f. name = field_name f) table of
        None \<Rightarrow> Inl (call_invalid_argument sdk (''set_compensation does not take arg '' @ quoted name))
      | Some field \<Rightarrow>
          if v_type v \<noteq> VALUE_TYPE_DOUBLE
          then Inl (call_invalid_argument sdk (''arg '' @ quoted name @ '' must be VALUE_TYPE_DOUBLE''))
          else if \<not> isfinite (double_value v)
          then Inl (call_invalid_argument sdk (''arg '' @ quoted name @ '' must be finite''))
          else if double_value v < field_min field \<or> double_value v > field_max field
          then Inl (call_out_of_range sdk (''arg '' @ quoted name @ '' must be between '' @
                  format_integral (field_min field) @ '' and '' @ format_integral (field_max field)))
          else validate_fields sdk table args (field_target field (double_value v) c))"

definition validate_compensation_args ::
    "'q provider_sdk \<Rightarrow> EzoDeviceType \<Rightarrow> ValueMap \<Rightarrow> AdapterCallResult + ControlArgs" where
  "validate_compensation_args sdk type args =
     (case validate_fields sdk (compensation_fields type) args empty_Compensation of
        Inl e \<Rightarrow> Inl e
      | Inr c \<Rightarrow>
          if temperature_c c = None
          then Inl (call_invalid_argument sdk (''missing required arg '' @ quoted ''temperature_c''))
          else Inr (new_ControlArgs\<lparr>ca_compensation := c\<rparr>))"

definition validate_call_args ::
    "'q provider_sdk \<Rightarrow> u32 \<Rightarrow> EzoDeviceType \<Rightarrow> ValueMap \<Rightarrow> AdapterCallResult + ControlArgs" where
  "validate_call_args sdk fid type args =
     (if fid = kFunctionFind \<or> fid = kFunctionSleep \<or> fid = kFunctionClearCalibration then
        if args \<noteq> [] then Inl (call_invalid_argument sdk ''function does not accept args'') else Inr new_ControlArgs
      else if fid = kFunctionSetLed then
        (case map_of args ''enabled'' of
           None \<Rightarrow> Inl (call_invalid_argument sdk (''missing required arg '' @ quoted ''enabled''))
         | Some v \<Rightarrow>
             if length args \<noteq> 1 then Inl (call_invalid_argument sdk ''set_led accepts only one arg: enabled'')
             else if v_type v \<noteq> VALUE_TYPE_BOOL
             then Inl (call_invalid_argument sdk (''arg '' @ quoted ''enabled'' @ '' must be VALUE_TYPE_BOOL''))
             else Inr (new_ControlArgs\<lparr>led_enabled := bool_value v\<rparr>))
      else if fid = kFunctionCalibrate then validate_calibrate_args sdk type args
      else if fid = kFunctionSetCompensation then validate_compensation_args sdk type args
      else Inl (call_invalid_argument sdk ''unsupported function_id''))"

section \<open>Control calls on the bus\<close>

definition kResponseHeadroomMs :: int where "kResponseHeadroomMs = 1500"
definition kReferencePhDecimals :: u8 where "kReferencePhDecimals = 2"

text \<open>The command of a function, or none for a number the switch does not know.\<close>

definition send_command ::
    "('b, 'h, 'r) platform \<Rightarrow> u32 \<Rightarrow> EzoDeviceType \<Rightarrow> ezo_product \<Rightarrow> ControlArgs \<Rightarrow> 'h \<Rightarrow> ('b, sent) state option" where
  "send_command p fid type product args device =
     (if fid = kFunctionFind then Some (ezo_control_send_find (drv p) device product)
      else if fid = kFunctionSetLed
      then Some (ezo_control_send_led_set (drv p) device product (if led_enabled args then 1 else 0))
      else if fid = kFunctionSleep then Some (ezo_control_send_sleep (drv p) device product)
      else if fid = kFunctionCalibrate
      then Some (if type = Ph
                 then ezo_ph_send_calibration (drv p) device (calibration_point args) (reference_ph args) kReferencePhDecimals
                 else ezo_do_send_calibration (drv p) device (calibration_point args))
      else if fid = kFunctionClearCalibration
      then Some (if type = Ph then ezo_ph_send_clear_calibration (drv p) device
                 else ezo_do_send_clear_calibration (drv p) device)
      else None)"

definition do_defaults :: Compensation where
  "do_defaults = \<lparr>temperature_c = Some kDoDefaultTemperatureC, salinity_us_cm = Some kDoDefaultSalinityUsCm,
     pressure_kpa = Some kDoDefaultPressureKpa\<rparr>"

definition is_do_calibration :: "u32 \<Rightarrow> EzoDeviceType \<Rightarrow> bool" where
  "is_do_calibration fid type \<longleftrightarrow> fid = kFunctionCalibrate \<and> type = Do"

definition unsupported_function :: Status where
  "unsupported_function = make_status InvalidArgument ''unsupported function_id''"

text \<open>Sending a command and reading its answer, then putting back the compensation a DO calibration replaced.\<close>

definition run_command ::
    "('b, 'h, 'r) platform \<Rightarrow> u32 \<Rightarrow> bool \<Rightarrow> ControlArgs \<Rightarrow> ('h \<Rightarrow> Compensation \<Rightarrow> ('b, Status) state) \<Rightarrow> ('b, sent) state \<Rightarrow> 'h
      \<Rightarrow> ('b, Status) state" where
  "run_command p fid do_calibration args writer send device = do {
     (result, hint) \<leftarrow> send;
     if result \<noteq> EZO_OK
     then State_Monad.return (status_from_ezo_result (ezo_result_name (drv p)) result ''send control command'')
     else do {
       wait_for_timing_hint (bops p) (drv p) device hint;
       if fid = kFunctionSleep then State_Monad.return Status_ok
       else do {
         response \<leftarrow> read_command_response (bops p) (drv p) device;
         if do_calibration
         then do { _ \<leftarrow> writer device (restore args); State_Monad.return response }
         else State_Monad.return response
       }
     }
   }"

text \<open>
  The job's function pointer \<^verbatim>\<open>write_compensation\<close> is checked before a set_compensation and called unchecked in a
  DO calibration, where it is never null.
\<close>

definition call_body ::
    "('b, 'h, 'r) platform \<Rightarrow> u32 \<Rightarrow> EzoDeviceType \<Rightarrow> ezo_product \<Rightarrow> ControlArgs
      \<Rightarrow> ('h \<Rightarrow> Compensation \<Rightarrow> ('b, Status) state) option \<Rightarrow> 'h \<Rightarrow> ('b, Status) state" where
  "call_body p fid type product args write_comp device =
     (if fid = kFunctionSetCompensation then
        (case write_comp of
           None \<Rightarrow> State_Monad.return unsupported_function
         | Some writer \<Rightarrow> writer device (ca_compensation args))
      else do {
        defaults \<leftarrow> (if is_do_calibration fid type then the write_comp device do_defaults
                    else State_Monad.return Status_ok);
        if \<not> is_ok defaults
        then do {
          _ \<leftarrow> the write_comp device (restore args);
          State_Monad.return (make_status (code defaults)
            (''could not set the default compensation a DO calibration needs, so the calibration was not sent: '' @
             message defaults))
        }
        else (case send_command p fid type product args device of
                None \<Rightarrow> State_Monad.return unsupported_function
              | Some send \<Rightarrow> run_command p fid (is_do_calibration fid type) args (the write_comp) send device)
      })"

definition call_job ::
    "('b, 'h, 'r) platform \<Rightarrow> DeviceSpec \<Rightarrow> u32 \<Rightarrow> ControlArgs \<Rightarrow> ('b, Status \<times> unit) state" where
  "call_job p spec fid args =
     (let type = ds_type spec; adapter = adapter_for (bops p) (drv p) type in
      bound_job p (word_of_int (ds_address spec)) () (\<lambda>device. do {
        st \<leftarrow> call_body p fid type (expected_product adapter) args (write_compensation adapter) device;
        State_Monad.return (st, ())
      }))"

definition extra_commands :: "u32 \<Rightarrow> EzoDeviceType \<Rightarrow> int" where
  "extra_commands fid type =
     (if fid = kFunctionSetCompensation then 2 else if is_do_calibration fid type then 6 else 0)"

definition call_timeout_ms :: "int \<Rightarrow> u32 \<Rightarrow> EzoDeviceType \<Rightarrow> u32 \<Rightarrow> u32 \<Rightarrow> int" where
  "call_timeout_ms timeout fid type command_wait generic_wait =
     max timeout (to_int32 (uint command_wait) + kResponseHeadroomMs + extra_commands fid type * to_int32 (uint generic_wait))"

definition execute_safe_call ::
    "('b, 'h, 'r) platform \<Rightarrow> ActiveDevice \<Rightarrow> u32 \<Rightarrow> ControlArgs \<Rightarrow> int \<Rightarrow> ('b, 'r, AdapterCallResult) prog" where
  "execute_safe_call p d fid args timeout =
     (let type = ds_type (ad_spec d);
          product = expected_product (adapter_for (bops p) (drv p) type);
          kind = (if fid = kFunctionCalibrate then EZO_COMMAND_CALIBRATION else EZO_COMMAND_GENERIC)
      in if product = EZO_PRODUCT_UNKNOWN
         then State_Monad.return \<lparr>acr_ok = False, acr_code = CODE_INTERNAL,
                acr_message = ''unsupported configured device type for control call''\<rparr>
         else case (ezo_product_resolve_timing_hint (drv p) product kind,
                    ezo_product_resolve_timing_hint (drv p) product EZO_COMMAND_GENERIC) of
           ((r1, command_wait), (r2, generic_wait)) \<Rightarrow>
             if r1 \<noteq> EZO_OK \<or> r2 \<noteq> EZO_OK
             then State_Monad.return \<lparr>acr_ok = False, acr_code = CODE_INTERNAL,
                    acr_message = ''no command timing for the configured device type''\<rparr>
             else do {
               (st, _) \<leftarrow> submit_i2c_job p (''call:'' @ show_nat (unat fid) @ '':'' @ ds_id (ad_spec d))
                 (call_timeout_ms timeout fid type command_wait generic_wait) (call_job p (ad_spec d) fid args);
               State_Monad.return \<lparr>acr_ok = is_ok st, acr_code = map_i2c_status_code (code st), acr_message = message st\<rparr>
             })"

section \<open>The call operation\<close>

definition restore_values :: "ActiveDevice \<Rightarrow> Compensation" where
  "restore_values d =
     (let set_v = compensation_set d; held_v = cr_values (compensation_read d) in
      \<lparr>temperature_c = or_else (temperature_c set_v) (temperature_c held_v),
       salinity_us_cm = or_else (salinity_us_cm set_v) (salinity_us_cm held_v),
       pressure_kpa = or_else (pressure_kpa set_v) (pressure_kpa held_v)\<rparr>)"

text \<open>After the command: remember the values set, read the compensation back, record the result, read the level.\<close>

definition after_compensation ::
    "('b, 'h, 'r) platform \<Rightarrow> string \<Rightarrow> u32 \<Rightarrow> EzoDeviceType \<Rightarrow> string \<Rightarrow> ControlArgs \<Rightarrow> bool \<Rightarrow> ('b, 'r, unit) prog" where
  "after_compensation p i fid type name args ok =
     (if fid = kFunctionSetCompensation \<or> is_do_calibration fid type then do {
        (if ok \<and> fid = kFunctionSetCompensation then remember_compensation i (ca_compensation args)
         else State_Monad.return ());
        check \<leftarrow> check_compensation p i;
        (if \<not> is_ok check
         then log_warning (''compensation read after '' @ quoted name @ '' failed for device '' @ quoted i @ '': '' @ message check)
         else State_Monad.return ())
      } else State_Monad.return ())"

definition after_calibration :: "('b, 'h, 'r) platform \<Rightarrow> string \<Rightarrow> u32 \<Rightarrow> string \<Rightarrow> ('b, 'r, unit) prog" where
  "after_calibration p i fid name =
     (if fid = kFunctionCalibrate \<or> fid = kFunctionClearCalibration then do {
        level_status \<leftarrow> refresh_calibration_level p i;
        (if \<not> is_ok level_status
         then log_warning (''calibration-level read after '' @ quoted name @ '' failed for device '' @ quoted i @ '': '' @
                message level_status)
         else State_Monad.return ())
      } else State_Monad.return ())"

definition finish_call ::
    "('b, 'h, 'r) platform \<Rightarrow> string \<Rightarrow> u32 \<Rightarrow> string \<Rightarrow> AdapterCallResult \<Rightarrow> ('b, 'r, AdapterCallResult) prog" where
  "finish_call p i fid name result =
     (if \<not> acr_ok result then do {
        record_call_result p i name False (acr_message result);
        log_warning (''call failed for device '' @ quoted i @ '' function '' @ quoted name @ '': '' @ acr_message result);
        State_Monad.return result
      } else do {
        record_call_result p i name True '''';
        after_calibration p i fid name;
        State_Monad.return result
      })"

definition call ::
    "('b, 'h, 'r) platform \<Rightarrow> 'q provider_sdk \<Rightarrow> string \<Rightarrow> u32 \<Rightarrow> ValueMap \<Rightarrow> ('b, 'r, AdapterCallResult) prog" where
  "call p sdk i fid args = do {
     st \<leftarrow> gets snapshot;
     case find_device st i of
       None \<Rightarrow> State_Monad.return (call_not_found sdk ''unknown device_id'')
     | Some d \<Rightarrow>
         (case find_function_by_id d fid of
            None \<Rightarrow> State_Monad.return (call_not_found sdk ''unknown function_id'')
          | Some spec \<Rightarrow>
              (case validate_call_args sdk fid (ds_type (ad_spec d)) args of
                 Inl arg_error \<Rightarrow> do {
                   record_call_result p i (fn_name spec) False (acr_message arg_error);
                   State_Monad.return arg_error
                 }
               | Inr checked \<Rightarrow> do {
                   let control_args = (if is_do_calibration fid (ds_type (ad_spec d))
                                       then checked\<lparr>restore := restore_values d\<rparr> else checked);
                   result \<leftarrow> execute_safe_call p d fid control_args (timeout_ms (rs_config st));
                   after_compensation p i fid (ds_type (ad_spec d)) (fn_name spec) control_args (acr_ok result);
                   finish_call p i fid (fn_name spec) result
                 }))
   }"

definition resolve_function_id :: "('b, 'r) world \<Rightarrow> string \<Rightarrow> string \<Rightarrow> u32 option" where
  "resolve_function_id w i name =
     (case find_device (snapshot w) i of
        None \<Rightarrow> None
      | Some d \<Rightarrow> map_option fn_function_id (find_function_by_name d name))"

section \<open>Calls keep the contract of device operations\<close>

context device_frame
begin

lemma keeps_submit [keeps_intros]: "keeps_frame R (submit_i2c_job p n t job)"
  unfolding keeps_frame_def using job_then [OF prod.collapse [symmetric] R_refl] by blast

lemma keeps_ops [keeps_intros]:
  "keeps_frame R (remember_compensation i c)" "keeps_frame R (record_call_result p i fn ok msg)"
  unfolding keeps_frame_def by (blast intro: remember_compensation_R record_call_result_R)+

lemma keeps_call: "keeps_frame R (call p sdk i fid args)"
  unfolding call_def execute_safe_call_def after_compensation_def finish_call_def after_calibration_def
  by (intro keeps_intros)

end

section \<open>Advertised and checked arguments\<close>

text \<open>The contract a function advertises through its argument specifications.\<close>

definition arg_conforms :: "ArgSpec \<Rightarrow> Value \<Rightarrow> bool" where
  "arg_conforms a v \<longleftrightarrow> v_type v = arg_type a \<and>
     (case min_double a of None \<Rightarrow> True | Some lo \<Rightarrow> lo \<le> double_value v) \<and>
     (case max_double a of None \<Rightarrow> True | Some hi \<Rightarrow> double_value v \<le> hi) \<and>
     (allowed_values a = [] \<or> string_value v \<in> set (allowed_values a))"

definition args_conform :: "ArgSpec list \<Rightarrow> ValueMap \<Rightarrow> bool" where
  "args_conform specs args \<longleftrightarrow>
     list_all (\<lambda>a. arg_required a \<longrightarrow> arg_name a \<in> fst ` set args) specs \<and>
     list_all (\<lambda>(n, v). list_ex (\<lambda>a. arg_name a = n \<and> arg_conforms a v) specs) args"

definition accepted_args :: "AdapterCallResult + ControlArgs \<Rightarrow> bool" where
  "accepted_args r \<longleftrightarrow> (case r of Inl _ \<Rightarrow> False | Inr _ \<Rightarrow> True)"

lemma accepted_args_simps [simp]: "\<not> accepted_args (Inl e)" "accepted_args (Inr c)"
  by (simp_all add: accepted_args_def)

lemma in_bounds: "isfinite x \<and> \<not> x < Fin a \<and> \<not> Fin b < x \<longleftrightarrow> Fin a \<le> x \<and> x \<le> Fin b"
  by (cases x) auto

lemma args_conform_Nil: "args_conform [] args \<longleftrightarrow> args = []"
  by (cases args) (auto simp: args_conform_def)

lemma distinct_single:
  "distinct (map fst args) \<Longrightarrow> (map_of args n = Some v \<and> length args = 1) \<longleftrightarrow> args = [(n, v)]"
  by (cases args) (auto simp: length_Suc_conv)

lemma args_conform_single:
  assumes "distinct (map fst args)" and "arg_required a"
  shows "args_conform [a] args \<longleftrightarrow> (\<exists>v. map_of args (arg_name a) = Some v \<and> length args = 1 \<and> arg_conforms a v)"
proof -
  have "args_conform [a] args \<longleftrightarrow> (\<exists>v. args = [(arg_name a, v)] \<and> arg_conforms a v)"
  proof (cases args)
    case Nil
    then show ?thesis using assms(2) by (simp add: args_conform_def)
  next
    case (Cons x xs)
    then show ?thesis
      using assms by (cases xs) (auto simp: args_conform_def)
  qed
  then show ?thesis using distinct_single [OF assms(1)] by metis
qed

lemma args_conform_pair:
  assumes "distinct (map fst args)" and "arg_required a" and "arg_required b" and "arg_name a \<noteq> arg_name b"
  shows "args_conform [a, b] args \<longleftrightarrow> (\<exists>v u. map_of args (arg_name a) = Some v \<and> map_of args (arg_name b) = Some u \<and>
    length args = 2 \<and> arg_conforms a v \<and> arg_conforms b u)"
proof (intro iffI)
  assume conf: "args_conform [a, b] args"
  then have names: "fst ` set args = {arg_name a, arg_name b}"
    using assms(2,3) by (auto simp: args_conform_def list_all_iff)
  then have "length args = 2"
    using assms(1,4) by (metis card_2_iff distinct_card length_map list.set_map)
  moreover obtain v u where vu: "map_of args (arg_name a) = Some v" "map_of args (arg_name b) = Some u"
    using names by (metis insertCI map_of_eq_None_iff not_None_eq)
  moreover have "arg_conforms a v" "arg_conforms b u"
    using conf assms(4) map_of_SomeD [OF vu(1)] map_of_SomeD [OF vu(2)] by (auto simp: args_conform_def list_all_iff)
  ultimately show "\<exists>v u. map_of args (arg_name a) = Some v \<and> map_of args (arg_name b) = Some u \<and>
    length args = 2 \<and> arg_conforms a v \<and> arg_conforms b u" by blast
next
  assume "\<exists>v u. map_of args (arg_name a) = Some v \<and> map_of args (arg_name b) = Some u \<and>
    length args = 2 \<and> arg_conforms a v \<and> arg_conforms b u"
  then obtain v u where vu: "(arg_name a, v) \<in> set args" "(arg_name b, u) \<in> set args" "length args = 2"
    "arg_conforms a v" "arg_conforms b u" by (auto dest: map_of_SomeD)
  then have "set args = {(arg_name a, v), (arg_name b, u)}"
    using assms(4) by (auto simp: length_Suc_conv numeral_2_eq_2)
  then show "args_conform [a, b] args" using vu by (auto simp: args_conform_def list_all_iff)
qed

lemma validate_fields_iff:
  "(\<exists>c'. validate_fields sdk table args c = Inr c') \<longleftrightarrow>
     list_all (\<lambda>(n, v). case find (\<lambda>f. n = field_name f) table of None \<Rightarrow> False
       | Some f \<Rightarrow> v_type v = VALUE_TYPE_DOUBLE \<and> isfinite (double_value v) \<and> \<not> double_value v < field_min f \<and>
           \<not> field_max f < double_value v) args"
  by (induction sdk table args c rule: validate_fields.induct) (auto split: option.splits if_splits)

lemma validate_fields_temperature:
  "validate_fields sdk (compensation_fields t) args c = Inr c' \<Longrightarrow>
     temperature_c c' \<noteq> None \<longleftrightarrow> temperature_c c \<noteq> None \<or> ''temperature_c'' \<in> fst ` set args"
proof (induction args arbitrary: c)
  case (Cons x args)
  obtain n v where x: "x = (n, v)" by fastforce
  from Cons.prems obtain f where f: "find (\<lambda>f. n = field_name f) (compensation_fields t) = Some f"
    and rest: "validate_fields sdk (compensation_fields t) args (field_target f (double_value v) c) = Inr c'"
    by (auto simp: x split: option.splits if_splits)
  have "temperature_c (field_target f y c) \<noteq> None \<longleftrightarrow> n = ''temperature_c'' \<or> temperature_c c \<noteq> None" for y
    using f by (auto simp: compensation_fields_def split: if_splits)
  with Cons.IH [OF rest] show ?case by (auto simp: x)
qed simp

lemma accepted_no_args:
  "fid \<in> {kFunctionFind, kFunctionSleep, kFunctionClearCalibration} \<Longrightarrow>
     accepted_args (validate_call_args sdk fid t args) \<longleftrightarrow> args_conform [] args"
  by (auto simp: validate_call_args_def args_conform_Nil)

lemma accepted_set_led:
  assumes "distinct (map fst args)" and "arg_name a = ''enabled''" and "arg_required a" and "arg_type a = VALUE_TYPE_BOOL"
    and "min_double a = None" and "max_double a = None" and "allowed_values a = []"
  shows "accepted_args (validate_call_args sdk kFunctionSetLed t args) \<longleftrightarrow> args_conform [a] args"
  using assms(2-)
  by (auto simp: args_conform_single [OF assms(1,3)] arg_conforms_def validate_call_args_def function_numbers split: option.split)

lemma index_from_point: "(\<exists>k. index_from 0 (\<lambda>n. n = s) names = Some k) \<longleftrightarrow> s \<in> set names"
  using index_from_None [of 0 "\<lambda>n. n = s" names] by auto

lemma point_conforms:
  assumes "arg_type a = VALUE_TYPE_STRING" and "min_double a = None" and "max_double a = None" and "allowed_values a = names"
  shows "names \<noteq> [] \<Longrightarrow> arg_conforms a v \<longleftrightarrow> v_type v = VALUE_TYPE_STRING \<and> string_value v \<in> set names"
  using assms by (simp add: arg_conforms_def)

lemma calibration_points_nonempty: "calibration_points Do \<noteq> []" "calibration_points Ph \<noteq> []"
  by (simp_all add: calibration_points_def)

lemma points_differ: "''point'' \<noteq> ''reference_ph''"
  by simp

lemma accepted_calibrate_do:
  assumes "distinct (map fst args)" and "arg_name a = ''point''" and "arg_required a" and "arg_type a = VALUE_TYPE_STRING"
    and "min_double a = None" and "max_double a = None" and "allowed_values a = calibration_points Do"
  shows "accepted_args (validate_call_args sdk kFunctionCalibrate Do args) \<longleftrightarrow> args_conform [a] args"
proof -
  have "accepted_args (validate_calibrate_args sdk Do args) \<longleftrightarrow>
      (\<exists>v. map_of args ''point'' = Some v \<and> length args = 1 \<and> v_type v = VALUE_TYPE_STRING \<and>
        (\<exists>k. index_from 0 (\<lambda>n. n = string_value v) (calibration_points Do) = Some k))"
    by (auto simp: validate_calibrate_args_def split: option.split)
  also have "\<dots> \<longleftrightarrow> args_conform [a] args"
    unfolding args_conform_single [OF assms(1,3)] index_from_point assms(2)
    using point_conforms [OF assms(4-7)] calibration_points_nonempty by auto
  finally show ?thesis by (simp add: validate_call_args_def function_numbers)
qed

lemma accepted_calibrate_ph:
  assumes "distinct (map fst args)" and "arg_name a = ''point''" and "arg_required a" and "arg_type a = VALUE_TYPE_STRING"
    and "min_double a = None" and "max_double a = None" and "allowed_values a = calibration_points Ph"
    and "arg_name r = ''reference_ph''" and "arg_required r" and "arg_type r = VALUE_TYPE_DOUBLE"
    and "min_double r = Some (Fin 0)" and "max_double r = Some (Fin 14)" and "allowed_values r = []"
  shows "accepted_args (validate_call_args sdk kFunctionCalibrate Ph args) \<longleftrightarrow> args_conform [a, r] args"
proof -
  have reference: "arg_conforms r u \<longleftrightarrow> v_type u = VALUE_TYPE_DOUBLE \<and> Fin 0 \<le> double_value u \<and> double_value u \<le> Fin 14" for u
    using assms(10-13) by (simp add: arg_conforms_def)
  have "accepted_args (validate_calibrate_args sdk Ph args) \<longleftrightarrow>
      (\<exists>v u. map_of args ''point'' = Some v \<and> map_of args ''reference_ph'' = Some u \<and> length args = 2 \<and>
        v_type v = VALUE_TYPE_STRING \<and>
        (\<exists>k. index_from 0 (\<lambda>n. n = string_value v) (calibration_points Ph) = Some k) \<and>
        v_type u = VALUE_TYPE_DOUBLE \<and> Fin 0 \<le> double_value u \<and> double_value u \<le> Fin 14)"
    by (auto simp: validate_calibrate_args_def Let_def in_bounds [symmetric] split: option.split)
  also have "\<dots> \<longleftrightarrow> args_conform [a, r] args"
    unfolding args_conform_pair [OF assms(1,3,9), unfolded assms(2,8), OF points_differ] index_from_point
    using point_conforms [OF assms(4-7)] calibration_points_nonempty reference by auto
  finally show ?thesis by (simp add: validate_call_args_def function_numbers)
qed

text \<open>What \<^verbatim>\<open>set_compensation\<close> advertises for one of its fields.\<close>

definition field_arg :: "Field \<Rightarrow> ArgSpec \<Rightarrow> bool" where
  "field_arg f a \<longleftrightarrow> arg_name a = field_name f \<and> arg_type a = VALUE_TYPE_DOUBLE \<and> min_double a = Some (field_min f) \<and>
     max_double a = Some (field_max f) \<and> allowed_values a = [] \<and> (arg_required a \<longleftrightarrow> field_name f = ''temperature_c'')"

lemma field_arg_conforms:
  "field_arg f a \<Longrightarrow> isfinite (field_min f) \<Longrightarrow> isfinite (field_max f) \<Longrightarrow>
     arg_conforms a v \<longleftrightarrow> v_type v = VALUE_TYPE_DOUBLE \<and> isfinite (double_value v) \<and> \<not> double_value v < field_min f \<and>
       \<not> field_max f < double_value v"
  by (cases "field_min f"; cases "field_max f") (auto simp: field_arg_def arg_conforms_def in_bounds)

lemma field_arg_names: "list_all2 field_arg fs specs \<Longrightarrow> map arg_name specs = map field_name fs"
  by (induction rule: list_all2_induct) (simp_all add: field_arg_def)

lemma field_lookup_conforms:
  assumes "list_all2 field_arg fs specs" and "distinct (map field_name fs)"
    and "list_all (\<lambda>f. isfinite (field_min f) \<and> isfinite (field_max f)) fs"
  shows "(case find (\<lambda>f. n = field_name f) fs of None \<Rightarrow> False
    | Some f \<Rightarrow> v_type v = VALUE_TYPE_DOUBLE \<and> isfinite (double_value v) \<and> \<not> double_value v < field_min f \<and>
       \<not> field_max f < double_value v) \<longleftrightarrow> list_ex (\<lambda>a. arg_name a = n \<and> arg_conforms a v) specs"
  using assms
proof (induction rule: list_all2_induct)
  case (Cons f fs a specs)
  have name: "arg_name a = field_name f" using Cons(1) by (simp add: field_arg_def)
  have "field_name f \<notin> arg_name ` set specs"
    using Cons.prems(1) unfolding set_map [symmetric] field_arg_names [OF Cons(2)] by simp
  then have "\<not> list_ex (\<lambda>b. arg_name b = field_name f \<and> arg_conforms b v) specs"
    by (force simp: list_ex_iff)
  then show ?case
    using Cons field_arg_conforms [OF Cons(1), of v] by (cases "n = field_name f") (simp_all add: name)
qed simp

lemma compensation_fields_wf:
  "distinct (map field_name (compensation_fields t))"
  "list_all (\<lambda>f. isfinite (field_min f) \<and> isfinite (field_max f)) (compensation_fields t)"
  by (cases "t = Do"; simp add: compensation_fields_def kMinTemperatureC_def kMaxTemperatureC_def kMinSalinityUsCm_def
      kMaxSalinityUsCm_def kMinPressureKpa_def kMaxPressureKpa_def)+

lemma field_required:
  assumes "list_all2 field_arg fs specs" and "''temperature_c'' \<in> set (map field_name fs)"
  shows "list_all (\<lambda>a. arg_required a \<longrightarrow> arg_name a \<in> names) specs \<longleftrightarrow> ''temperature_c'' \<in> names"
proof -
  have "list_all (\<lambda>a. arg_required a \<longleftrightarrow> arg_name a = ''temperature_c'') specs"
    using assms(1) by (induction rule: list_all2_induct) (simp_all add: field_arg_def)
  moreover have "''temperature_c'' \<in> set (map arg_name specs)" using assms by (simp add: field_arg_names)
  ultimately show ?thesis by (auto simp: list_all_iff)
qed

lemma accepted_compensation:
  assumes "list_all2 field_arg (compensation_fields t) specs"
  shows "accepted_args (validate_call_args sdk kFunctionSetCompensation t args) \<longleftrightarrow> args_conform specs args"
proof -
  have "accepted_args (validate_call_args sdk kFunctionSetCompensation t args) \<longleftrightarrow>
      (\<exists>c'. validate_fields sdk (compensation_fields t) args empty_Compensation = Inr c') \<and> ''temperature_c'' \<in> fst ` set args"
  proof (cases "validate_fields sdk (compensation_fields t) args empty_Compensation")
    case (Inl e)
    then show ?thesis by (simp add: validate_call_args_def validate_compensation_args_def function_numbers)
  next
    case (Inr c')
    with validate_fields_temperature [OF Inr] show ?thesis
      by (cases "temperature_c c'")
        (simp_all add: validate_call_args_def validate_compensation_args_def function_numbers empty_Compensation_def)
  qed
  also have "\<dots> \<longleftrightarrow> args_conform specs args"
    unfolding validate_fields_iff args_conform_def field_lookup_conforms [OF assms compensation_fields_wf]
    using field_required [OF assms, of "fst ` set args"] by (auto simp: compensation_fields_def)
  finally show ?thesis .
qed

text \<open>The advertised argument lists by function number.\<close>

definition led_arg :: ArgSpec where
  "led_arg = add_arg_spec ''enabled'' VALUE_TYPE_BOOL ''LED state (true=on, false=off)'' True"

definition point_arg :: "EzoDeviceType \<Rightarrow> ArgSpec" where
  "point_arg t = (add_arg_spec ''point'' VALUE_TYPE_STRING ''Calibration point'' True)\<lparr>allowed_values := calibration_points t\<rparr>"

definition reference_arg :: ArgSpec where
  "reference_arg = (add_arg_spec ''reference_ph'' VALUE_TYPE_DOUBLE ''pH of the reference solution, as printed on it'' True)
     \<lparr>arg_unit := ''pH'', min_double := Some (Fin 0), max_double := Some (Fin 14)\<rparr>"

definition compensation_args :: "EzoDeviceType \<Rightarrow> ArgSpec list" where
  "compensation_args t =
     [add_bounded_double_arg ''temperature_c'' ''Temperature of the solution'' ''C'' kMinTemperatureC kMaxTemperatureC True] @
     (if t = Do then
        [add_bounded_double_arg ''salinity_us_cm'' ''Salinity of the solution, as conductivity'' ''uS/cm''
           kMinSalinityUsCm kMaxSalinityUsCm False,
         add_bounded_double_arg ''pressure_kpa'' ''Atmospheric pressure'' ''kPa'' kMinPressureKpa kMaxPressureKpa False]
      else [])"

lemma advertised_args:
  "map (\<lambda>f. (fn_function_id f, fn_args f)) (cap_functions (build_capabilities ops dv config t)) =
     [(kFunctionFind, []), (kFunctionSetLed, [led_arg]), (kFunctionSleep, [])] @
     (if t = Ph \<or> t = Do
      then [(kFunctionCalibrate, if t = Ph then [point_arg t, reference_arg] else [point_arg t]),
            (kFunctionClearCalibration, []), (kFunctionSetCompensation, compensation_args t)]
      else [])"
  by (cases t) (simp_all add: build_capabilities_def capability_builders empty_CapabilitySet_def led_arg_def point_arg_def
      reference_arg_def compensation_args_def calibration_points_def)

lemma compensation_args_fields: "list_all2 field_arg (compensation_fields t) (compensation_args t)"
  by (simp add: compensation_fields_def compensation_args_def field_arg_def add_bounded_double_arg_def add_arg_spec_def)

text \<open>
  C12: what is advertised is what is enforced. For every device type and every function in its capability set, the
  provider accepts the arguments of a call exactly when they conform to the argument specifications it advertises: every
  required argument present, no unknown one, each of the declared type, among the allowed values and within the
  declared bounds (which excludes infinities and NaN).
\<close>

theorem validation_matches_advertised:
  assumes "distinct (map fst args)" and "f \<in> set (cap_functions (build_capabilities ops dv config t))"
  shows "accepted_args (validate_call_args sdk (fn_function_id f) t args) \<longleftrightarrow> args_conform (fn_args f) args"
proof -
  have led: "accepted_args (validate_call_args sdk kFunctionSetLed t args) \<longleftrightarrow> args_conform [led_arg] args"
    by (rule accepted_set_led [OF assms(1)]) (simp_all add: led_arg_def add_arg_spec_def)
  have cal_do: "accepted_args (validate_call_args sdk kFunctionCalibrate Do args) \<longleftrightarrow> args_conform [point_arg Do] args"
    by (rule accepted_calibrate_do [OF assms(1)]) (simp_all add: point_arg_def add_arg_spec_def)
  have cal_ph: "accepted_args (validate_call_args sdk kFunctionCalibrate Ph args) \<longleftrightarrow>
      args_conform [point_arg Ph, reference_arg] args"
    by (rule accepted_calibrate_ph [OF assms(1)]) (simp_all add: point_arg_def reference_arg_def add_arg_spec_def)
  have "(fn_function_id f, fn_args f) \<in> set (map (\<lambda>f. (fn_function_id f, fn_args f)) (cap_functions (build_capabilities ops dv config t)))"
    using assms(2) by force
  then consider "fn_function_id f \<in> {kFunctionFind, kFunctionSleep, kFunctionClearCalibration}" "fn_args f = []"
    | "fn_function_id f = kFunctionSetLed" "fn_args f = [led_arg]"
    | "t = Ph" "fn_function_id f = kFunctionCalibrate" "fn_args f = [point_arg Ph, reference_arg]"
    | "t = Do" "fn_function_id f = kFunctionCalibrate" "fn_args f = [point_arg Do]"
    | "fn_function_id f = kFunctionSetCompensation" "fn_args f = compensation_args t"
    unfolding advertised_args by (auto split: if_splits)
  then show ?thesis
  proof cases
    case 1
    then show ?thesis using accepted_no_args [OF 1(1)] by simp
  next
    case 5
    then show ?thesis using accepted_compensation [OF compensation_args_fields] by simp
  qed (simp_all add: led cal_do cal_ph)
qed

definition demo_sdk :: "nat provider_sdk" where
  "demo_sdk = \<lparr>quality_from = (\<lambda>a h r age bound. if a \<and> h \<and> r \<and> age \<le> bound then 1 else 2), QUALITY_UNKNOWN = 0,
     call_invalid_argument = (\<lambda>m. \<lparr>acr_ok = False, acr_code = CODE_INVALID_ARGUMENT, acr_message = m\<rparr>),
     call_out_of_range = (\<lambda>m. \<lparr>acr_ok = False, acr_code = CODE_OUT_OF_RANGE, acr_message = m\<rparr>),
     call_not_found = (\<lambda>m. \<lparr>acr_ok = False, acr_code = CODE_NOT_FOUND, acr_message = m\<rparr>), provider_version = ''0.0.0''\<rparr>"

definition demo_value :: "double \<Rightarrow> Value" where
  "demo_value x = \<lparr>v_type = VALUE_TYPE_DOUBLE, bool_value = False, double_value = x, string_value = ''''\<rparr>"

theorem validation_matches_advertised_witness:
  "\<not> accepted_args (validate_call_args demo_sdk 6 Ph [(''temperature_c'', demo_value (Fin 101))]) \<and>
   accepted_args (validate_call_args demo_sdk 6 Ph [(''temperature_c'', demo_value (Fin 25))])"
proof -
  let ?fs = "cap_functions (build_capabilities stub_ops (stub_driver :: (nat, unit) ezo_driver) default_ProviderConfig Ph)"
  have "kFunctionSetCompensation \<in> set (map fn_function_id ?fs)"
    by (simp add: build_capabilities_def capability_builders empty_CapabilitySet_def)
  then obtain f where f: "f \<in> set ?fs" and fid: "fn_function_id f = kFunctionSetCompensation" by auto
  have "(kFunctionSetCompensation, fn_args f) \<in> set (map (\<lambda>f. (fn_function_id f, fn_args f)) ?fs)"
    using f fid by force
  then have args: "fn_args f = compensation_args Ph" unfolding advertised_args by (auto simp: function_numbers)
  note conf = args_conform_def compensation_args_def add_bounded_double_arg_def add_arg_spec_def arg_conforms_def demo_value_def
    kMinTemperatureC_def kMaxTemperatureC_def
  show ?thesis
    using validation_matches_advertised [OF _ f, of "[(''temperature_c'', demo_value (Fin 101))]" demo_sdk]
      validation_matches_advertised [OF _ f, of "[(''temperature_c'', demo_value (Fin 25))]" demo_sdk]
    unfolding fid args by (simp add: conf kFunctionSetCompensation_def)
qed

section \<open>What a call does\<close>

lemma snapshot_sel [simp]:
  "active_devices (snapshot w) = active_devices (g_state w)" "excluded_devices (snapshot w) = excluded_devices (g_state w)"
  "rs_config (snapshot w) = rs_config (g_state w)" "ready (snapshot w) = ready (g_state w)"
  "startup_message (snapshot w) = startup_message (g_state w)" "host_requirements (snapshot w) = host_requirements (g_state w)"
  by (simp_all add: snapshot_def Let_def split: option.split)

lemma find_device_snapshot [simp]: "find_device (snapshot w) i = active_device i w"
  by (simp add: find_device_def active_device_def find_active_device_unlocked_def has_id_def [abs_def])

text \<open>The record of calls, and the parts of a device the other updates keep.\<close>

definition call_part :: "ActiveDevice \<Rightarrow> bool \<times> bool \<times> string \<times> string \<times> time_point \<times> u64 \<times> u64" where
  "call_part d = (has_last_call d, last_call_ok d, last_call_function d, last_call_error d, last_call_at d,
     call_success_count d, call_failure_count d)"

lemma call_part_kept [simp]:
  "call_part (store_compensation ops dv st reading re d) = call_part d"
  "call_part (store_calibration_level ops dv st level d) = call_part d"
  "call_part (d\<lparr>compensation_set := c\<rparr>) = call_part d"
  by (simp_all add: call_part_def store_compensation_def store_calibration_level_def apply_compensation_def
      apply_calibration_level_def Let_def split: option.split)

lemma set_kept [simp]:
  "compensation_set (store_compensation ops dv st reading re d) = compensation_set d"
  "compensation_set (store_calibration_level ops dv st level d) = compensation_set d"
  "calibration_level (store_compensation ops dv st reading re d) = calibration_level d"
  "compensation_set (note_call fn ok msg now d) = compensation_set d"
  "calibration_level (note_call fn ok msg now d) = calibration_level d"
  by (simp_all add: store_compensation_def store_calibration_level_def note_call_def Let_def)

lemma execute_safe_call_frame:
  "run_state (execute_safe_call p d fid args timeout) w = (r, w') \<Longrightarrow> active_device i w' = active_device i w"
  using submitted_device
  by (fastforce simp: execute_safe_call_def Let_def split: if_splits prod.splits)

lemma check_kept:
  assumes "run_state (check_compensation p i) w = (st, w')" and "active_device i w = Some d"
  shows "\<exists>d'. active_device i w' = Some d' \<and> call_part d' = call_part d \<and> compensation_set d' = compensation_set d \<and>
    calibration_level d' = calibration_level d"
  using check_compensation_device [OF assms] by auto

lemma after_compensation_device:
  assumes "run_state (after_compensation p i fid t name args ok) w = (u, w')" and "active_device i w = Some d"
  shows "\<exists>d'. active_device i w' = Some d' \<and> call_part d' = call_part d \<and> calibration_level d' = calibration_level d \<and>
    compensation_set d' = (if ok \<and> fid = kFunctionSetCompensation
      then merge_compensation (ca_compensation args) (compensation_set d) else compensation_set d)"
proof (cases "fid = kFunctionSetCompensation \<or> is_do_calibration fid t")
  case False
  then show ?thesis using assms by (auto simp: after_compensation_def)
next
  case True
  define w1 where "w1 = (if ok \<and> fid = kFunctionSetCompensation
    then snd (run_state (remember_compensation i (ca_compensation args)) w) else w)"
  obtain st w2 where check: "run_state (check_compensation p i) w1 = (st, w2)" by fastforce
  obtain d1 where d1: "active_device i w1 = Some d1" "call_part d1 = call_part d" "calibration_level d1 = calibration_level d"
    "compensation_set d1 = (if ok \<and> fid = kFunctionSetCompensation
      then merge_compensation (ca_compensation args) (compensation_set d) else compensation_set d)"
    using assms(2) by (cases "ok \<and> fid = kFunctionSetCompensation")
      (simp_all add: w1_def remember_compensation_def active_device_same)
  have w': "w' = w2 \<or> (\<exists>l. w' = w2\<lparr>logged := l\<rparr>)"
    using assms(1) check True
    by (cases "ok \<and> fid = kFunctionSetCompensation") (auto simp: after_compensation_def w1_def remember_compensation_def split: if_splits)
  from check_kept [OF check d1(1)] d1(2-4) w' show ?thesis by auto
qed

lemma after_calibration_device:
  assumes "run_state (after_calibration p i fid name) w = (u, w')" and "active_device i w = Some d"
  shows "\<exists>d'. active_device i w' = Some d' \<and> call_part d' = call_part d \<and> compensation_set d' = compensation_set d"
proof (cases "fid = kFunctionCalibrate \<or> fid = kFunctionClearCalibration")
  case False
  then show ?thesis using assms by (auto simp: after_calibration_def)
next
  case True
  obtain st w2 where run: "run_state (refresh_calibration_level p i) w = (st, w2)" by fastforce
  have "\<exists>d'. active_device i w2 = Some d' \<and> call_part d' = call_part d \<and> compensation_set d' = compensation_set d"
  proof (cases "read_calibration_level (adapter_for (bops p) (drv p) (ds_type (ad_spec d)))")
    case None
    then show ?thesis using run assms(2) by (auto simp: refresh_calibration_level_def)
  next
    case (Some reader)
    from run assms(2) Some obtain level where "active_device i w2 = Some (store_calibration_level (bops p) (drv p) st level d)"
      by (rule refresh_level_cases)
    then show ?thesis by simp
  qed
  then show ?thesis using assms(1) True run by (auto simp: after_calibration_def split: if_splits)
qed

lemma call_part_note:
  "call_part (note_call fn ok msg now d) =
     (True, ok, fn, if ok then '''' else msg, now, call_success_count d + of_bool ok, call_failure_count d + of_bool (\<not> ok))"
  by (simp add: call_part_def note_call_def Let_def)

lemma finish_call_device:
  assumes "run_state (finish_call p i fid name r) w = (r', w')" and "active_device i w = Some d" and "i \<noteq> ''''"
  shows "r' = r \<and> (\<exists>d'. active_device i w' = Some d' \<and> compensation_set d' = compensation_set d \<and>
    call_part d' = call_part (note_call name (acr_ok r) (acr_message r) (system_clock p (clock_reads w)) d) \<and>
    (\<not> acr_ok r \<longrightarrow> calibration_level d' = calibration_level d))"
proof (cases "acr_ok r")
  case False
  then show ?thesis
    using assms by (auto simp: finish_call_def record_call_result_def active_device_same)
next
  case True
  let ?n = "note_call name True '''' (system_clock p (clock_reads w)) d"
  define w1 where "w1 = snd (run_state (record_call_result p i name True '''') w)"
  have w1: "active_device i w1 = Some ?n"
    using assms(2,3) by (simp add: w1_def record_call_result_def active_device_same)
  obtain u w2 where run: "run_state (after_calibration p i fid name) w1 = (u, w2)" by (metis surj_pair)
  have "r' = r" "w' = w2"
    using assms(1) True run by (auto simp: finish_call_def w1_def split: prod.splits)
  moreover have "call_part (note_call name True (acr_message r) now d) = call_part (note_call name True '''' now d)" for now
    by (simp add: call_part_note)
  ultimately show ?thesis using after_calibration_device [OF run w1] True by auto
qed

definition control_args :: "u32 \<Rightarrow> ActiveDevice \<Rightarrow> ControlArgs \<Rightarrow> ControlArgs" where
  "control_args fid d checked =
     (if is_do_calibration fid (ds_type (ad_spec d)) then checked\<lparr>restore := restore_values d\<rparr> else checked)"

text \<open>A call that passes every check, taken apart: the command, the read-back, the record.\<close>

lemma valid_call_steps:
  assumes "active_device i w = Some d" and "find_function_by_id d fid = Some spec"
    and "validate_call_args sdk fid (ds_type (ad_spec d)) args = Inr checked"
  shows "run_state (call p sdk i fid args) w =
    (case run_state (execute_safe_call p d fid (control_args fid d checked) (timeout_ms (rs_config (g_state w)))) w of (r0, w1) \<Rightarrow>
       run_state (finish_call p i fid (fn_name spec) r0) (snd (run_state (after_compensation p i fid (ds_type (ad_spec d))
         (fn_name spec) (control_args fid d checked) (acr_ok r0)) w1)))"
  using assms by (simp add: call_def Let_def control_args_def split: prod.split)

lemma finish_call_result: "fst (run_state (finish_call p i fid name r) w) = r"
  by (simp add: finish_call_def split: prod.split)

lemma valid_call_result:
  assumes "active_device i w = Some d" and "find_function_by_id d fid = Some spec"
    and "validate_call_args sdk fid (ds_type (ad_spec d)) args = Inr checked"
  shows "fst (run_state (call p sdk i fid args) w) =
    fst (run_state (execute_safe_call p d fid (control_args fid d checked) (timeout_ms (rs_config (g_state w)))) w)"
  by (simp add: valid_call_steps [OF assms] finish_call_result split: prod.split)

lemma valid_call_device:
  assumes "run_state (call p sdk i fid args) w = (r, w')" and "active_device i w = Some d" and "i \<noteq> ''''"
    and "find_function_by_id d fid = Some spec" and "validate_call_args sdk fid (ds_type (ad_spec d)) args = Inr checked"
  shows "\<exists>d' now. active_device i w' = Some d' \<and>
    call_part d' = call_part (note_call (fn_name spec) (acr_ok r) (acr_message r) now d) \<and>
    compensation_set d' = (if acr_ok r \<and> fid = kFunctionSetCompensation
      then merge_compensation (ca_compensation checked) (compensation_set d) else compensation_set d) \<and>
    (\<not> acr_ok r \<longrightarrow> calibration_level d' = calibration_level d)"
proof -
  define ca where "ca = control_args fid d checked"
  obtain r0 w1 where exec: "run_state (execute_safe_call p d fid ca (timeout_ms (rs_config (g_state w)))) w = (r0, w1)"
    by (metis surj_pair)
  obtain u w2 where after: "run_state (after_compensation p i fid (ds_type (ad_spec d)) (fn_name spec) ca (acr_ok r0)) w1 = (u, w2)"
    by (metis surj_pair)
  have fin: "run_state (finish_call p i fid (fn_name spec) r0) w2 = (r, w')"
    using assms(1) valid_call_steps [OF assms(2,4,5), of p] exec after by (simp add: ca_def)
  have "active_device i w1 = Some d" using execute_safe_call_frame [OF exec] assms(2) by simp
  from after_compensation_device [OF after this] obtain d2
    where d2: "active_device i w2 = Some d2" "call_part d2 = call_part d" "calibration_level d2 = calibration_level d"
      "compensation_set d2 = (if acr_ok r0 \<and> fid = kFunctionSetCompensation
        then merge_compensation (ca_compensation ca) (compensation_set d) else compensation_set d)"
    by blast
  have "ca_compensation ca = ca_compensation checked" by (simp add: ca_def control_args_def)
  moreover have "call_part (note_call fn ok msg now d2) = call_part (note_call fn ok msg now d)" for fn ok msg now
    using d2(2) unfolding call_part_note by (simp add: call_part_def)
  ultimately show ?thesis using finish_call_device [OF fin d2(1) assms(3)] d2(3,4) by auto
qed

lemma record_call_effect:
  assumes "active_device i w = Some d" and "w' = snd (run_state (record_call_result p i fn ok msg) w)"
  shows "g_executor w' = g_executor w \<and> job_count w' = job_count w \<and> other_devices i w' = other_devices i w \<and>
    active_device i w' = Some (if i = '''' then d else note_call fn ok msg (system_clock p (clock_reads w)) d)"
proof -
  have "g_executor w' = g_executor w \<and> job_count w' = job_count w"
    by (simp add: assms(2) record_call_result_def upd_world_def)
  moreover have "active_device i w' = Some (if i = [] then d else note_call fn ok msg (system_clock p (clock_reads w)) d)"
    using assms(1) by (auto simp: assms(2) record_call_result_def active_device_same)
  ultimately show ?thesis using others.record_call_result_R [of i p fn ok msg w] assms(2) by simp
qed

text \<open>
  C18: a call is refused before any bus work. An unknown device or function is answered as not found and changes nothing.
  Arguments that fail the check are answered with that error, submit no job and leave the executor alone; the failed
  call is recorded on the device and on no other.
\<close>

theorem call_refused_before_bus:
  "case active_device i w of
     None \<Rightarrow> run_state (call p sdk i fid args) w = (call_not_found sdk ''unknown device_id'', w)
   | Some d \<Rightarrow>
       (case find_function_by_id d fid of
          None \<Rightarrow> run_state (call p sdk i fid args) w = (call_not_found sdk ''unknown function_id'', w)
        | Some spec \<Rightarrow>
            (case validate_call_args sdk fid (ds_type (ad_spec d)) args of
               Inr _ \<Rightarrow> True
             | Inl e \<Rightarrow> (\<exists>w'. run_state (call p sdk i fid args) w = (e, w') \<and> g_executor w' = g_executor w \<and>
                 job_count w' = job_count w \<and> other_devices i w' = other_devices i w \<and>
                 active_device i w' = Some (if i = '''' then d
                   else note_call (fn_name spec) False (acr_message e) (system_clock p (clock_reads w)) d))))"
proof (cases "active_device i w")
  case (Some d)
  note d = this
  show ?thesis
  proof (cases "find_function_by_id d fid")
    case (Some spec)
    note spec = this
    show ?thesis
    proof (cases "validate_call_args sdk fid (ds_type (ad_spec d)) args")
      case (Inl e)
      then have "run_state (call p sdk i fid args) w =
          (e, snd (run_state (record_call_result p i (fn_name spec) False (acr_message e)) w))"
        by (simp add: call_def d spec split: prod.split)
      with record_call_effect [OF d refl, of p "fn_name spec" False "acr_message e"] Inl show ?thesis by (simp add: d spec)
    qed (simp add: d spec)
  qed (simp add: d call_def)
qed (simp add: call_def)

text \<open>
  C17: every call that reaches the bus is accounted for once. Whatever the device answers and whatever the re-reads after
  it find, the call's outcome is recorded with its function and error text, the success or the failure counter advances
  by one and the other stays, and the values to hold change only when a set_compensation succeeded, to its values.
\<close>

theorem call_recorded_once:
  assumes "run_state (call p sdk i fid args) w = (r, w')" and "active_device i w = Some d" and "i \<noteq> ''''"
    and "find_function_by_id d fid = Some spec" and "validate_call_args sdk fid (ds_type (ad_spec d)) args = Inr checked"
  shows "\<exists>d'. active_device i w' = Some d' \<and> has_last_call d' \<and> last_call_ok d' = acr_ok r \<and>
    last_call_function d' = fn_name spec \<and> last_call_error d' = (if acr_ok r then '''' else acr_message r) \<and>
    call_success_count d' = call_success_count d + of_bool (acr_ok r) \<and>
    call_failure_count d' = call_failure_count d + of_bool (\<not> acr_ok r) \<and>
    compensation_set d' = (if acr_ok r \<and> fid = kFunctionSetCompensation
      then merge_compensation (ca_compensation checked) (compensation_set d) else compensation_set d)"
  using valid_call_device [OF assms] unfolding call_part_note by (auto simp: call_part_def)

text \<open>
  A validated call reported as failed leaves the published calibration level as it was, also when it is a calibration
  that outran its deadline and did calibrate the probe: the level is read again only after a call that succeeded.
\<close>

lemma failed_call_keeps_level:
  assumes "run_state (call p sdk i fid args) w = (r, w')" and "active_device i w = Some d" and "i \<noteq> ''''"
    and "find_function_by_id d fid = Some spec" and "validate_call_args sdk fid (ds_type (ad_spec d)) args = Inr checked"
    and "\<not> acr_ok r"
  shows "map_option calibration_level (active_device i w') = Some (calibration_level d)"
  using valid_call_device [OF assms(1-5)] assms(6) by auto

section \<open>Calls on the concrete platform\<close>

text \<open>The demonstration driver does not answer a find command, so the call fails after its argument check.\<close>

lemma demo_find:
  "find_function_by_id demo_device kFunctionFind \<noteq> None"
  "validate_call_args sdk kFunctionFind (ds_type (ad_spec demo_device)) [] = Inr new_ControlArgs"
  "control_args kFunctionFind demo_device new_ControlArgs = new_ControlArgs"
  by (simp_all add: find_function_by_id_def demo_device_def demo_spec_def build_capabilities_def capability_builders
      empty_CapabilitySet_def validate_call_args_def control_args_def is_do_calibration_def)

lemma demo_find_job:
  "\<not> is_ok (fst (fst (run_state (call_job demo_platform (ad_spec demo_device) kFunctionFind new_ControlArgs) 0)))"
  by (simp add: call_job_def call_body_def is_do_calibration_def send_command_def function_numbers run_command_def
      demo_evaluate stub_def)

lemma demo_find_fails:
  "\<not> acr_ok (fst (run_state (call demo_platform sdk ''ph0'' kFunctionFind []) demo_world))"
proof -
  obtain spec where spec: "find_function_by_id demo_device kFunctionFind = Some spec" using demo_find(1) by blast
  have "ezo_product_resolve_timing_hint demo_driver x EZO_COMMAND_GENERIC = (EZO_OK, 300)" for x
    by (simp add: demo_driver_def one_ph_driver_def stub_for_def)
  moreover have "0 < call_timeout_ms (timeout_ms default_ProviderConfig) kFunctionFind Ph 300 300"
    by (simp add: call_timeout_ms_def default_ProviderConfig_def)
  moreover have "kFunctionFind \<noteq> kFunctionCalibrate" by (simp add: function_numbers)
  ultimately show ?thesis
    unfolding valid_call_result [OF demo_active spec demo_find(2)] demo_find(3) demo_config
    using demo_find_job demo_ran [of _ _ "call_job demo_platform (ad_spec demo_device) kFunctionFind new_ControlArgs"]
    by (simp add: execute_safe_call_def Let_def demo_type split: prod.split) (metis fst_conv)
qed

theorem call_recorded_once_witness:
  "\<exists>d'. active_device ''ph0'' (snd (run_state (call demo_platform demo_sdk ''ph0'' kFunctionFind []) demo_world)) = Some d' \<and>
     has_last_call d' \<and> \<not> last_call_ok d' \<and> call_failure_count d' = 1 \<and> call_success_count d' = 0"
proof -
  obtain spec where spec: "find_function_by_id demo_device kFunctionFind = Some spec" using demo_find(1) by blast
  obtain r w' where run: "run_state (call demo_platform demo_sdk ''ph0'' kFunctionFind []) demo_world = (r, w')" by fastforce
  have "\<not> acr_ok r" using demo_find_fails [of demo_sdk] run by simp
  with call_recorded_once [OF run demo_active _ spec demo_find(2)] run show ?thesis
    by (auto simp: demo_device_def activate_def Let_def)
qed

end
