(* ===== verification/Ezo_Provider.thy ===== *)
theory Ezo_Provider
  imports Ezo_Calls
begin

text \<open>
  The rest of the SDK-facing provider (\<^verbatim>\<open>src/core/ezo_provider_runtime.cpp\<close>): reading signals from the cached
  samples, the inventory, readiness and health. Protobuf messages and SDK reports are records of the fields the
  provider sets.
\<close>

section \<open>Messages\<close>

record Timestamp =
  ts_seconds :: int
  ts_nanos :: int

record 'q SignalValue =
  sv_signal_id :: string
  sv_value_type :: "ValueType option"
  sv_double_value :: "double option"
  sv_timestamp :: "Timestamp option"
  sv_quality :: "'q option"
  sv_metadata :: "string \<rightharpoonup> string"

definition empty_SignalValue :: "'q SignalValue" where
  "empty_SignalValue = \<lparr>sv_signal_id = '''', sv_value_type = None, sv_double_value = None, sv_timestamp = None,
     sv_quality = None, sv_metadata = Map.empty\<rparr>"

record 'q AdapterReadResult =
  arr_ok :: bool
  arr_code :: AdppCode
  arr_message :: string
  arr_values :: "'q SignalValue list"

record ProviderMetadata =
  pm_name :: string
  pm_version :: string
  pm_protocol_version :: string
  hello_extra :: "string \<rightharpoonup> string"

record ReadinessReport =
  rr_ready :: bool
  configured_device_count :: int
  successful_device_ids :: "string list"
  failed_devices :: "(string \<times> string \<times> string) list"
  startup_policy :: string
  provider_impl :: string
  extra_diagnostics :: "string \<rightharpoonup> string"

datatype DeviceState = STATE_OK | STATE_STALE | STATE_FAULT | STATE_UNREACHABLE

record DeviceHealthExtra =
  dh_metrics :: "string \<rightharpoonup> string"
  last_seen :: "Timestamp option"
  dh_state :: "DeviceState option"
  dh_message :: string

definition empty_DeviceHealthExtra :: DeviceHealthExtra where
  "empty_DeviceHealthExtra = \<lparr>dh_metrics = Map.empty, last_seen = None, dh_state = None, dh_message = ''''\<rparr>"

datatype ProviderState = STATE_DEGRADED

record ProviderHealthExtra =
  ph_metrics :: "string \<rightharpoonup> string"
  ph_state :: "ProviderState option"
  ph_message :: string

section \<open>One signal\<close>

definition to_proto_timestamp :: "time_point \<Rightarrow> Timestamp" where
  "to_proto_timestamp t =
     (let s = trunc_div t 1000000000 in \<lparr>ts_seconds = s, ts_nanos = to_int32 (t - s * 1000000000)\<rparr>)"

definition find_signal_index :: "ActiveDevice \<Rightarrow> string \<Rightarrow> nat option" where
  "find_signal_index d sid = index_from 0 (\<lambda>s. ss_signal_id s = sid) (cap_signals (ad_capabilities d))"

definition show_bool :: "bool \<Rightarrow> string" where
  "show_bool b = (if b then ''true'' else ''false'')"

text \<open>The conversion of one cached slot; it reads the clock.\<close>

definition populate_signal_value ::
    "('b, 'h, 'r) platform \<Rightarrow> 'q provider_sdk \<Rightarrow> 'r RuntimeState \<Rightarrow> ActiveDevice \<Rightarrow> nat \<Rightarrow> ('b, 'r, 'q SignalValue) prog" where
  "populate_signal_value p sdk st d k =
     (if length (cap_signals (ad_capabilities d)) \<le> k then State_Monad.return empty_SignalValue
      else do {
        now \<leftarrow> system_now p;
        let spec = cap_signals (ad_capabilities d) ! k;
        let s = ad_sample d;
        let slot = (if k < length (sample_signals s) then Some (sample_signals s ! k) else None);
        let age_ms = duration_ms (now - sampled_at s);
        let stale_ms = stale_after_ms (rs_config st);
        State_Monad.return
          \<lparr>sv_signal_id = ss_signal_id spec, sv_value_type = Some VALUE_TYPE_DOUBLE,
           sv_double_value = (case slot of None \<Rightarrow> None | Some x \<Rightarrow> if has_value x then Some (svalue x) else None),
           sv_timestamp = Some (to_proto_timestamp (sampled_at s)),
           sv_quality = Some (case slot of None \<Rightarrow> QUALITY_UNKNOWN sdk
             | Some x \<Rightarrow> quality_from sdk (available x) (has_value x) (last_read_ok s) age_ms stale_ms),
           sv_metadata =
             [''age_ms'' \<mapsto> show_int age_ms, ''stale_after_ms'' \<mapsto> show_int stale_ms,
              ''sample_success_count'' \<mapsto> show_u64 (success_count s), ''sample_failure_count'' \<mapsto> show_u64 (failure_count s)]
             ++ (if last_error s = '''' then Map.empty else [''last_error'' \<mapsto> last_error s])
             ++ (case slot of None \<Rightarrow> Map.empty
                 | Some x \<Rightarrow> if available x then Map.empty
                     else [''unavailable'' \<mapsto> ''true'', ''unavailable_reason'' \<mapsto> unavailable_reason x])\<rparr>
      })"

section \<open>Reading signals\<close>

text \<open>The indexes of the requested signals, or the first unknown one.\<close>

fun signal_indexes :: "ActiveDevice \<Rightarrow> string list \<Rightarrow> string + nat list" where
  "signal_indexes d [] = Inr []"
| "signal_indexes d (sid # sids) =
     (case find_signal_index d sid of
        None \<Rightarrow> Inl sid
      | Some k \<Rightarrow> (case signal_indexes d sids of Inl e \<Rightarrow> Inl e | Inr ks \<Rightarrow> Inr (k # ks)))"

definition read_failure :: "AdppCode \<Rightarrow> string \<Rightarrow> 'q AdapterReadResult" where
  "read_failure c msg = \<lparr>arr_ok = False, arr_code = c, arr_message = msg, arr_values = []\<rparr>"

definition needs_refresh :: "('b, 'h, 'r) platform \<Rightarrow> 'r RuntimeState \<Rightarrow> ActiveDevice \<Rightarrow> ('b, 'r, bool) prog" where
  "needs_refresh p st d =
     (if \<not> has_sample (ad_sample d) then State_Monad.return True
      else do {
        now \<leftarrow> system_now p;
        State_Monad.return (duration_ms (now - sampled_at (ad_sample d)) > query_latency_ms (rs_config st))
      })"

fun populate_values ::
    "('b, 'h, 'r) platform \<Rightarrow> 'q provider_sdk \<Rightarrow> 'r RuntimeState \<Rightarrow> ActiveDevice \<Rightarrow> nat list \<Rightarrow> ('b, 'r, 'q SignalValue list) prog" where
  "populate_values p sdk st d [] = State_Monad.return []"
| "populate_values p sdk st d (k # ks) = do {
     v \<leftarrow> populate_signal_value p sdk st d k;
     vs \<leftarrow> populate_values p sdk st d ks;
     State_Monad.return (v # vs)
   }"

definition serve_sample ::
    "('b, 'h, 'r) platform \<Rightarrow> 'q provider_sdk \<Rightarrow> 'r RuntimeState \<Rightarrow> ActiveDevice \<Rightarrow> nat list \<Rightarrow> ('b, 'r, 'q AdapterReadResult) prog" where
  "serve_sample p sdk st d ks =
     (if \<not> has_sample (ad_sample d) then State_Monad.return (read_failure CODE_UNAVAILABLE ''no sample available'')
      else do {
        vs \<leftarrow> populate_values p sdk st d ks;
        State_Monad.return \<lparr>arr_ok = True, arr_code = CODE_OK, arr_message = '''', arr_values = vs\<rparr>
      })"

definition refresh_then_serve ::
    "('b, 'h, 'r) platform \<Rightarrow> 'q provider_sdk \<Rightarrow> string \<Rightarrow> nat list \<Rightarrow> ('b, 'r, 'q AdapterReadResult) prog" where
  "refresh_then_serve p sdk i ks = do {
     refresh_status \<leftarrow> refresh_device_sample p i;
     st \<leftarrow> gets snapshot;
     let found = find_device st i;
     if \<not> is_ok refresh_status then do {
       log_warning (''read_signals refresh failed for '' @ quoted i @ '': '' @ message refresh_status);
       case found of
         None \<Rightarrow> State_Monad.return (read_failure (map_i2c_status_code (code refresh_status)) (message refresh_status))
       | Some d \<Rightarrow>
           if \<not> has_sample (ad_sample d)
           then State_Monad.return (read_failure (map_i2c_status_code (code refresh_status)) (message refresh_status))
           else serve_sample p sdk st d ks
     }
     else (case found of
             None \<Rightarrow> State_Monad.return (read_failure CODE_NOT_FOUND ''unknown device_id'')
           | Some d \<Rightarrow> serve_sample p sdk st d ks)
   }"

definition read_signals ::
    "('b, 'h, 'r) platform \<Rightarrow> 'q provider_sdk \<Rightarrow> string \<Rightarrow> string list \<Rightarrow> ('b, 'r, 'q AdapterReadResult) prog" where
  "read_signals p sdk i signal_ids = do {
     st \<leftarrow> gets snapshot;
     case find_device st i of
       None \<Rightarrow> State_Monad.return (read_failure CODE_NOT_FOUND ''unknown device_id'')
     | Some d \<Rightarrow>
         (case signal_indexes d (if signal_ids = [] then default_signal_ids d else signal_ids) of
            Inl sid \<Rightarrow> State_Monad.return (read_failure CODE_NOT_FOUND (''unknown signal_id '' @ quoted sid))
          | Inr ks \<Rightarrow> do {
              refresh \<leftarrow> needs_refresh p st d;
              if refresh then refresh_then_serve p sdk i ks else serve_sample p sdk st d ks
            })
   }"

section \<open>Inventory, readiness and health\<close>

definition metadata :: "'q provider_sdk \<Rightarrow> ProviderMetadata" where
  "metadata sdk =
     \<lparr>pm_name = ''anolis-provider-ezo'', pm_version = provider_version sdk, pm_protocol_version = ''v1'',
      hello_extra = [''supports_wait_ready'' \<mapsto> ''true'', ''discovery_mode'' \<mapsto> ''manual'',
        ''i2c_execution_model'' \<mapsto> ''single_executor'', ''coverage'' \<mapsto> ''all_families'']\<rparr>"

definition list_device_ids :: "('b, 'r) world \<Rightarrow> string list" where
  "list_device_ids w = map (ds_id \<circ> ad_spec) (active_devices (snapshot w))"

definition has_device :: "('b, 'r) world \<Rightarrow> string \<Rightarrow> bool" where
  "has_device w i \<longleftrightarrow> find_device (snapshot w) i \<noteq> None"

definition device_info :: "('b, 'r) world \<Rightarrow> string \<Rightarrow> Device" where
  "device_info w i = (case find_device (snapshot w) i of None \<Rightarrow> empty_Device | Some d \<Rightarrow> descriptor d)"

definition capabilities :: "('b, 'r) world \<Rightarrow> string \<Rightarrow> CapabilitySet" where
  "capabilities w i = (case find_device (snapshot w) i of None \<Rightarrow> empty_CapabilitySet | Some d \<Rightarrow> ad_capabilities d)"

definition call_success_total :: "'r RuntimeState \<Rightarrow> u64" where
  "call_success_total st = sum_list (map call_success_count (active_devices st))"

definition call_failure_total :: "'r RuntimeState \<Rightarrow> u64" where
  "call_failure_total st = sum_list (map call_failure_count (active_devices st))"

definition readiness_report ::
    "('b, 'h, 'r) platform \<Rightarrow> 'r RuntimeState \<Rightarrow> int \<Rightarrow> int \<Rightarrow> ReadinessReport" where
  "readiness_report p st init_ms uptime_ms =
     \<lparr>rr_ready = ready st, configured_device_count = int (length (devices (rs_config st))),
      successful_device_ids = map (ds_id \<circ> ad_spec) (active_devices st),
      failed_devices = map (\<lambda>x. (ds_id (ed_spec x), to_string (ds_type (ed_spec x)), ed_reason x)) (excluded_devices st),
      startup_policy = ''strict'', provider_impl = ''ezo'',
      extra_diagnostics =
        [''init_time_ms'' \<mapsto> show_int (if init_ms < 0 then 0 else init_ms),
         ''ready'' \<mapsto> show_bool (ready st),
         ''uptime_ms'' \<mapsto> show_int uptime_ms,
         ''configured_device_count'' \<mapsto> show_nat (length (devices (rs_config st))),
         ''active_device_count'' \<mapsto> show_nat (length (active_devices st)),
         ''excluded_device_count'' \<mapsto> show_nat (length (excluded_devices st)),
         ''call_success_total'' \<mapsto> show_u64 (call_success_total st),
         ''call_failure_total'' \<mapsto> show_u64 (call_failure_total st),
         ''startup_message'' \<mapsto> startup_message st,
         ''bus_path'' \<mapsto> bus_path (rs_config st),
         ''i2c_executor_running'' \<mapsto> show_bool (i2c_executor_running st),
         ''i2c_queue_depth'' \<mapsto> show_u64 (queue_depth (i2c_metrics st)),
         ''i2c_jobs_submitted'' \<mapsto> show_u64 (submitted (i2c_metrics st)),
         ''i2c_jobs_timed_out'' \<mapsto> show_u64 (timed_out (i2c_metrics st)),
         ''i2c_status'' \<mapsto> i2c_status_message st]
        ++ readiness_diagnostics p (host_requirements st)\<rparr>"

definition readiness :: "('b, 'h, 'r) platform \<Rightarrow> ('b, 'r, ReadinessReport) prog" where
  "readiness p = do {
     st \<leftarrow> gets snapshot;
     ready_point \<leftarrow> (if ready st then State_Monad.return (ready_at st) else system_now p);
     let init_ms = duration_ms (ready_point - started_at st);
     uptime_ms \<leftarrow> (if started_at st > 0
                   then do { now \<leftarrow> system_now p; State_Monad.return (duration_ms (now - started_at st)) }
                   else State_Monad.return 0);
     State_Monad.return (readiness_report p st init_ms uptime_ms)
   }"

definition io_metrics :: "IoStats \<Rightarrow> string \<rightharpoonup> string" where
  "io_metrics io = [''io_ok'' \<mapsto> show_u64 (io_ok io), ''io_failed'' \<mapsto> show_u64 (io_failed io),
     ''io_retried_attempts'' \<mapsto> show_u64 (io_retried_attempts io)]"

definition unless_empty :: "string \<Rightarrow> string \<Rightarrow> string \<rightharpoonup> string" where
  "unless_empty key v = (if v = '''' then Map.empty else [key \<mapsto> v])"

text \<open>The state of an active device, which readiness alone cannot express.\<close>

definition live_state :: "'r RuntimeState \<Rightarrow> ActiveDevice \<Rightarrow> time_point \<Rightarrow> DeviceState \<times> string" where
  "live_state st d now =
     (let s = ad_sample d in
      if \<not> has_sample s then (STATE_UNREACHABLE, ''no sample available yet'')
      else if \<not> last_read_ok s then (STATE_FAULT, ''latest read failed; cached sample may be stale'')
      else if duration_ms (now - sampled_at s) > stale_after_ms (rs_config st) then (STATE_STALE, ''sample is stale'')
      else (STATE_OK, ''ok''))"

definition active_health ::
    "('b, 'h, 'r) platform \<Rightarrow> 'r RuntimeState \<Rightarrow> ActiveDevice \<Rightarrow> IoStats \<Rightarrow> time_point \<Rightarrow> DeviceHealthExtra" where
  "active_health p st d io now =
     (let s = ad_sample d in
      \<lparr>dh_metrics =
         [''type'' \<mapsto> to_string (ds_type (ad_spec d)), ''address'' \<mapsto> format_i2c_address (ds_address (ad_spec d)),
          ''sample_success_count'' \<mapsto> show_u64 (success_count s), ''sample_failure_count'' \<mapsto> show_u64 (failure_count s),
          ''call_success_count'' \<mapsto> show_u64 (call_success_count d), ''call_failure_count'' \<mapsto> show_u64 (call_failure_count d)]
         ++ (if read_compensation (adapter_for (bops p) (drv p) (ds_type (ad_spec d))) = None then Map.empty
             else [''compensation_reapplied_count'' \<mapsto> show_u64 (compensation_reapplied_count d)])
         ++ io_metrics io
         ++ unless_empty ''startup_product_code'' (startup_product_code d)
         ++ unless_empty ''startup_firmware'' (startup_firmware_version d)
         ++ (if \<not> has_sample s then Map.empty
             else [''sample_age_ms'' \<mapsto> show_int (duration_ms (now - sampled_at s)),
                   ''sample_stale_after_ms'' \<mapsto> show_int (stale_after_ms (rs_config st))])
         ++ (if \<not> has_last_call d then Map.empty
             else [''last_call_function'' \<mapsto> last_call_function d, ''last_call_ok'' \<mapsto> show_bool (last_call_ok d),
                   ''last_call_age_ms'' \<mapsto> show_int (duration_ms (now - last_call_at d))]
                  ++ unless_empty ''last_call_error'' (last_call_error d))
         ++ unless_empty ''last_error'' (last_error s),
       last_seen = (if has_sample s then Some (to_proto_timestamp (sampled_at s)) else None),
       dh_state = Some (fst (live_state st d now)), dh_message = snd (live_state st d now)\<rparr>)"

definition device_health :: "('b, 'h, 'r) platform \<Rightarrow> string \<Rightarrow> ('b, 'r, DeviceHealthExtra) prog" where
  "device_health p i = do {
     st \<leftarrow> gets snapshot;
     case find_device st i of
       Some d \<Rightarrow> do {
         io \<leftarrow> gets (io_stats_for p (word_of_int (ds_address (ad_spec d))));
         now \<leftarrow> system_now p;
         State_Monad.return (active_health p st d io now)
       }
     | None \<Rightarrow>
         (case find (\<lambda>x. ds_id (ed_spec x) = i) (excluded_devices st) of
            None \<Rightarrow> State_Monad.return empty_DeviceHealthExtra
          | Some x \<Rightarrow> do {
              io \<leftarrow> gets (io_stats_for p (word_of_int (ds_address (ed_spec x))));
              State_Monad.return (empty_DeviceHealthExtra\<lparr>dh_metrics :=
                [''excluded'' \<mapsto> ''true'', ''type'' \<mapsto> to_string (ds_type (ed_spec x)),
                 ''address'' \<mapsto> format_i2c_address (ds_address (ed_spec x))] ++ io_metrics io\<rparr>)
            })
   }"

definition excluded_reasons :: "ExcludedDevice list \<Rightarrow> string \<rightharpoonup> string" where
  "excluded_reasons xs = fold (\<lambda>x m. m(''excluded_reason.'' @ ds_id (ed_spec x) \<mapsto> ed_reason x)) xs Map.empty"

definition provider_health :: "('b, 'h, 'r) platform \<Rightarrow> ('b, 'r) world \<Rightarrow> ProviderHealthExtra" where
  "provider_health p w =
     (let st = snapshot w; m = i2c_metrics st in
      \<lparr>ph_metrics =
         [''configured_devices'' \<mapsto> show_nat (length (devices (rs_config st))),
          ''active_devices'' \<mapsto> show_nat (length (active_devices st)),
          ''excluded_devices'' \<mapsto> show_nat (length (excluded_devices st)),
          ''call_success_total'' \<mapsto> show_u64 (call_success_total st),
          ''call_failure_total'' \<mapsto> show_u64 (call_failure_total st),
          ''bus_path'' \<mapsto> bus_path (rs_config st),
          ''i2c_executor_running'' \<mapsto> show_bool (i2c_executor_running st),
          ''i2c_queue_depth'' \<mapsto> show_u64 (queue_depth m),
          ''i2c_jobs_submitted'' \<mapsto> show_u64 (submitted m),
          ''i2c_jobs_started'' \<mapsto> show_u64 (started m),
          ''i2c_jobs_succeeded'' \<mapsto> show_u64 (succeeded m),
          ''i2c_jobs_failed'' \<mapsto> show_u64 (failed m),
          ''i2c_jobs_timed_out'' \<mapsto> show_u64 (timed_out m),
          ''i2c_jobs_cancelled'' \<mapsto> show_u64 (cancelled m)]
         ++ unless_empty ''i2c_status'' (i2c_status_message st)
         ++ unless_empty ''i2c_last_error'' (metrics_last_error m)
         ++ excluded_reasons (excluded_devices st),
       ph_state = (if i2c_executor_running st then None else Some STATE_DEGRADED),
       ph_message =
         (if i2c_executor_running st then ''''
          else if host_exit_code p (host_requirements st) \<noteq> 0 then startup_message st
          else ''i2c executor is not running'')\<rparr>)"

section \<open>Reads keep the contract of device operations\<close>

context world_frame
begin

lemma keeps_values [keeps_intros]: "keeps_frame R (populate_values p sdk st d ks)"
proof (induction ks)
  case (Cons k ks)
  then show ?case unfolding populate_values.simps populate_signal_value_def by (intro keeps_intros)
qed (simp add: keeps_return)

lemma keeps_serve [keeps_intros]:
  "keeps_frame R (serve_sample p sdk st d ks)" "keeps_frame R (needs_refresh p st d)"
  unfolding serve_sample_def needs_refresh_def by (intro keeps_intros)+

lemma keeps_reports [keeps_intros]: "keeps_frame R (readiness p)" "keeps_frame R (device_health p i)"
  unfolding readiness_def device_health_def by (intro keeps_intros)+

end

context device_frame
begin

lemma keeps_read: "keeps_frame R (read_signals p sdk i sids)"
  unfolding read_signals_def refresh_then_serve_def by (intro keeps_intros)

end

section \<open>Properties\<close>

subsection \<open>Timestamps\<close>

lemma to_int32_small: "- 2147483648 \<le> i \<Longrightarrow> i < 2147483648 \<Longrightarrow> to_int32 i = i"
  by (rule to_int32_id) (simp_all add: int_min_def int_max_def)

text \<open>
  The wire timestamp of a time after the epoch is exact: the nanoseconds are within a second and non-negative, and
  seconds and nanoseconds together give the time back.
\<close>

theorem timestamp_roundtrip:
  assumes "0 \<le> t"
  shows "ts_seconds (to_proto_timestamp t) * 1000000000 + ts_nanos (to_proto_timestamp t) = t \<and>
    0 \<le> ts_nanos (to_proto_timestamp t) \<and> ts_nanos (to_proto_timestamp t) < 1000000000"
proof -
  have nanos: "t - t div 1000000000 * 1000000000 = t mod 1000000000" by (simp add: minus_div_mult_eq_mod)
  have "ts_nanos (to_proto_timestamp t) = t mod 1000000000" "ts_seconds (to_proto_timestamp t) = t div 1000000000"
    using assms by (simp_all add: to_proto_timestamp_def Let_def nanos to_int32_small)
  then show ?thesis by simp
qed

theorem timestamp_roundtrip_witness:
  "ts_nanos (to_proto_timestamp 1700000000123456789) < 1000000000 \<and>
   ts_seconds (to_proto_timestamp 1700000000123456789) * 1000000000 + ts_nanos (to_proto_timestamp 1700000000123456789) =
     1700000000123456789"
  using timestamp_roundtrip [of 1700000000123456789] by simp

subsection \<open>Reading\<close>

lemma find_map_same: "map f xs = map f ys \<Longrightarrow> (\<And>x. P x \<longleftrightarrow> Q (f x)) \<Longrightarrow> map_option f (find P xs) = map_option f (find P ys)"
  by (induction xs ys rule: list_induct2') auto

lemma active_device_static:
  assumes "frame_part w' = frame_part w"
  shows "map_option static_part (active_device i w') = map_option static_part (active_device i w)"
  using assms unfolding active_device_def find_active_device_unlocked_def frame_part_def
  by (intro find_map_same [where Q = "\<lambda>s. ds_id (fst s) = i"]) (auto simp: has_id_def static_part_def)

text \<open>The value a device publishes for a signal.\<close>

definition published :: "ActiveDevice \<Rightarrow> string \<Rightarrow> double option" where
  "published d sid =
     (case find_signal_index d sid of
        None \<Rightarrow> None
      | Some k \<Rightarrow> if k < length (sample_signals (ad_sample d)) \<and> has_value (sample_signals (ad_sample d) ! k)
                 then Some (svalue (sample_signals (ad_sample d) ! k)) else None)"

lemma signal_indexes_Inr:
  "signal_indexes d sids = Inr ks \<Longrightarrow> list_all2 (\<lambda>sid k. find_signal_index d sid = Some k) sids ks"
  by (induction sids arbitrary: ks) (auto split: option.splits sum.splits)

lemma find_signal_index_Some:
  assumes "find_signal_index d sid = Some k"
  shows "k < length (cap_signals (ad_capabilities d)) \<and> ss_signal_id (cap_signals (ad_capabilities d) ! k) = sid"
  using assms index_from_Some [of 0 "\<lambda>s. ss_signal_id s = sid" "cap_signals (ad_capabilities d)" k]
  by (simp add: find_signal_index_def)

lemma populate_one:
  assumes "find_signal_index d sid = Some k" and "run_state (populate_signal_value p sdk st d k) w = (v, w')"
  shows "sv_signal_id v = sid \<and> sv_double_value v = published d sid \<and>
    sv_timestamp v = Some (to_proto_timestamp (sampled_at (ad_sample d))) \<and> w' = w\<lparr>clock_reads := clock_reads w + 1\<rparr>"
  using find_signal_index_Some [OF assms(1)] assms
  by (auto simp: populate_signal_value_def Let_def published_def)

lemma populate_many:
  assumes "list_all2 (\<lambda>sid k. find_signal_index d sid = Some k) sids ks"
    and "run_state (populate_values p sdk st d ks) w = (vs, w')"
  shows "map sv_signal_id vs = sids \<and> map sv_double_value vs = map (published d) sids \<and>
    list_all (\<lambda>v. sv_timestamp v = Some (to_proto_timestamp (sampled_at (ad_sample d)))) vs \<and>
    w' = w\<lparr>clock_reads := clock_reads w + length ks\<rparr>"
  using assms
proof (induction arbitrary: w vs rule: list_all2_induct)
  case (Cons sid sids k ks)
  obtain v w1 where one: "run_state (populate_signal_value p sdk st d k) w = (v, w1)" by fastforce
  obtain vs' w2 where many: "run_state (populate_values p sdk st d ks) w1 = (vs', w2)" by fastforce
  have "vs = v # vs'" "w' = w2" using Cons.prems one many by auto
  then show ?case using populate_one [OF Cons(1) one] Cons.IH [OF many [folded \<open>w' = w2\<close>]] by simp
qed simp

lemma serve_sample_ok:
  assumes "list_all2 (\<lambda>sid k. find_signal_index d sid = Some k) sids ks"
    and "run_state (serve_sample p sdk st d ks) w = (r, w')"
  shows "if has_sample (ad_sample d)
    then arr_ok r \<and> arr_code r = CODE_OK \<and> map sv_signal_id (arr_values r) = sids \<and>
      map sv_double_value (arr_values r) = map (published d) sids \<and>
      list_all (\<lambda>v. sv_timestamp v = Some (to_proto_timestamp (sampled_at (ad_sample d)))) (arr_values r) \<and>
      w' = w\<lparr>clock_reads := clock_reads w + length ks\<rparr>
    else r = read_failure CODE_UNAVAILABLE ''no sample available'' \<and> w' = w"
proof -
  obtain vs w1 where vs: "run_state (populate_values p sdk st d ks) w = (vs, w1)" by fastforce
  show ?thesis using assms(2) populate_many [OF assms(1) vs] by (auto simp: serve_sample_def vs)
qed

text \<open>The signals a request names, the default set when it names none.\<close>

definition requested :: "ActiveDevice \<Rightarrow> string list \<Rightarrow> string list" where
  "requested d sids = (if sids = [] then default_signal_ids d else sids)"

lemma static_part_same_signals:
  "static_part d' = static_part d \<Longrightarrow> find_signal_index d' sid = find_signal_index d sid"
  by (simp add: static_part_def find_signal_index_def)

lemma refreshed_device:
  assumes "run_state (refresh_device_sample p i) w = (st, w1)" and "active_device i w = Some d"
  obtains d' where "active_device i w1 = Some d'" and "static_part d' = static_part d"
proof -
  have "frame_part w1 = frame_part w" using fixed.refresh_device_sample_R [of p i w] assms(1) by simp
  from active_device_static [OF this, of i] assms(2) that show ?thesis by auto
qed

lemma is_ok_code: "is_ok st \<longleftrightarrow> code st = Ok"
  by (simp add: is_ok_def)

lemma refresh_then_serve_outcome:
  assumes "run_state (refresh_then_serve p sdk i ks) w = (r, w')" and "active_device i w = Some d"
    and "list_all2 (\<lambda>sid k. find_signal_index d sid = Some k) sids ks"
    and "run_state (refresh_device_sample p i) w = (st, w1)"
  shows "\<exists>d'. active_device i w1 = Some d' \<and> active_device i w' = Some d' \<and> static_part d' = static_part d \<and>
    (if has_sample (ad_sample d')
     then arr_ok r \<and> arr_code r = CODE_OK \<and> map sv_signal_id (arr_values r) = sids \<and>
       map sv_double_value (arr_values r) = map (published d') sids \<and>
       list_all (\<lambda>v. sv_timestamp v = Some (to_proto_timestamp (sampled_at (ad_sample d')))) (arr_values r)
     else \<not> arr_ok r \<and> arr_values r = [] \<and>
       (\<not> is_ok st \<longrightarrow> arr_code r = map_i2c_status_code (code st) \<and> arr_message r = message st))"
proof -
  from assms(4,2) obtain d' where d': "active_device i w1 = Some d'" "static_part d' = static_part d" by (rule refreshed_device)
  define w2 where "w2 = (if is_ok st then w1 else w1\<lparr>logged := logged w1 @
    [log_line ''WARN'' (''read_signals refresh failed for '' @ quoted i @ '': '' @ message st)]\<rparr>)"
  have w2: "active_device i w2 = Some d'" by (simp add: w2_def d')
  have idx: "list_all2 (\<lambda>sid k. find_signal_index d' sid = Some k) sids ks"
    using assms(3) by (simp add: static_part_same_signals [OF d'(2)])
  show ?thesis
  proof (cases "\<not> is_ok st \<and> \<not> has_sample (ad_sample d')")
    case True
    then have "r = read_failure (map_i2c_status_code (code st)) (message st)" "w' = w2"
      using assms(1,4) d' by (simp_all add: refresh_then_serve_def w2_def)
    with True d' w2 show ?thesis by (simp add: read_failure_def)
  next
    case False
    obtain s where "run_state (serve_sample p sdk s d' ks) w2 = (r, w')"
      using assms(1,4) d' False by (cases "is_ok st") (auto simp: refresh_then_serve_def w2_def)
    from serve_sample_ok [OF idx this] False d' w2 show ?thesis by (auto simp: read_failure_def split: if_splits)
  qed
qed

text \<open>Whether the cached sample is recent enough to be served without going to the bus.\<close>

definition reusable :: "('b, 'h, 'r) platform \<Rightarrow> ('b, 'r) world \<Rightarrow> ActiveDevice \<Rightarrow> bool" where
  "reusable p w d \<longleftrightarrow> has_sample (ad_sample d) \<and>
     duration_ms (system_clock p (clock_reads w) - sampled_at (ad_sample d)) \<le> query_latency_ms (rs_config (g_state w))"

definition after_age_check :: "ActiveDevice \<Rightarrow> ('b, 'r) world \<Rightarrow> ('b, 'r) world" where
  "after_age_check d w = (if has_sample (ad_sample d) then w\<lparr>clock_reads := clock_reads w + 1\<rparr> else w)"

lemma after_age_check_sel [simp]:
  "g_state (after_age_check d w) = g_state w" "g_executor (after_age_check d w) = g_executor w"
  "job_count (after_age_check d w) = job_count w" "active_device i (after_age_check d w) = active_device i w"
  by (simp_all add: after_age_check_def)

lemma needs_refresh_run:
  "run_state (needs_refresh p (snapshot w) d) w = (\<not> reusable p w d, after_age_check d w)"
  by (auto simp: needs_refresh_def reusable_def after_age_check_def)

lemma read_signals_run:
  assumes "active_device i w = Some d" and "signal_indexes d (requested d sids) = Inr ks"
  shows "run_state (read_signals p sdk i sids) w =
    (if reusable p w d then run_state (serve_sample p sdk (snapshot w) d ks) (after_age_check d w)
     else run_state (refresh_then_serve p sdk i ks) (after_age_check d w))"
  using assms by (simp add: read_signals_def requested_def needs_refresh_run)

text \<open>
  C20: reads that need no bus. An unknown device, or a request that names an unknown signal, is answered as not found and
  changes nothing. A sample no older than one transaction is served from the cache: the values are those published for
  exactly the requested signals (the default set when none is named), in order, stamped with the time of the sample,
  and neither the state nor the executor nor the job count changes.
\<close>

theorem read_without_bus:
  "case active_device i w of
     None \<Rightarrow> run_state (read_signals p sdk i sids) w = (read_failure CODE_NOT_FOUND ''unknown device_id'', w)
   | Some d \<Rightarrow>
       (case signal_indexes d (requested d sids) of
          Inl sid \<Rightarrow> find_signal_index d sid = None \<and> sid \<in> set (requested d sids) \<and>
            run_state (read_signals p sdk i sids) w = (read_failure CODE_NOT_FOUND (''unknown signal_id '' @ quoted sid), w)
        | Inr ks \<Rightarrow>
            if reusable p w d
            then (\<exists>r w'. run_state (read_signals p sdk i sids) w = (r, w') \<and> arr_ok r \<and>
              map sv_signal_id (arr_values r) = requested d sids \<and>
              map sv_double_value (arr_values r) = map (published d) (requested d sids) \<and>
              list_all (\<lambda>v. sv_timestamp v = Some (to_proto_timestamp (sampled_at (ad_sample d)))) (arr_values r) \<and>
              g_state w' = g_state w \<and> g_executor w' = g_executor w \<and> job_count w' = job_count w)
            else True)"
proof (cases "active_device i w")
  case (Some d)
  note d = this
  show ?thesis
  proof (cases "signal_indexes d (requested d sids)")
    case (Inl sid)
    have "signal_indexes d xs = Inl sid \<Longrightarrow> find_signal_index d sid = None \<and> sid \<in> set xs" for xs
      by (induction xs) (auto split: option.splits sum.splits)
    from this [OF Inl] Inl show ?thesis by (simp add: d read_signals_def requested_def)
  next
    case (Inr ks)
    obtain r w' where serve: "run_state (serve_sample p sdk (snapshot w) d ks) (after_age_check d w) = (r, w')" by fastforce
    have "reusable p w d \<Longrightarrow> has_sample (ad_sample d)" by (simp add: reusable_def)
    with serve_sample_ok [OF signal_indexes_Inr [OF Inr] serve] show ?thesis
      by (auto simp: d Inr read_signals_run [OF d Inr] serve)
  qed
qed (simp add: read_signals_def)

text \<open>
  C19: reads that go to the bus. A device without a sample, or whose sample is older than one transaction, is refreshed
  first. The answer then shows what the device publishes after the refresh, for exactly the requested signals; if the
  refresh failed it is the last good sample, and only when there never was one does the read fail, with the code and
  the text of the refresh.
\<close>

theorem read_refreshes:
  assumes "active_device i w = Some d" and "signal_indexes d (requested d sids) = Inr ks" and "\<not> reusable p w d"
    and "run_state (refresh_device_sample p i) (after_age_check d w) = (st, w1)" and "i \<noteq> ''''"
    and "run_state (read_signals p sdk i sids) w = (r, w')"
  shows "\<exists>d'. active_device i w1 = Some d' \<and> active_device i w' = Some d' \<and>
    (arr_ok r \<longleftrightarrow> is_ok st \<or> has_sample (ad_sample d)) \<and>
    (arr_ok r \<longrightarrow> map sv_signal_id (arr_values r) = requested d sids \<and>
       map sv_double_value (arr_values r) = map (published d') (requested d sids) \<and>
       list_all (\<lambda>v. sv_timestamp v = Some (to_proto_timestamp (sampled_at (ad_sample d')))) (arr_values r)) \<and>
    (\<not> arr_ok r \<longrightarrow> arr_code r = map_i2c_status_code (code st) \<and> arr_message r = message st) \<and>
    (\<not> is_ok st \<longrightarrow> d' = fail_sample st d)"
proof -
  have d: "active_device i (after_age_check d w) = Some d" using assms(1) by simp
  have "run_state (refresh_then_serve p sdk i ks) (after_age_check d w) = (r, w')"
    using assms(6) by (simp add: read_signals_run [OF assms(1,2)] assms(3))
  from refresh_then_serve_outcome [OF this d signal_indexes_Inr [OF assms(2)] assms(4)] obtain d'
    where d': "active_device i w1 = Some d'" "active_device i w' = Some d'" and
      out: "if has_sample (ad_sample d')
       then arr_ok r \<and> arr_code r = CODE_OK \<and> map sv_signal_id (arr_values r) = requested d sids \<and>
         map sv_double_value (arr_values r) = map (published d') (requested d sids) \<and>
         list_all (\<lambda>v. sv_timestamp v = Some (to_proto_timestamp (sampled_at (ad_sample d')))) (arr_values r)
       else \<not> arr_ok r \<and> arr_values r = [] \<and>
         (\<not> is_ok st \<longrightarrow> arr_code r = map_i2c_status_code (code st) \<and> arr_message r = message st)" by blast
  have "if is_ok st then has_sample (ad_sample d') else d' = fail_sample st d"
    using refresh_device_outcome [OF assms(4) d assms(5)] d'(1) by (auto simp: freshly_sampled_def split: if_splits)
  moreover have "has_sample (ad_sample (fail_sample st d)) = has_sample (ad_sample d)"
    by (simp add: fail_sample_def Let_def)
  ultimately show ?thesis using d' out by (auto split: if_splits)
qed

lemma demo_requested: "signal_indexes demo_device (requested demo_device []) = Inr [0]"
  by (simp add: requested_def demo_device_def demo_spec_def activate_def default_signal_ids_for_type_def
      signal_definitions_for_type_def find_signal_index_def build_capabilities_def capability_builders
      empty_CapabilitySet_def signal_spec_def adapter_for.simps ph_kAdapter_def ph_kSignals_def def_signal_def Let_def)

lemma demo_no_sample: "\<not> has_sample (ad_sample demo_device)"
  by (simp add: demo_device_def activate_def new_DeviceSampleCache_def Let_def)

lemma demo_unaged: "after_age_check demo_device demo_world = demo_world"
  by (simp add: after_age_check_def demo_no_sample)

theorem read_refreshes_witness:
  "arr_ok (fst (run_state (read_signals demo_platform demo_sdk ''ph0'' []) demo_world)) \<and>
   length (arr_values (fst (run_state (read_signals demo_platform demo_sdk ''ph0'' []) demo_world))) = 1"
proof -
  obtain w1 where refresh: "run_state (refresh_device_sample demo_platform ''ph0'') (after_age_check demo_device demo_world) = (Status_ok, w1)"
    using demo_statuses(1) demo_unaged by (metis prod.collapse)
  obtain r w' where run: "run_state (read_signals demo_platform demo_sdk ''ph0'' []) demo_world = (r, w')" by fastforce
  have old: "\<not> reusable demo_platform demo_world demo_device" by (simp add: reusable_def demo_no_sample)
  from read_refreshes [OF demo_active demo_requested old refresh _ run]
  have "arr_ok r" "map sv_signal_id (arr_values r) = requested demo_device []" by auto
  moreover have "length (requested demo_device []) = 1"
    using list_all2_lengthD [OF signal_indexes_Inr [OF demo_requested]] by simp
  ultimately show ?thesis using run by (metis fst_conv length_map)
qed

subsection \<open>Health and readiness\<close>

lemma startup_ok_capabilities:
  assumes "startup_ok p config (g_state w) (g_executor w)" and "active_device i w = Some d"
  shows "rs_config (g_state w) = config \<and> ad_capabilities d = build_capabilities (bops p) (drv p) config (ds_type (ad_spec d))"
proof -
  have mem: "d \<in> set (active_devices (g_state w))"
    using assms(2) find_SomeD by (fastforce simp: active_device_def find_active_device_unlocked_def)
  then obtain e where "g_executor w = Some e" using assms(1) by (cases "g_executor w") (auto simp: startup_ok_def)
  with assms(1) mem have "described p config (static_part d)" by (simp add: startup_ok_def list_all_iff)
  then obtain info where "static_part d = static_part (activate p config (ad_spec d) info)"
    by (auto simp: described_def static_part_def)
  then show ?thesis using assms(1) by (simp add: startup_ok_def static_part_def)
qed

text \<open>
  C29: the freshness the provider enforces is the freshness it advertises. Once started, an active device whose latest read
  succeeded is reported STALE exactly when the age of its sample exceeds the bound declared in each of the signal
  specifications of that device, and OK otherwise. A device whose latest read failed is reported FAULT however old its
  sample is, and one that never had a sample UNREACHABLE.
\<close>

theorem health_as_advertised:
  assumes "startup_ok p config (g_state w) (g_executor w)" and "active_device i w = Some d"
    and "s \<in> set (cap_signals (ad_capabilities d))" and "run_state (device_health p i) w = (h, w')"
  shows "dh_state h = Some (
    if \<not> has_sample (ad_sample d) then STATE_UNREACHABLE
    else if \<not> last_read_ok (ad_sample d) then STATE_FAULT
    else if uint (ss_stale_after_ms s) < duration_ms (system_clock p (clock_reads w) - sampled_at (ad_sample d)) then STATE_STALE
    else STATE_OK)"
proof -
  have caps: "rs_config (g_state w) = config" "ad_capabilities d = build_capabilities (bops p) (drv p) config (ds_type (ad_spec d))"
    using startup_ok_capabilities [OF assms(1,2)] by simp_all
  then have "uint (ss_stale_after_ms s) = stale_after_ms config"
    using assms(3) by (auto simp: signal_spec_def stale_after_word)
  moreover have "dh_state h = Some (fst (live_state (snapshot w) d (system_clock p (clock_reads w))))"
    using assms(2,4) by (auto simp: device_health_def active_health_def Let_def)
  ultimately show ?thesis by (simp add: live_state_def caps Let_def)
qed

text \<open>The demonstration device with a sample taken at time \<open>t\<close>, whose latest read succeeded or failed.\<close>

definition demo_sampled :: "time_point \<Rightarrow> bool \<Rightarrow> ActiveDevice" where
  "demo_sampled t ok = demo_device\<lparr>ad_sample := (ad_sample demo_device)\<lparr>has_sample := True, last_read_ok := ok, sampled_at := t\<rparr>\<rparr>"

definition demo_up :: "ActiveDevice \<Rightarrow> (nat, unit) world" where
  "demo_up d = demo_world\<lparr>g_state := new_RuntimeState\<lparr>active_devices := [d],
     rs_config := default_ProviderConfig\<lparr>devices := [demo_spec]\<rparr>, ready := True\<rparr>\<rparr>"

lemma demo_up_started:
  assumes "static_part d = static_part demo_device"
  shows "startup_ok demo_platform (default_ProviderConfig\<lparr>devices := [demo_spec]\<rparr>) (g_state (demo_up d)) (g_executor (demo_up d))"
proof -
  let ?c = "default_ProviderConfig\<lparr>devices := [demo_spec]\<rparr>"
  have "static_part demo_device = static_part (activate demo_platform ?c demo_spec default_info)"
    by (simp add: demo_device_def static_part_def activate_def Let_def build_capabilities_def build_descriptor_def signal_spec_def [abs_def]
        sample_interval_ms_def stale_after_ms_def)
  moreover have "fst (static_part demo_device) = demo_spec" "ad_spec d = demo_spec"
    using assms by (simp_all add: static_part_def demo_device_def)
  ultimately have "described demo_platform ?c (static_part d)"
    unfolding described_def assms by (intro exI [of _ default_info]) simp
  then show ?thesis using \<open>ad_spec d = demo_spec\<close>
    by (simp add: startup_ok_def demo_up_def demo_world_def new_RuntimeState_def)
qed

theorem health_as_advertised_witness:
  "dh_state (fst (run_state (device_health demo_platform ''ph0'') (demo_up demo_device))) = Some STATE_UNREACHABLE \<and>
   dh_state (fst (run_state (device_health demo_platform ''ph0'') (demo_up (demo_sampled (- 8000000000) True)))) = Some STATE_STALE \<and>
   dh_state (fst (run_state (device_health demo_platform ''ph0'') (demo_up (demo_sampled (- 7000000000) True)))) = Some STATE_OK \<and>
   dh_state (fst (run_state (device_health demo_platform ''ph0'') (demo_up (demo_sampled (- 8000000000) False)))) = Some STATE_FAULT"
proof -
  let ?caps = "cap_signals (ad_capabilities demo_device)"
  have "?caps \<noteq> []" by (simp add: demo_device_def demo_spec_def adapter_for.simps ph_kAdapter_def ph_kSignals_def)
  then obtain s where s: "s \<in> set ?caps" by (meson last_in_set)
  then have "uint (ss_stale_after_ms s) = stale_after_ms default_ProviderConfig"
    by (auto simp: demo_device_def signal_spec_def stale_after_word)
  then have bound: "uint (ss_stale_after_ms s) = 7500" by (simp add: stale_after_eq kMinStaleAfterMs_def default_ProviderConfig_def sample_interval_ms_def kMinSampleIntervalMs_def int_max_def)
  have health: "dh_state (fst (run_state (device_health demo_platform ''ph0'') (demo_up d))) = Some (
      if \<not> has_sample (ad_sample d) then STATE_UNREACHABLE
      else if \<not> last_read_ok (ad_sample d) then STATE_FAULT
      else if uint (ss_stale_after_ms s) < duration_ms (system_clock demo_platform (clock_reads (demo_up d)) - sampled_at (ad_sample d))
      then STATE_STALE else STATE_OK)" if d: "static_part d = static_part demo_device" for d
  proof -
    have "ad_spec d = ad_spec demo_device" "s \<in> set (cap_signals (ad_capabilities d))" using d s by (simp_all add: static_part_def)
    then have "active_device ''ph0'' (demo_up d) = Some d"
      by (simp add: demo_up_def active_device_def find_active_device_unlocked_def has_id_def demo_device_def demo_spec_def)
    with \<open>s \<in> set (cap_signals (ad_capabilities d))\<close> show ?thesis
      using health_as_advertised [OF demo_up_started [OF d]] by (metis prod.collapse)
  qed
  have "static_part (demo_sampled t ok) = static_part demo_device" for t ok by (simp add: demo_sampled_def)
  moreover have "system_clock demo_platform n = int n" "clock_reads (demo_up d) = 0" for n d
    by (simp_all add: demo_platform_def demo_up_def demo_world_def initial_world_def)
  moreover have "has_sample (ad_sample (demo_sampled t ok))" "last_read_ok (ad_sample (demo_sampled t ok)) = ok"
    "sampled_at (ad_sample (demo_sampled t ok)) = t" for t ok by (simp_all add: demo_sampled_def)
  ultimately show ?thesis using demo_no_sample by (simp add: health bound duration_ms_def)
qed

end
