(* ===== verification/Ezo_Text.thy ===== *)
theory Ezo_Text
  imports Ezo_Double
begin

text \<open>
  The text conversions of the C library the mock bus uses: \<^verbatim>\<open>strtoul\<close> and \<^verbatim>\<open>strtod\<close> in the C locale (with a null end
  pointer, so only the value matters), \<^verbatim>\<open>std::getline\<close> with a delimiter, and \<^verbatim>\<open>printf\<close>'s fixed-point form. The main
  facts: printing rounds to the nearest multiple of the last digit, and reading the printed text gives that
  multiple, correctly rounded. \<^verbatim>\<open>unsigned long\<close> has 64 bits, as on the platforms with an i2c-dev bus.
\<close>

section \<open>Characters and prefixes\<close>

definition is_space :: "char \<Rightarrow> bool" where
  "is_space c \<longleftrightarrow> of_char c = (32 :: nat) \<or> (9 \<le> (of_char c :: nat) \<and> (of_char c :: nat) \<le> 13)"

definition is_digit :: "char \<Rightarrow> bool" where
  "is_digit c \<longleftrightarrow> 48 \<le> (of_char c :: nat) \<and> (of_char c :: nat) \<le> 57"

definition to_lower :: "char \<Rightarrow> char" where
  "to_lower c = (if 65 \<le> (of_char c :: nat) \<and> (of_char c :: nat) \<le> 90 then char_of ((of_char c :: nat) + 32) else c)"

definition is_xdigit :: "char \<Rightarrow> bool" where
  "is_xdigit c \<longleftrightarrow> digit_value (to_lower c) < 16"

definition starts_with :: "string \<Rightarrow> string \<Rightarrow> bool" where
  "starts_with s pre \<longleftrightarrow> take (length pre) s = pre"

fun split_sign :: "string \<Rightarrow> bool \<times> string" where
  "split_sign [] = (False, [])"
| "split_sign (c # s) = (if c = CHR ''-'' then (True, s) else if c = CHR ''+'' then (False, s) else (False, c # s))"

section \<open>Reading numbers\<close>

text \<open>\<^verbatim>\<open>strtoul\<close> saturates at the largest value and negates a signed number modulo \<open>2^64\<close>.\<close>

definition strtoul :: "string \<Rightarrow> u64" where
  "strtoul s =
     (case split_sign (dropWhile is_space s) of (neg, t) \<Rightarrow>
        let n = read_digits 10 (takeWhile is_digit t) in
        if 2 ^ 64 \<le> n then - 1 else if neg then - of_nat n else of_nat n)"

text \<open>An exponent part counts only when it has a digit.\<close>

definition read_exponent :: "char \<Rightarrow> string \<Rightarrow> int" where
  "read_exponent mark s =
     (case s of
        [] \<Rightarrow> 0
      | c # t \<Rightarrow>
          if to_lower c \<noteq> mark then 0
          else case split_sign t of (neg, ds) \<Rightarrow>
            (let n = int (read_digits 10 (takeWhile is_digit ds)) in if neg then - n else n))"

definition split_fraction :: "(char \<Rightarrow> bool) \<Rightarrow> string \<Rightarrow> string \<times> string \<times> string" where
  "split_fraction ok s =
     (let whole = takeWhile ok s; rest = dropWhile ok s in
      if rest \<noteq> [] \<and> hd rest = CHR ''.'' then (whole, takeWhile ok (tl rest), dropWhile ok (tl rest))
      else (whole, [], rest))"

definition read_decimal :: "string \<Rightarrow> rat" where
  "read_decimal s =
     (case split_fraction is_digit s of (whole, fraction, rest) \<Rightarrow>
        if whole = [] \<and> fraction = [] then 0
        else of_nat (read_digits 10 (whole @ fraction)) * 10 powi (read_exponent CHR ''e'' rest - int (length fraction)))"

definition read_hex_float :: "string \<Rightarrow> rat" where
  "read_hex_float s =
     (case split_fraction is_xdigit s of (whole, fraction, rest) \<Rightarrow>
        of_nat (read_digits 16 (map to_lower (whole @ fraction))) * 2 powi (read_exponent CHR ''p'' rest - 4 * int (length fraction)))"

text \<open>A hexadecimal number needs a digit after its prefix; otherwise the leading zero is the number.\<close>

definition has_hex :: "string \<Rightarrow> bool" where
  "has_hex s \<longleftrightarrow> starts_with (map to_lower s) ''0x'' \<and>
     (case split_fraction is_xdigit (drop 2 s) of (whole, fraction, _) \<Rightarrow> whole \<noteq> [] \<or> fraction \<noteq> [])"

definition strtod :: "string \<Rightarrow> double" where
  "strtod s =
     (case split_sign (dropWhile is_space s) of (neg, t) \<Rightarrow>
        let v = (if starts_with (map to_lower t) ''inf'' then PInf
                 else if starts_with (map to_lower t) ''nan'' then NaN
                 else if has_hex t then round_double (read_hex_float (drop 2 t))
                 else round_double (read_decimal t))
        in if neg then dneg v else v)"

section \<open>Printing in fixed-point form\<close>

definition pad_zeros :: "nat \<Rightarrow> string \<Rightarrow> string" where
  "pad_zeros n s = replicate (n - length s) CHR ''0'' @ s"

definition print_fixed :: "nat \<Rightarrow> nat \<Rightarrow> string" where
  "print_fixed d n = show_nat (n div 10 ^ d) @ (if d = 0 then '''' else CHR ''.'' # pad_zeros d (show_nat (n mod 10 ^ d)))"

text \<open>\<^verbatim>\<open>"%.*f"\<close>: the exact binary value, rounded to nearest with ties to even.\<close>

fun printf_fixed :: "nat \<Rightarrow> double \<Rightarrow> string" where
  "printf_fixed d (Fin q) = (if q < 0 then ''-'' else '''') @ print_fixed d (nat (round_half_even (\<bar>q\<bar> * 10 ^ d)))"
| "printf_fixed d PInf = ''inf''"
| "printf_fixed d NInf = ''-inf''"
| "printf_fixed d NaN = ''nan''"

section \<open>Splitting at a delimiter\<close>

text \<open>The lines of repeated \<^verbatim>\<open>std::getline\<close>: no empty line after a final delimiter.\<close>

function getlines :: "char \<Rightarrow> string \<Rightarrow> string list" where
  "getlines c s =
     (if s = [] then [] else takeWhile (\<lambda>x. x \<noteq> c) s # getlines c (drop 1 (dropWhile (\<lambda>x. x \<noteq> c) s)))"
  by auto
termination
proof (relation "measure (\<lambda>(c, s). length s)")
  fix c s
  assume "s \<noteq> ([] :: string)"
  then show "((c, drop 1 (dropWhile (\<lambda>x. x \<noteq> c) s)), (c, s)) \<in> measure (\<lambda>(c, s). length s)"
    using length_dropWhile_le [of "\<lambda>x. x \<noteq> c" s] by (cases s) auto
qed simp

declare getlines.simps [simp del]

section \<open>Printing and reading back\<close>

lemma is_digit_nth: "d < 10 \<Longrightarrow> is_digit (''0123456789abcdef'' ! d)"
proof -
  assume "d < 10"
  then have "d \<in> set [0..<10]" by simp
  moreover have "\<forall>d \<in> set [0..<10]. is_digit (''0123456789abcdef'' ! d)"
    by (simp add: is_digit_def upt_rec)
  ultimately show ?thesis by blast
qed

lemma show_nat_digits: "list_all is_digit (show_nat n)"
proof -
  have "b = 10 \<Longrightarrow> list_all is_digit (show_digits b n)" for b
  proof (induction b n rule: show_digits.induct)
    case (1 b n)
    then show ?case by (subst show_digits.simps) (simp add: is_digit_nth)
  qed
  then show ?thesis by (simp add: show_nat_def)
qed

lemma show_nat_not_Nil [simp]: "show_nat n \<noteq> []"
  by (simp add: show_nat_def)

lemma read_show_nat [simp]: "read_digits 10 (show_nat n) = n"
  by (simp add: show_nat_def read_show_digits)

lemma foldl_read_digits: "foldl (\<lambda>acc c. acc * b + digit_value c) a s = a * b ^ length s + read_digits b s"
  unfolding read_digits_def
proof (induction s rule: rev_induct)
  case (snoc c s)
  then show ?case by (simp add: algebra_simps)
qed simp

lemma read_digits_append: "read_digits b (s @ t) = read_digits b s * b ^ length t + read_digits b t"
  using foldl_read_digits [of b "read_digits b s" t] by (simp add: read_digits_def)

lemma read_zeros: "read_digits b (replicate n CHR ''0'') = 0"
  by (induction n) (simp_all add: read_digits_def digit_value_def)

lemma length_show_nat_le: "n < 10 ^ d \<Longrightarrow> 0 < d \<Longrightarrow> length (show_nat n) \<le> d"
proof -
  have "b = 10 \<Longrightarrow> n < 10 ^ d \<Longrightarrow> 0 < d \<Longrightarrow> length (show_digits b n) \<le> d" for b
  proof (induction b n arbitrary: d rule: show_digits.induct)
    case (1 b n)
    show ?case
    proof (cases "n < 10")
      case True
      then show ?thesis using 1 by (subst show_digits.simps) simp
    next
      case False
      then have d: "1 < d" using 1(3,4) by (metis One_nat_def less_one linorder_neqE_nat not_less_iff_gr_or_eq power_one_right)
      then have "n div 10 < 10 ^ (d - 1)"
        using 1(3) by (simp add: less_mult_imp_div_less power_eq_if)
      then have "length (show_digits b (n div b)) \<le> d - 1" using 1(1) [of "d - 1"] False 1(2) d by simp
      then show ?thesis using False 1(2) d by (subst show_digits.simps) simp
    qed
  qed
  then show "n < 10 ^ d \<Longrightarrow> 0 < d \<Longrightarrow> length (show_nat n) \<le> d" by (simp add: show_nat_def)
qed

lemma pad_zeros_props:
  assumes "n < 10 ^ d" and "0 < d"
  shows "length (pad_zeros d (show_nat n)) = d" and "list_all is_digit (pad_zeros d (show_nat n))"
    and "read_digits 10 (pad_zeros d (show_nat n)) = n"
  using length_show_nat_le [OF assms] show_nat_digits [of n]
  by (auto simp: pad_zeros_def read_digits_append read_zeros list_all_iff is_digit_def)

lemma digit_plain:
  assumes "is_digit c"
  shows "\<not> is_space c" and "c \<noteq> CHR ''-''" and "c \<noteq> CHR ''+''" and "to_lower c = c" and "c \<noteq> CHR ''i''" and "c \<noteq> CHR ''n''"
    and "c \<noteq> CHR ''x''" and "c \<noteq> CHR ''.''"
  using assms by (auto simp: is_digit_def is_space_def to_lower_def)

lemma takeWhile_digits:
  "list_all is_digit s \<Longrightarrow> takeWhile is_digit (s @ CHR ''.'' # t) = s"
  "list_all is_digit s \<Longrightarrow> dropWhile is_digit (s @ CHR ''.'' # t) = CHR ''.'' # t"
  "list_all is_digit s \<Longrightarrow> takeWhile is_digit s = s" "list_all is_digit s \<Longrightarrow> dropWhile is_digit s = []"
  by (simp_all add: takeWhile_append2 dropWhile_append2 list_all_iff takeWhile_eq_all_conv dropWhile_eq_Nil_conv is_digit_def)

text \<open>What may follow a printed number without being read as part of it.\<close>

definition ends_number :: "string \<Rightarrow> bool" where
  "ends_number t \<longleftrightarrow> (case t of [] \<Rightarrow> True | c # _ \<Rightarrow> \<not> is_digit c \<and> to_lower c \<noteq> CHR ''e'')"

lemma ends_number_props:
  assumes "ends_number t" and "list_all is_digit s"
  shows "takeWhile is_digit (s @ t) = s" and "dropWhile is_digit (s @ t) = t" and "read_exponent CHR ''e'' t = 0"
  using assms
  by (cases t; simp add: ends_number_def takeWhile_digits takeWhile_append2 dropWhile_append2 list_all_iff read_exponent_def)+

lemma split_fraction_print:
  assumes "list_all is_digit s" and "list_all is_digit t" and "ends_number u"
  shows "split_fraction is_digit (s @ CHR ''.'' # t @ u) = (s, t, u)"
  using assms by (simp add: split_fraction_def takeWhile_digits ends_number_props Let_def)

lemma read_decimal_print:
  assumes "0 < d" and u: "ends_number u"
  shows "read_decimal (print_fixed d n @ u) = of_nat n / 10 ^ d"
proof -
  let ?w = "show_nat (n div 10 ^ d)" and ?f = "pad_zeros d (show_nat (n mod 10 ^ d))"
  have r: "n mod 10 ^ d < 10 ^ d" by simp
  note f = pad_zeros_props [OF r assms(1)]
  have split: "split_fraction is_digit (print_fixed d n @ u) = (?w, ?f, u)"
    using assms split_fraction_print [OF show_nat_digits f(2)] by (simp add: print_fixed_def)
  have "read_digits 10 (?w @ ?f) = n"
    using div_mult_mod_eq [of n "10 ^ d"] by (simp add: read_digits_append f)
  then show ?thesis
    unfolding read_decimal_def split
    by (simp add: f(1) ends_number_props [OF u show_nat_digits] power_int_minus divide_inverse)
qed

lemma print_fixed_head:
  obtains c s where "print_fixed d n = c # s" and "is_digit c" and "s = [] \<or> to_lower (hd s) \<noteq> CHR ''x''"
proof -
  obtain c w where w: "show_nat (n div 10 ^ d) = c # w" by (cases "show_nat (n div 10 ^ d)") auto
  then have "is_digit c" and "list_all is_digit w" using show_nat_digits [of "n div 10 ^ d"] by simp_all
  moreover define s where "s = w @ (if d = 0 then '''' else CHR ''.'' # pad_zeros d (show_nat (n mod 10 ^ d)))"
  ultimately have "s = [] \<or> to_lower (hd s) \<noteq> CHR ''x''"
    using digit_plain by (cases w) (auto simp: to_lower_def)
  then show thesis using that [of c s] w \<open>is_digit c\<close> by (simp add: print_fixed_def s_def)
qed

text \<open>Reading a printed fixed-point number gives the printed multiple of the last digit, correctly rounded.\<close>

lemma strtod_print_fixed:
  assumes "0 < d" and u: "ends_number u" "u = [] \<or> to_lower (hd u) \<noteq> CHR ''x''"
  shows "strtod (print_fixed d n @ u) = round_double (of_nat n / 10 ^ d)"
proof -
  obtain c s where t: "print_fixed d n = c # s" and c: "is_digit c" and no_x: "s = [] \<or> to_lower (hd s) \<noteq> CHR ''x''"
    by (rule print_fixed_head)
  have "\<not> has_hex (c # s @ u)"
    using no_x u(2) by (cases s; cases u) (auto simp: has_hex_def starts_with_def)
  then have "strtod (c # s @ u) = round_double (read_decimal (c # s @ u))"
    using digit_plain [OF c] by (simp add: strtod_def starts_with_def)
  then show ?thesis using read_decimal_print [OF assms(1) u(1), of n] by (simp add: t)
qed

lemma round_half_even_error: "\<bar>of_int (round_half_even q) - q\<bar> \<le> 1 / 2"
proof -
  have "of_int \<lfloor>q\<rfloor> \<le> q" "q < of_int \<lfloor>q\<rfloor> + 1" by linarith+
  then show ?thesis by (simp add: round_half_even_def Let_def abs_if) linarith
qed

text \<open>What reading a printed number back gives: within half a unit of the last printed digit before the last rounding.\<close>

definition printed :: "nat \<Rightarrow> rat \<Rightarrow> rat" where
  "printed d q = of_int (round_half_even (q * 10 ^ d)) / 10 ^ d"

lemma printed_error: "\<bar>printed d q - q\<bar> \<le> 1 / (2 * 10 ^ d)"
proof -
  have "printed d q - q = (of_int (round_half_even (q * 10 ^ d)) - q * 10 ^ d) / 10 ^ d"
    by (simp add: printed_def field_simps)
  then have "\<bar>printed d q - q\<bar> = \<bar>of_int (round_half_even (q * 10 ^ d)) - q * 10 ^ d\<bar> / 10 ^ d"
    by (simp add: abs_divide)
  also have "\<dots> \<le> (1 / 2) / 10 ^ d" by (intro divide_right_mono round_half_even_error) simp
  finally show ?thesis by simp
qed

lemma round_half_even_nonneg: "0 \<le> q \<Longrightarrow> 0 \<le> round_half_even q"
  using round_half_even_mono [of 0 q] round_half_even_of_int [of 0] by simp

lemma strtod_printf_fixed:
  assumes "0 \<le> q" and "0 < d" and "ends_number u" "u = [] \<or> to_lower (hd u) \<noteq> CHR ''x''"
  shows "strtod (printf_fixed d (Fin q) @ u) = round_double (printed d q)"
proof -
  have "of_nat (nat (round_half_even (q * 10 ^ d))) = (of_int (round_half_even (q * 10 ^ d)) :: rat)"
    using assms(1) by (simp add: round_half_even_nonneg)
  then show ?thesis using assms strtod_print_fixed [OF assms(2-4)] by (simp add: printed_def)
qed

lemma printed_nonneg: "0 \<le> q \<Longrightarrow> 0 \<le> printed d q"
  by (simp add: printed_def round_half_even_nonneg)

text \<open>The characters and the length of a printed number.\<close>

lemma print_fixed_chars: "set (print_fixed d n) \<subseteq> insert CHR ''.'' {c. is_digit c}"
  using show_nat_digits by (auto simp: print_fixed_def pad_zeros_def list_all_iff is_digit_def)

lemma length_print_fixed:
  assumes "n < 10 ^ (d + k)" and "0 < d" and "0 < k"
  shows "length (print_fixed d n) \<le> k + d + 1"
proof -
  have "n div 10 ^ d < 10 ^ k" using assms(1) by (simp add: less_mult_imp_div_less power_add mult.commute)
  then have "length (show_nat (n div 10 ^ d)) \<le> k" using assms(3) by (rule length_show_nat_le)
  moreover have "length (pad_zeros d (show_nat (n mod 10 ^ d))) = d" using assms(2) by (simp add: pad_zeros_props)
  ultimately show ?thesis using assms(2) by (simp add: print_fixed_def)
qed

text \<open>The rounding error of a value of at most \<open>2^20\<close>, far below the digits the wire carries.\<close>

lemma round_rat_error: "\<bar>round_rat q - q\<bar> \<le> pow2 (quantum_exp q) / 2"
proof (cases "q = 0")
  case False
  let ?e = "pow2 (quantum_exp q)"
  have "round_rat q - q = (of_int (round_half_even (q / ?e)) - q / ?e) * ?e"
    using False by (simp add: round_rat_def algebra_simps)
  then have "\<bar>round_rat q - q\<bar> = \<bar>of_int (round_half_even (q / ?e)) - q / ?e\<bar> * ?e"
    using pow2_pos [of "quantum_exp q"] by (simp only: abs_mult abs_of_pos)
  also have "\<dots> \<le> 1 / 2 * ?e" by (intro mult_right_mono round_half_even_error) (simp add: less_imp_le)
  finally show ?thesis by simp
qed (simp add: less_imp_le)

lemma round_rat_small:
  assumes "0 \<le> q" and "q \<le> 2 ^ 20"
  shows "\<bar>round_rat q - q\<bar> \<le> 1 / 1000000"
proof (cases "q = 0")
  case False
  then have "0 < q" using assms(1) by simp
  then have "pow2 (floor_log2 q) \<le> pow2 20"
    using floor_log2_bounds(1) [of q] assms(2) pow2_of_nat [of 20] by simp
  then have "quantum_exp q \<le> - 32" using assms(1) by (simp add: quantum_exp_def)
  then have "pow2 (quantum_exp q) \<le> pow2 (- 32)" by simp
  moreover have "pow2 (- 32) = 1 / 4294967296" by (simp add: pow2_def power_int_minus)
  ultimately show ?thesis using round_rat_error [of q] by simp
qed simp

text \<open>Printing, reading, printing and reading again moves a value by at most the two roundings.\<close>

lemma reread_error:
  assumes v: "0 \<le> v" "v \<le> 100000" and "0 < d"
  obtains q r where "round_double (printed d v) = Fin q" and "round_double (printed d q) = Fin r"
    and "0 \<le> q" and "q \<le> 100001" and "\<bar>v - r\<bar> \<le> 1 / 10 ^ d + 2 / 1000000"
proof -
  have d: "1 / (2 * 10 ^ d) \<le> (1 / 20 :: rat)" using assms(3) by (cases d) (auto simp: field_simps)
  have step: "round_double (printed d x) = Fin (round_rat (printed d x)) \<and> 0 \<le> round_rat (printed d x) \<and>
      \<bar>round_rat (printed d x) - x\<bar> \<le> 1 / (2 * 10 ^ d) + 1 / 1000000" if x: "0 \<le> x" "x \<le> 100001" for x
  proof -
    have p: "0 \<le> printed d x" "\<bar>printed d x - x\<bar> \<le> 1 / (2 * 10 ^ d)"
      using x printed_nonneg printed_error by auto
    have "printed d x \<le> 100002" using x(2) d p(2) by linarith
    then have le: "printed d x \<le> 2 ^ 20" by simp
    then have "\<bar>printed d x\<bar> \<le> 2 ^ 52" using p(1) by simp
    then have "round_double (printed d x) = Fin (round_rat (printed d x))" by (rule round_double_Fin)
    moreover have "0 \<le> round_rat (printed d x)" using p(1) by (rule round_rat_nonneg)
    moreover have "\<bar>round_rat (printed d x) - printed d x\<bar> \<le> 1 / 1000000" using p(1) le by (rule round_rat_small)
    ultimately show ?thesis using p(2) by linarith
  qed
  let ?q = "round_rat (printed d v)"
  let ?r = "round_rat (printed d ?q)"
  have q: "round_double (printed d v) = Fin ?q" "0 \<le> ?q" "\<bar>?q - v\<bar> \<le> 1 / (2 * 10 ^ d) + 1 / 1000000"
    using step [of v] v by auto
  then have le: "?q \<le> 100001" using v(2) d by linarith
  have r: "round_double (printed d ?q) = Fin ?r" "\<bar>?r - ?q\<bar> \<le> 1 / (2 * 10 ^ d) + 1 / 1000000"
    using step [OF q(2) le] by auto
  have "\<bar>v - ?r\<bar> \<le> (1 / (2 * 10 ^ d) + 1 / 1000000) + (1 / (2 * 10 ^ d) + 1 / 1000000)" using q(3) r(2) by linarith
  also have "\<dots> = 1 / 10 ^ d + 2 / 1000000" by (simp add: field_simps)
  finally show thesis using that q(1,2) r(1) le by blast
qed

lemma printf_fixed_length:
  assumes "0 \<le> q" and "q \<le> 100001" and "0 < d"
  shows "length (printf_fixed d (Fin q)) \<le> 7 + d"
proof -
  have p: "0 \<le> round_half_even (q * 10 ^ d)" using assms(1) by (simp add: round_half_even_nonneg)
  have "round_half_even (q * 10 ^ d) \<le> round_half_even (of_int (100001 * 10 ^ d))"
    using assms(2) by (intro round_half_even_mono) simp
  also have "\<dots> = 100001 * 10 ^ d" by (rule round_half_even_of_int)
  also have "\<dots> < 10 ^ (d + 6)" by (simp add: power_add)
  finally have "nat (round_half_even (q * 10 ^ d)) < nat (10 ^ (d + 6))" using p by linarith
  then have "nat (round_half_even (q * 10 ^ d)) < 10 ^ (d + 6)" by (simp add: nat_power_eq)
  from length_print_fixed [OF this assms(3)] show ?thesis using assms(1) by simp
qed

lemma printf_fixed_text:
  assumes "0 \<le> q"
  obtains c s where "printf_fixed d (Fin q) = c # s" and "is_digit c"
    and "set (printf_fixed d (Fin q)) \<subseteq> insert CHR ''.'' {c. is_digit c}"
proof -
  have p: "printf_fixed d (Fin q) = print_fixed d (nat (round_half_even (q * 10 ^ d)))" using assms by simp
  then show thesis using that print_fixed_head [of d "nat (round_half_even (q * 10 ^ d))"] print_fixed_chars by metis
qed

end
