(* ===== verification/Ezo_Canned.thy ===== *)
theory Ezo_Canned
  imports Ezo_State Ezo_Text
begin

text \<open>
  The canned EZO device behind the \<^verbatim>\<open>mock://\<close> bus (\<^verbatim>\<open>src/i2c/ezo_canned_bus.cpp\<close>): the behaviour switches of
  the bus query, one device state per address, and the command and response protocol on the wire. The
  doubles are IEEE values (\<open>Ezo_Double\<close>; the signs of zero and of NaN are not kept) and the text is read and
  printed as the C library does (\<open>Ezo_Text\<close>). \<^verbatim>\<open>delay_us\<close> only spends time, which the bus state does not show.
\<close>

section \<open>Options and device state\<close>

definition kStatusSuccess :: u8 where "kStatusSuccess = 0x01"
definition kStatusPending :: u8 where "kStatusPending = 0xFE"

datatype CannedFamily = Canned_Unknown | Canned_Ph | Canned_Orp | Canned_Ec | Canned_Do | Canned_Rtd | Canned_Hum

record CannedOptions =
  co_sleep_delays :: bool
  co_status_command :: string
  co_status_code :: u8
  co_pending_command :: string
  co_pending_reads :: u32
  co_calibration_level :: u32
  co_revert_after :: u32
  co_salinity_ppt :: bool
  co_start_temperature_c :: double

definition CannedOptions_new :: CannedOptions where
  "CannedOptions_new =
     \<lparr>co_sleep_delays = False, co_status_command = '''', co_status_code = 0, co_pending_command = '''', co_pending_reads = 0,
      co_calibration_level = 0, co_revert_after = 0, co_salinity_ppt = False, co_start_temperature_c = Fin 0\<rparr>"

record EzoCannedBus_DeviceState =
  cs_family :: CannedFamily
  cs_last_command :: string
  cs_read_seq :: u64
  cs_pending_left :: u32
  cs_calibration_level :: u32
  cs_temperature_c :: double
  cs_salinity :: double
  cs_salinity_ppt :: bool
  cs_pressure_kpa :: double
  cs_readings :: u64

definition EzoCannedBus_DeviceState_new :: EzoCannedBus_DeviceState where
  "EzoCannedBus_DeviceState_new =
     \<lparr>cs_family = Canned_Unknown, cs_last_command = '''', cs_read_seq = 0, cs_pending_left = 0, cs_calibration_level = 0,
      cs_temperature_c = Fin 0, cs_salinity = Fin 0, cs_salinity_ppt = False, cs_pressure_kpa = Fin 0, cs_readings = 0\<rparr>"

record EzoCannedBus =
  cb_bus_path :: string
  cb_options :: CannedOptions
  cb_opened :: bool
  cb_devices :: "u8 \<rightharpoonup> EzoCannedBus_DeviceState"

definition EzoCannedBus_new :: "string \<Rightarrow> CannedOptions \<Rightarrow> EzoCannedBus" where
  "EzoCannedBus_new path options = \<lparr>cb_bus_path = path, cb_options = options, cb_opened = False, cb_devices = Map.empty\<rparr>"

section \<open>Payloads\<close>

definition family_for_address :: "u8 \<Rightarrow> CannedFamily" where
  "family_for_address address =
     (if address = 0x61 then Canned_Do else if address = 0x62 then Canned_Orp else if address = 0x63 then Canned_Ph
      else if address = 0x64 then Canned_Ec else if address = 0x66 then Canned_Rtd else if address = 0x6F then Canned_Hum
      else Canned_Unknown)"

definition mock_base :: "u8 \<Rightarrow> double" where
  "mock_base address = dmul (double_of_int (int (unat address mod 17) + 1)) (round_double (1 / 10))"

definition mock_delta :: "u64 \<Rightarrow> double" where
  "mock_delta s = dmul (double_of_int (int (unat s mod 25))) (round_double (1 / 100))"

text \<open>\<^verbatim>\<open>snprintf\<close> into a 32-byte buffer keeps at most 31 characters.\<close>

definition fixed :: "double \<Rightarrow> nat \<Rightarrow> string" where
  "fixed v decimals = take 31 (printf_fixed decimals v)"

fun info_payload :: "CannedFamily \<Rightarrow> string" where
  "info_payload Canned_Ph = ''?I,pH,mock-1.0''"
| "info_payload Canned_Orp = ''?I,ORP,mock-1.0''"
| "info_payload Canned_Ec = ''?I,EC,mock-1.0''"
| "info_payload Canned_Do = ''?I,D.O.,mock-1.0''"
| "info_payload Canned_Rtd = ''?I,RTD,mock-1.0''"
| "info_payload Canned_Hum = ''?I,HUM,mock-1.0''"
| "info_payload Canned_Unknown = ''?I,UNK,mock-1.0''"

fun output_config_payload :: "CannedFamily \<Rightarrow> string" where
  "output_config_payload Canned_Do = ''?O,mg''"
| "output_config_payload Canned_Ec = ''?O,EC,TDS''"
| "output_config_payload Canned_Hum = ''?O,HUM,T''"
| "output_config_payload _ = ''''"

text \<open>\<^verbatim>\<open>c + base * x + delta * y\<close>, in the source's order of evaluation.\<close>

definition ranged :: "rat \<Rightarrow> double \<Rightarrow> double \<Rightarrow> double" where
  "ranged c base delta = dadd (dadd (Fin c) base) delta"

definition scaled :: "double \<Rightarrow> rat \<Rightarrow> double" where
  "scaled v k = dmul v (Fin k)"

definition read_payload :: "CannedFamily \<Rightarrow> u8 \<Rightarrow> u64 \<Rightarrow> string" where
  "read_payload family address s =
     (let base = mock_base address; delta = mock_delta s in
      case family of
        Canned_Ph \<Rightarrow> fixed (ranged (13 / 2) base delta) 3
      | Canned_Orp \<Rightarrow> fixed (ranged 250 (scaled base 10) (scaled delta 100)) 1
      | Canned_Rtd \<Rightarrow> fixed (ranged 20 base delta) 2
      | Canned_Do \<Rightarrow> fixed (ranged 7 base delta) 2
      | Canned_Ec \<Rightarrow> fixed (ranged 700 (scaled base 100) (scaled delta 100)) 1 @ '','' @
                     fixed (ranged 350 (scaled base 50) (scaled delta 80)) 1
      | Canned_Hum \<Rightarrow> fixed (ranged 45 (scaled base 5) (scaled delta 10)) 1 @ '','' @ fixed (ranged 22 base delta) 1
      | Canned_Unknown \<Rightarrow> '''')"

section \<open>Parsing the query\<close>

text \<open>The text before and after the first, or the last, occurrence of a character.\<close>

definition split_first :: "char \<Rightarrow> string \<Rightarrow> (string \<times> string) option" where
  "split_first c s =
     (if c \<in> set s then Some (takeWhile (\<lambda>x. x \<noteq> c) s, drop 1 (dropWhile (\<lambda>x. x \<noteq> c) s)) else None)"

definition split_last :: "char \<Rightarrow> string \<Rightarrow> (string \<times> string) option" where
  "split_last c s = (case split_first c (rev s) of None \<Rightarrow> None | Some (a, b) \<Rightarrow> Some (rev b, rev a))"

definition parse_option :: "string \<Rightarrow> CannedOptions \<Rightarrow> CannedOptions" where
  "parse_option pair options =
     (case split_first CHR ''='' pair of
        None \<Rightarrow> options
      | Some (key, val) \<Rightarrow>
          if key = ''sleep_delays'' then options\<lparr>co_sleep_delays := val = ''1''\<rparr>
          else if key = ''status'' then
            (case split_last CHR '':'' val of
               None \<Rightarrow> options
             | Some (cmd, n) \<Rightarrow> options\<lparr>co_status_command := cmd, co_status_code := ucast (strtoul n)\<rparr>)
          else if key = ''pending'' then
            (case split_last CHR '':'' val of
               None \<Rightarrow> options
             | Some (cmd, n) \<Rightarrow> options\<lparr>co_pending_command := cmd, co_pending_reads := ucast (strtoul n)\<rparr>)
          else if key = ''cal'' then options\<lparr>co_calibration_level := ucast (strtoul val)\<rparr>
          else if key = ''revert_after'' then options\<lparr>co_revert_after := ucast (strtoul val)\<rparr>
          else if key = ''sal_unit'' then options\<lparr>co_salinity_ppt := val = ''ppt''\<rparr>
          else if key = ''temp'' then options\<lparr>co_start_temperature_c := strtod val\<rparr>
          else options)"

definition CannedOptions_parse :: "string \<Rightarrow> CannedOptions" where
  "CannedOptions_parse query = fold parse_option (getlines CHR ''&'' query) CannedOptions_new"

section \<open>A device\<close>

definition reset_compensation :: "EzoCannedBus_DeviceState \<Rightarrow> EzoCannedBus_DeviceState" where
  "reset_compensation st =
     st\<lparr>cs_temperature_c := (if cs_family st = Canned_Do then Fin 20 else Fin 25), cs_salinity := Fin 0,
        cs_pressure_kpa := round_double (1013 / 10)\<rparr>"

definition fresh_state :: "CannedOptions \<Rightarrow> u8 \<Rightarrow> EzoCannedBus_DeviceState" where
  "fresh_state options address =
     (let st = EzoCannedBus_DeviceState_new\<lparr>cs_family := family_for_address address, cs_calibration_level := co_calibration_level options\<rparr>;
          st = (reset_compensation st)\<lparr>cs_salinity_ppt := co_salinity_ppt options\<rparr>
      in if co_start_temperature_c options > Fin 0 then st\<lparr>cs_temperature_c := co_start_temperature_c options\<rparr> else st)"

definition state_for :: "u8 \<Rightarrow> EzoCannedBus \<Rightarrow> EzoCannedBus_DeviceState" where
  "state_for address b =
     (case cb_devices b address of None \<Rightarrow> fresh_state (cb_options b) address | Some st \<Rightarrow> st)"

definition count_reading :: "CannedOptions \<Rightarrow> EzoCannedBus_DeviceState \<Rightarrow> EzoCannedBus_DeviceState" where
  "count_reading options st =
     (if co_revert_after options > 0 then
        let st = st\<lparr>cs_readings := cs_readings st + 1\<rparr> in
        if cs_readings st = ucast (co_revert_after options) then reset_compensation st else st
      else st)"

definition response_payload :: "CannedOptions \<Rightarrow> u8 \<Rightarrow> string \<Rightarrow> EzoCannedBus_DeviceState \<Rightarrow> string \<times> EzoCannedBus_DeviceState" where
  "response_payload options address command st =
     (if command = ''i'' then (info_payload (cs_family st), st)
      else if command = ''O,?'' then (output_config_payload (cs_family st), st)
      else if command = ''r'' \<or> starts_with command ''rt,'' then
        let st = count_reading options st in
        (read_payload (cs_family st) address (cs_read_seq st), st\<lparr>cs_read_seq := cs_read_seq st + 1\<rparr>)
      else if command = ''Cal,?'' then (''?Cal,'' @ show_nat (unat (cs_calibration_level st)), st)
      else if command = ''T,?'' then (''?T,'' @ fixed (cs_temperature_c st) 2, st)
      else if command = ''S,?'' then (''?S,'' @ fixed (cs_salinity st) 1 @ (if cs_salinity_ppt st then '',ppt'' else '',uS''), st)
      else if command = ''P,?'' then (''?P,'' @ fixed (cs_pressure_kpa st) 2, st)
      else ('''', st))"

text \<open>A compensation command: one of the letters, a comma, and a value that does not start with a question mark.\<close>

definition sets_compensation :: "string \<Rightarrow> bool" where
  "sets_compensation cmd \<longleftrightarrow> length cmd > 2 \<and> cmd ! 1 = CHR '','' \<and> cmd ! 2 \<noteq> CHR ''?'' \<and>
     (cmd ! 0 = CHR ''T'' \<or> cmd ! 0 = CHR ''S'' \<or> cmd ! 0 = CHR ''P'')"

fun contains :: "string \<Rightarrow> string \<Rightarrow> bool" where
  "contains [] pat = (pat = [])"
| "contains (c # s) pat = (starts_with (c # s) pat \<or> contains s pat)"

definition set_compensation :: "string \<Rightarrow> EzoCannedBus_DeviceState \<Rightarrow> EzoCannedBus_DeviceState" where
  "set_compensation cmd st =
     (let v = strtod (drop 2 cmd) in
      if cmd ! 0 = CHR ''T'' then st\<lparr>cs_temperature_c := v\<rparr>
      else if cmd ! 0 = CHR ''P'' then st\<lparr>cs_pressure_kpa := v\<rparr>
      else st\<lparr>cs_salinity := v, cs_salinity_ppt := contains cmd '',ppt''\<rparr>)"

definition calibrate :: "string \<Rightarrow> EzoCannedBus_DeviceState \<Rightarrow> EzoCannedBus_DeviceState" where
  "calibrate cmd st =
     (if cmd = ''Cal,clear'' then st\<lparr>cs_calibration_level := 0\<rparr>
      else if cs_family st = Canned_Ph then
        if starts_with cmd ''Cal,mid,'' then st\<lparr>cs_calibration_level := 1\<rparr>
        else if starts_with cmd ''Cal,low,'' then st\<lparr>cs_calibration_level := 2\<rparr>
        else if starts_with cmd ''Cal,high,'' then st\<lparr>cs_calibration_level := 3\<rparr>
        else st
      else if cs_family st = Canned_Do then st\<lparr>cs_calibration_level := min (cs_calibration_level st + 1) 2\<rparr>
      else st)"

definition text_of :: "u8 list \<Rightarrow> string" where
  "text_of = map (\<lambda>b. char_of (unat b))"

definition bytes_of :: "string \<Rightarrow> u8 list" where
  "bytes_of = map (\<lambda>c. of_nat (of_char c))"

definition record_command :: "CannedOptions \<Rightarrow> u8 list \<Rightarrow> EzoCannedBus_DeviceState \<Rightarrow> EzoCannedBus_DeviceState" where
  "record_command options tx st =
     (let cmd = text_of tx;
          st = st\<lparr>cs_last_command := cmd,
                  cs_pending_left := (if cmd = co_pending_command options then co_pending_reads options else 0)\<rparr>
      in if cmd = co_status_command options then st
         else if sets_compensation cmd then set_compensation cmd st
         else if \<not> starts_with cmd ''Cal'' \<or> cmd = ''Cal,?'' then st
         else calibrate cmd st)"

section \<open>The bus\<close>

definition emit_frame :: "u8 \<Rightarrow> string \<Rightarrow> bool \<Rightarrow> nat \<Rightarrow> I2cStatus \<times> u8 list option" where
  "emit_frame status payload rx_data rx_len =
     (if \<not> rx_data \<or> rx_len = 0 then (I2c_failure I2cError_InvalidArgument ''canned read requires rx buffer'', None)
      else (I2c_ok, Some (status # take (rx_len - 1) (bytes_of payload))))"

definition answer_read ::
    "CannedOptions \<Rightarrow> u8 \<Rightarrow> bool \<Rightarrow> nat \<Rightarrow> EzoCannedBus_DeviceState \<Rightarrow> (I2cStatus \<times> u8 list option) \<times> EzoCannedBus_DeviceState" where
  "answer_read options address rx_data rx_len st =
     (if cs_last_command st \<noteq> '''' \<and> cs_last_command st = co_status_command options
      then (emit_frame (co_status_code options) '''' rx_data rx_len, st)
      else if cs_pending_left st > 0
      then (emit_frame kStatusPending '''' rx_data rx_len, st\<lparr>cs_pending_left := cs_pending_left st - 1\<rparr>)
      else case response_payload options address (cs_last_command st) st of
        (payload, st) \<Rightarrow> (emit_frame kStatusSuccess payload rx_data rx_len, st))"

definition put_state :: "u8 \<Rightarrow> EzoCannedBus_DeviceState \<Rightarrow> EzoCannedBus \<Rightarrow> EzoCannedBus" where
  "put_state address st b = b\<lparr>cb_devices := (cb_devices b)(address \<mapsto> st)\<rparr>"

definition canned_open :: "EzoCannedBus \<Rightarrow> I2cStatus \<times> EzoCannedBus" where
  "canned_open b = (I2c_ok, b\<lparr>cb_opened := True\<rparr>)"

definition canned_close :: "EzoCannedBus \<Rightarrow> EzoCannedBus" where
  "canned_close b = b\<lparr>cb_opened := False\<rparr>"

definition canned_write :: "u8 \<Rightarrow> u8 list \<Rightarrow> EzoCannedBus \<Rightarrow> I2cStatus \<times> EzoCannedBus" where
  "canned_write address tx b =
     (if \<not> cb_opened b then (I2c_failure I2cError_NotOpen ''bus not open'', b)
      else if tx = [] then (I2c_failure I2cError_InvalidArgument ''write requires tx_len>0'', b)
      else (I2c_ok, put_state address (record_command (cb_options b) tx (state_for address b)) b))"

definition canned_read :: "u8 \<Rightarrow> bool \<Rightarrow> nat \<Rightarrow> EzoCannedBus \<Rightarrow> (I2cStatus \<times> u8 list option) \<times> EzoCannedBus" where
  "canned_read address rx_data rx_len b =
     (if \<not> cb_opened b then ((I2c_failure I2cError_NotOpen ''bus not open'', None), b)
      else case answer_read (cb_options b) address rx_data rx_len (state_for address b) of
        (r, st) \<Rightarrow> (r, put_state address st b))"

definition canned_write_then_read ::
    "u8 \<Rightarrow> u8 list \<Rightarrow> bool \<Rightarrow> nat \<Rightarrow> EzoCannedBus \<Rightarrow> (I2cStatus \<times> u8 list option) \<times> EzoCannedBus" where
  "canned_write_then_read address tx rx_data rx_len b =
     (if \<not> cb_opened b then ((I2c_failure I2cError_NotOpen ''bus not open'', None), b)
      else if tx = [] \<and> rx_len = 0
      then ((I2c_failure I2cError_InvalidArgument ''write_then_read requires tx_len>0 or rx_len>0'', None), b)
      else
        let st = state_for address b;
            st = (if tx \<noteq> [] then record_command (cb_options b) tx st else st)
        in if rx_len = 0 then ((I2c_ok, Some []), put_state address st b)
           else case answer_read (cb_options b) address rx_data rx_len st of (r, st) \<Rightarrow> (r, put_state address st b))"

definition canned_delay_us :: "u32 \<Rightarrow> EzoCannedBus \<Rightarrow> EzoCannedBus" where
  "canned_delay_us d b = b"

definition canned_io_stats_for :: "u8 \<Rightarrow> EzoCannedBus \<Rightarrow> IoStats" where
  "canned_io_stats_for address b = zero_IoStats"

definition canned_ops :: "EzoCannedBus bus_ops" where
  "canned_ops =
     \<lparr>bus_open = canned_open, bus_close = canned_close, bus_is_open = cb_opened, bus_bus_path = cb_bus_path,
      bus_write = canned_write, bus_read = canned_read, bus_write_then_read = canned_write_then_read,
      bus_delay_us = canned_delay_us, bus_io_stats_for = canned_io_stats_for\<rparr>"

interpretation canned: i2c_bus canned_ops
  by unfold_locales
    (auto simp: canned_ops_def canned_open_def canned_close_def canned_write_then_read_def canned_delay_us_def put_state_def
      Let_def split: if_splits prod.splits)

section \<open>Reading back\<close>

lemma text_of_bytes_of [simp]: "text_of (bytes_of s) = s"
  by (induction s) (simp_all add: text_of_def bytes_of_def unat_of_nat)

lemma length_bytes_of [simp]: "length (bytes_of s) = length s"
  by (simp add: bytes_of_def)

lemma bytes_of_eq_Nil [simp]: "bytes_of s = [] \<longleftrightarrow> s = []"
  by (simp add: bytes_of_def)

lemma contains_subset: "contains s pat \<Longrightarrow> set pat \<subseteq> set s"
proof (induction s)
  case (Cons c s)
  have "set pat \<subseteq> set (c # s)" if "starts_with (c # s) pat"
    using that set_take_subset [of "length pat" "c # s"] by (simp add: starts_with_def)
  then show ?case using Cons by auto
qed simp

lemma holds_within:
  assumes "\<bar>v - r\<bar> \<le> t" and "t \<le> 1"
  shows "holds (Some (Fin v)) (Some (Fin r)) (round_double t)"
proof -
  have t: "\<bar>t\<bar> \<le> 2 ^ 52" "\<bar>v - r\<bar> \<le> 2 ^ 52" using assms by auto
  then have "dsub (Fin v) (Fin r) = Fin (round_rat (v - r))"
    by (simp add: dsub_def round_double_Fin)
  moreover have "\<bar>round_rat (v - r)\<bar> \<le> round_rat t" using assms(1) by (simp add: round_rat_abs round_rat_mono)
  ultimately show ?thesis using t(1) by (simp add: holds_def round_double_Fin)
qed

section \<open>One device at a time\<close>

lemma put_state_simps [simp]:
  "state_for a (put_state a st b) = st" "cb_options (put_state a st b) = cb_options b"
  "cb_opened (put_state a st b) = cb_opened b" "cb_bus_path (put_state a st b) = cb_bus_path b"
  "cb_devices (put_state a st b) = (cb_devices b)(a \<mapsto> st)" "put_state a st' (put_state a st b) = put_state a st' b"
  by (simp_all add: put_state_def state_for_def)

lemma canned_write_open:
  "cb_opened b \<Longrightarrow> tx \<noteq> [] \<Longrightarrow>
    canned_write a tx b = (I2c_ok, put_state a (record_command (cb_options b) tx (state_for a b)) b)"
  by (simp add: canned_write_def)

text \<open>
  What holds of every device state the bus keeps: the family is the one of its address, and with a starting
  level of at most three the calibration level stays at most three.
\<close>

definition device_state_ok :: "CannedOptions \<Rightarrow> u8 \<Rightarrow> EzoCannedBus_DeviceState \<Rightarrow> bool" where
  "device_state_ok options a st \<longleftrightarrow> cs_family st = family_for_address a \<and>
     (co_calibration_level options \<le> 3 \<longrightarrow> cs_calibration_level st \<le> 3)"

definition canned_ok :: "EzoCannedBus \<Rightarrow> bool" where
  "canned_ok b \<longleftrightarrow> (\<forall>a st. cb_devices b a = Some st \<longrightarrow> device_state_ok (cb_options b) a st)"

lemma reset_compensation_simps [simp]:
  "cs_family (reset_compensation st) = cs_family st" "cs_calibration_level (reset_compensation st) = cs_calibration_level st"
  "cs_last_command (reset_compensation st) = cs_last_command st" "cs_pending_left (reset_compensation st) = cs_pending_left st"
  by (simp_all add: reset_compensation_def)

lemma device_state_ok_for: "canned_ok b \<Longrightarrow> device_state_ok (cb_options b) a (state_for a b)"
  by (auto simp: canned_ok_def state_for_def device_state_ok_def fresh_state_def Let_def split: option.splits)

lemma min_2_le_3: "min x 2 \<le> (3 :: u32)"
  by (rule min.coboundedI2) simp

lemma device_state_ok_record:
  "device_state_ok options a st \<Longrightarrow> device_state_ok options a (record_command options tx st)"
  by (simp add: device_state_ok_def record_command_def set_compensation_def calibrate_def min_2_le_3 Let_def)

lemma device_state_ok_answer:
  "device_state_ok options a st \<Longrightarrow> device_state_ok options a (snd (answer_read options a nn n st))"
  by (simp add: device_state_ok_def answer_read_def response_payload_def count_reading_def Let_def split: prod.splits)

lemma canned_ok_put: "canned_ok b \<Longrightarrow> device_state_ok (cb_options b) a st \<Longrightarrow> canned_ok (put_state a st b)"
  by (simp add: canned_ok_def)

lemma emit_frame_bounds:
  "emit_frame status payload nn n = (s, rx) \<Longrightarrow> (s = I2c_ok) = (rx \<noteq> None) \<and>
     (\<forall>bytes. rx = Some bytes \<longrightarrow> 0 < length bytes \<and> length bytes \<le> n)"
  by (auto simp: emit_frame_def split: if_splits)

lemma answer_read_bounds:
  assumes "answer_read options a nn n st = ((s, rx), st')"
  shows "(s = I2c_ok) = (rx \<noteq> None)" and "rx = Some bytes \<Longrightarrow> 0 < length bytes \<and> length bytes \<le> n"
  using assms emit_frame_bounds
  by (auto simp: answer_read_def split: if_splits prod.splits) blast+

lemma canned_transaction_cases:
  assumes "canned_write_then_read a tx nn n b = ((s, rx), b')"
  obtains (refused) "b' = b" and "s \<noteq> I2c_ok" and "rx = None" and "\<not> cb_opened b \<or> tx = [] \<and> n = 0"
  | (wrote) "cb_opened b" and "tx \<noteq> []" and "n = 0" and "s = I2c_ok" and "rx = Some []"
      and "b' = put_state a (record_command (cb_options b) tx (state_for a b)) b"
  | (answered) st where "cb_opened b" and "0 < n"
      and "answer_read (cb_options b) a nn n (if tx \<noteq> [] then record_command (cb_options b) tx (state_for a b) else state_for a b) = ((s, rx), st)"
      and "b' = put_state a st b"
  using assms
  by (auto simp: canned_write_then_read_def Let_def split: if_splits prod.splits)

text \<open>
  C36: On the canned bus a transaction changes nothing but the device it addresses: the other addresses, the
  options, the path and whether the bus is open stay as they are; on a closed bus nothing changes at all and
  the transaction fails. It keeps every device of the family of its address, and no device's calibration
  level ever exceeds three unless the query started it higher. It succeeds exactly when it says how many bytes
  it received, never stores more than the buffer holds, and a successful read stores at least the status byte.
\<close>

theorem canned_transactions:
  assumes "canned_write_then_read a tx nn n b = ((s, rx), b')"
  shows "(\<forall>a'. a' \<noteq> a \<longrightarrow> cb_devices b' a' = cb_devices b a') \<and> cb_options b' = cb_options b \<and>
      cb_bus_path b' = cb_bus_path b \<and> cb_opened b' = cb_opened b \<and>
      (\<not> cb_opened b \<longrightarrow> s \<noteq> I2c_ok \<and> b' = b) \<and> (canned_ok b \<longrightarrow> canned_ok b') \<and>
      (s = I2c_ok) = (rx \<noteq> None) \<and>
      (\<forall>bytes. rx = Some bytes \<longrightarrow> length bytes \<le> n \<and> (0 < n \<longrightarrow> 0 < length bytes))"
  using assms
proof (cases rule: canned_transaction_cases)
  case refused
  then show ?thesis by simp
next
  case wrote
  then show ?thesis by (simp add: canned_ok_put device_state_ok_record device_state_ok_for)
next
  case (answered st)
  let ?st = "if tx \<noteq> [] then record_command (cb_options b) tx (state_for a b) else state_for a b"
  have "canned_ok b'" if ok: "canned_ok b"
  proof -
    have "device_state_ok (cb_options b) a ?st" using device_state_ok_for [OF ok] device_state_ok_record by simp
    from device_state_ok_answer [OF this, of nn n] show ?thesis using answered(3,4) canned_ok_put [OF ok] by simp
  qed
  moreover note answer_read_bounds [OF answered(3)]
  ultimately show ?thesis using answered(1,4) by auto
qed

definition demo_canned :: EzoCannedBus where
  "demo_canned = snd (canned_open (EzoCannedBus_new ''mock'' (CannedOptions_parse ''pending=r:2&temp=18'')))"

theorem canned_transactions_witness:
  "cb_opened (snd (canned_write_then_read 0x63 (bytes_of ''Cal,mid,7'') True 4 demo_canned))"
proof -
  obtain s rx b' where "canned_write_then_read 0x63 (bytes_of ''Cal,mid,7'') True 4 demo_canned = ((s, rx), b')"
    by (metis prod.exhaust)
  from canned_transactions [OF this] this show ?thesis by (simp add: demo_canned_def canned_open_def)
qed

section \<open>Answers still pending\<close>

fun canned_reads :: "nat \<Rightarrow> u8 \<Rightarrow> nat \<Rightarrow> EzoCannedBus \<Rightarrow> (I2cStatus \<times> u8 list option) list \<times> EzoCannedBus" where
  "canned_reads 0 a n b = ([], b)"
| "canned_reads (Suc k) a n b =
     (case canned_read a True n b of (r, b) \<Rightarrow> case canned_reads k a n b of (rs, b) \<Rightarrow> (r # rs, b))"

lemma pending_reads:
  assumes "cb_opened b" and "0 < n" and "cs_last_command st \<noteq> co_status_command (cb_options b)"
    and "unat (cs_pending_left st) = k"
  shows "fst (canned_reads (Suc k) a n (put_state a st b)) =
    replicate k (I2c_ok, Some [kStatusPending]) @
    [(I2c_ok, Some (kStatusSuccess # take (n - 1)
       (bytes_of (fst (response_payload (cb_options b) a (cs_last_command st) (st\<lparr>cs_pending_left := 0\<rparr>))))))]"
  using assms(3,4)
proof (induction k arbitrary: st)
  case 0
  then have "cs_pending_left st = 0" by (simp add: unat_eq_0)
  then have "st\<lparr>cs_pending_left := 0\<rparr> = st" by simp
  moreover obtain payload st' where "response_payload (cb_options b) a (cs_last_command st) st = (payload, st')"
    by (metis prod.exhaust)
  ultimately show ?case using 0 assms(1,2) \<open>cs_pending_left st = 0\<close>
    by (simp only:) (simp add: canned_read_def answer_read_def emit_frame_def)
next
  case (Suc k)
  let ?st = "st\<lparr>cs_pending_left := cs_pending_left st - 1\<rparr>"
  have pos: "cs_pending_left st > 0" using Suc(3) by (metis unat_0 word_gt_0 nat.distinct(1))
  then have "unat (cs_pending_left ?st) = k" using Suc(3) by (simp add: unat_minus_one)
  then have "fst (canned_reads (Suc k) a n (put_state a ?st b)) = replicate k (I2c_ok, Some [kStatusPending]) @
    [(I2c_ok, Some (kStatusSuccess # take (n - 1)
       (bytes_of (fst (response_payload (cb_options b) a (cs_last_command st) (st\<lparr>cs_pending_left := 0\<rparr>))))))]"
    using Suc(1) [of ?st] Suc(2) by simp
  moreover have "canned_read a True n (put_state a st b) = ((I2c_ok, Some [kStatusPending]), put_state a ?st b)"
    using pos Suc(2) assms(1,2) by (simp add: canned_read_def answer_read_def emit_frame_def bytes_of_def)
  ultimately show ?case by (simp only: canned_reads.simps(2) [of "Suc k"] prod.case case_prod_unfold fst_conv snd_conv replicate_Suc append_Cons)
qed

text \<open>
  C37: After each send of the command the \<^verbatim>\<open>pending\<close> option names, exactly the configured number of reads answers
  with the one byte "still processing", and the next read answers with success and the payload of that command.
\<close>

theorem canned_pending_runs_out:
  assumes "cb_opened b" and "tx \<noteq> []" and "0 < n" and "text_of tx = co_pending_command (cb_options b)"
    and "text_of tx \<noteq> co_status_command (cb_options b)"
  shows "fst (canned_reads (Suc (unat (co_pending_reads (cb_options b)))) a n (snd (canned_write a tx b))) =
    replicate (unat (co_pending_reads (cb_options b))) (I2c_ok, Some [kStatusPending]) @
    [(I2c_ok, Some (kStatusSuccess # take (n - 1) (bytes_of (fst (response_payload (cb_options b) a (text_of tx)
       ((record_command (cb_options b) tx (state_for a b))\<lparr>cs_pending_left := 0\<rparr>))))))]"
proof -
  let ?st = "record_command (cb_options b) tx (state_for a b)"
  have "cs_last_command ?st = text_of tx \<and> cs_pending_left ?st = co_pending_reads (cb_options b)"
    using assms(4) by (simp add: record_command_def set_compensation_def calibrate_def Let_def)
  then show ?thesis using pending_reads [of b n ?st _ a] assms by (simp add: canned_write_open)
qed

theorem canned_pending_runs_out_witness:
  "fst (canned_reads 3 0x63 32 (snd (canned_write 0x63 (bytes_of ''i'')
      (snd (canned_open (EzoCannedBus_new ''mock'' (CannedOptions_new\<lparr>co_pending_command := ''i'', co_pending_reads := 2\<rparr>))))))) =
    [(I2c_ok, Some [0xFE]), (I2c_ok, Some [0xFE]), (I2c_ok, Some (1 # bytes_of ''?I,pH,mock-1.0''))]"
proof -
  let ?b = "snd (canned_open (EzoCannedBus_new ''mock'' (CannedOptions_new\<lparr>co_pending_command := ''i'', co_pending_reads := 2\<rparr>)))"
  have b: "cb_opened ?b" "co_pending_command (cb_options ?b) = ''i''" "co_pending_reads (cb_options ?b) = 2"
    "co_status_command (cb_options ?b) = ''''"
    by (simp_all add: canned_open_def EzoCannedBus_new_def CannedOptions_new_def)
  have fam: "cs_family ((record_command (cb_options ?b) (bytes_of ''i'') (state_for 0x63 ?b))\<lparr>cs_pending_left := 0\<rparr>) = Canned_Ph"
    by (simp add: canned_open_def EzoCannedBus_new_def state_for_def fresh_state_def family_for_address_def CannedOptions_new_def
        record_command_def sets_compensation_def starts_with_def Let_def)
  have "unat (co_pending_reads (cb_options ?b)) = 2" by (simp add: b)
  moreover have "Suc 2 = 3" "replicate 2 x = [x, x]" for x :: 'a by (simp_all add: numeral_2_eq_2)
  ultimately show ?thesis
    using canned_pending_runs_out [of ?b "bytes_of ''i''" 32 "0x63"] b fam
    by (simp add: response_payload_def kStatusPending_def kStatusSuccess_def)
qed

section \<open>Compensation on the wire\<close>

text \<open>
  The three values: the command letter, the decimals the adapters send and the device shows, the unit text, and the
  tolerance of the provider's check. A value is sent as \<open>set_text\<close>, as the datasheets write the commands.
\<close>

definition wire_formats :: "(char \<times> nat \<times> string \<times> double) set" where
  "wire_formats = {(CHR ''T'', 2, '''', kTemperatureTolerance), (CHR ''S'', 1, '',uS'', kSalinityTolerance),
     (CHR ''P'', 2, '''', kPressureTolerance)}"

definition set_text :: "char \<Rightarrow> nat \<Rightarrow> string \<Rightarrow> rat \<Rightarrow> string" where
  "set_text letter d u v = letter # CHR '','' # printf_fixed d (Fin v) @ u"

definition query_text :: "char \<Rightarrow> string" where
  "query_text letter = [letter, CHR '','', CHR ''?'']"

lemma wire_formats_cases:
  assumes "(letter, d, u, tol) \<in> wire_formats"
  obtains "letter = CHR ''T''" "d = 2" "u = ''''" "tol = kTemperatureTolerance"
  | "letter = CHR ''S''" "d = 1" "u = '',uS''" "tol = kSalinityTolerance"
  | "letter = CHR ''P''" "d = 2" "u = ''''" "tol = kPressureTolerance"
  using assms by (auto simp: wire_formats_def)

lemma wire_formats_props:
  assumes "(letter, d, u, tol) \<in> wire_formats"
  shows "0 < d" and "d \<le> 2" and "ends_number u" and "u = [] \<or> to_lower (hd u) \<noteq> CHR ''x''" and "length u \<le> 3"
    and "letter = CHR ''T'' \<or> letter = CHR ''S'' \<or> letter = CHR ''P''" and "CHR ''p'' \<notin> set u"
  using assms
  by (auto elim!: wire_formats_cases simp: ends_number_def is_digit_def to_lower_def)

text \<open>The provider's tolerances cover the two roundings of the wire.\<close>

lemma wire_formats_hold:
  assumes "(letter, d, u, tol) \<in> wire_formats" and "\<bar>v - r\<bar> \<le> 1 / 10 ^ d + 2 / 1000000"
  shows "holds (Some (Fin v)) (Some (Fin r)) tol"
  using assms(1)
proof (cases rule: wire_formats_cases)
  case 1
  with assms(2) have "\<bar>v - r\<bar> \<le> 6 / 100" by simp
  from holds_within [OF this] 1 show ?thesis by (simp add: kTemperatureTolerance_def)
next
  case 2
  have "round_double 1 = Fin 1" using round_rat_of_int [of 1] by (simp add: round_double_Fin)
  moreover from 2 assms(2) have "\<bar>v - r\<bar> \<le> 1" by simp
  note holds_within [OF this]
  ultimately show ?thesis using 2 by (simp add: kSalinityTolerance_def)
next
  case 3
  with assms(2) have "\<bar>v - r\<bar> \<le> 6 / 100" by simp
  from holds_within [OF this] 3 show ?thesis by (simp add: kPressureTolerance_def)
qed

lemma not_ppt:
  assumes "(letter, d, u, tol) \<in> wire_formats" and "0 \<le> v"
  shows "\<not> contains (set_text letter d u v) '',ppt''"
proof
  assume "contains (set_text letter d u v) '',ppt''"
  from contains_subset [OF this] have "CHR ''p'' \<in> set (set_text letter d u v)" by auto
  then have "CHR ''p'' \<in> set (printf_fixed d (Fin v))"
    using wire_formats_props [OF assms(1)] by (auto simp: set_text_def simp del: printf_fixed.simps)
  moreover obtain c s where "set (printf_fixed d (Fin v)) \<subseteq> insert CHR ''.'' {c. is_digit c}"
    using printf_fixed_text [OF assms(2), of d] by blast
  ultimately have "CHR ''p'' \<in> insert CHR ''.'' {c. is_digit c}" by blast
  then show False by (simp add: is_digit_def)
qed

text \<open>What the device keeps of a command it accepts, and what it answers to the query.\<close>

fun compensation_of :: "char \<Rightarrow> EzoCannedBus_DeviceState \<Rightarrow> double" where
  "compensation_of letter st =
     (if letter = CHR ''T'' then cs_temperature_c st else if letter = CHR ''P'' then cs_pressure_kpa st else cs_salinity st)"

lemma compensation_of_set: "compensation_of (cmd ! 0) (set_compensation cmd st) = strtod (drop 2 cmd)"
  by (simp add: set_compensation_def Let_def)

lemma salinity_unit_set:
  "cmd ! 0 = CHR ''S'' \<Longrightarrow> cs_salinity_ppt (set_compensation cmd st) = contains cmd '',ppt''"
  by (simp add: set_compensation_def Let_def)

lemma record_set_text:
  assumes w: "(letter, d, u, tol) \<in> wire_formats" and v: "0 \<le> v"
    and ok: "set_text letter d u v \<noteq> co_status_command options"
  shows "compensation_of letter (record_command options (bytes_of (set_text letter d u v)) st) = round_double (printed d v)"
    and "letter = CHR ''S'' \<Longrightarrow> \<not> cs_salinity_ppt (record_command options (bytes_of (set_text letter d u v)) st)"
proof -
  obtain c s where c: "printf_fixed d (Fin v) = c # s" "is_digit c"
    using printf_fixed_text [OF v, of d] by blast
  have "c \<noteq> CHR ''?''" using c(2) by (auto simp: is_digit_def)
  then have sets: "sets_compensation (set_text letter d u v)"
    using wire_formats_props(6) [OF w] c(1) by (auto simp: sets_compensation_def set_text_def simp del: printf_fixed.simps)
  have val: "strtod (drop 2 (set_text letter d u v)) = round_double (printed d v)"
    using strtod_printf_fixed [OF v wire_formats_props(1,3,4) [OF w]]
    by (simp add: set_text_def numeral_2_eq_2 del: printf_fixed.simps)
  have hd: "set_text letter d u v ! 0 = letter" by (simp add: set_text_def)
  have rec: "record_command options (bytes_of (set_text letter d u v)) st =
      set_compensation (set_text letter d u v) (st\<lparr>cs_last_command := set_text letter d u v,
        cs_pending_left := (if set_text letter d u v = co_pending_command options then co_pending_reads options else 0)\<rparr>)"
    using sets ok by (simp add: record_command_def Let_def)
  show "compensation_of letter (record_command options (bytes_of (set_text letter d u v)) st) = round_double (printed d v)"
    using compensation_of_set [of "set_text letter d u v"] unfolding rec hd val by blast
  show "letter = CHR ''S'' \<Longrightarrow> \<not> cs_salinity_ppt (record_command options (bytes_of (set_text letter d u v)) st)"
    unfolding rec using salinity_unit_set [of "set_text letter d u v"] hd not_ppt [OF w v] by blast
qed

lemma record_query_text:
  assumes w: "(letter, d, u, tol) \<in> wire_formats" and "query_text letter \<noteq> co_pending_command options"
  shows "record_command options (bytes_of (query_text letter)) st = st\<lparr>cs_last_command := query_text letter, cs_pending_left := 0\<rparr>"
  using assms(2) wire_formats_props(6) [OF w]
  by (auto simp: record_command_def query_text_def sets_compensation_def starts_with_def Let_def)

lemma answer_query_text:
  assumes w: "(letter, d, u, tol) \<in> wire_formats" and "query_text letter \<noteq> co_status_command options"
    and "letter = CHR ''S'' \<longrightarrow> \<not> cs_salinity_ppt st"
  shows "answer_read options a True n (st\<lparr>cs_last_command := query_text letter, cs_pending_left := 0\<rparr>) =
    (emit_frame kStatusSuccess (CHR ''?'' # letter # CHR '','' # fixed (compensation_of letter st) d @ u) True n,
     st\<lparr>cs_last_command := query_text letter, cs_pending_left := 0\<rparr>)"
  using w assms(2,3)
  by (cases rule: wire_formats_cases) (simp_all add: answer_read_def response_payload_def query_text_def starts_with_def)

text \<open>
  C25: A compensation value within the limits that the canned device accepts is what its query reports next, close enough
  that the provider's check finds it still held: after \<open>T,x\<close>, \<open>S,x,uS\<close> or \<open>P,x\<close> with the decimals the adapters
  use, the query answers success with the same letter, a number and the unit, and that number read back is within the
  tolerance of the check of the value set, so a check never sends a value again that the device kept.
\<close>

theorem canned_compensation_held:
  assumes "cb_opened b" and w: "(letter, d, u, tol) \<in> wire_formats" and v: "0 \<le> v" "v \<le> 100000"
    and "set_text letter d u v \<noteq> co_status_command (cb_options b)"
    and "query_text letter \<noteq> co_status_command (cb_options b)" and "query_text letter \<noteq> co_pending_command (cb_options b)"
    and n: "18 \<le> n"
  shows "\<exists>shown b'.
    canned_read a True n (snd (canned_write a (bytes_of (query_text letter))
      (snd (canned_write a (bytes_of (set_text letter d u v)) b)))) =
      ((I2c_ok, Some (kStatusSuccess # bytes_of (CHR ''?'' # letter # CHR '','' # shown @ u))), b') \<and>
    holds (Some (Fin v)) (Some (strtod shown)) tol"
proof -
  let ?st = "record_command (cb_options b) (bytes_of (set_text letter d u v)) (state_for a b)"
  note props = wire_formats_props [OF w]
  obtain q r where q: "round_double (printed d v) = Fin q" "0 \<le> q" "q \<le> 100001"
    and r: "round_double (printed d q) = Fin r" "\<bar>v - r\<bar> \<le> 1 / 10 ^ d + 2 / 1000000"
    using reread_error [OF v props(1)] by blast
  have set: "compensation_of letter ?st = Fin q" "letter = CHR ''S'' \<longrightarrow> \<not> cs_salinity_ppt ?st"
    using record_set_text [OF w v(1) assms(5), of "state_for a b"] q(1) by simp_all
  have len: "length (printf_fixed d (Fin q)) \<le> 9" using printf_fixed_length [OF q(2,3) props(1)] props(2) by linarith
  then have shown: "fixed (Fin q) d = printf_fixed d (Fin q)" by (simp add: fixed_def)
  have "strtod (printf_fixed d (Fin q)) = Fin r"
    using strtod_printf_fixed [OF q(2) props(1), of "[]"] r(1) by (simp add: ends_number_def del: printf_fixed.simps)
  moreover have "answer_read (cb_options b) a True n (?st\<lparr>cs_last_command := query_text letter, cs_pending_left := 0\<rparr>) =
      ((I2c_ok, Some (kStatusSuccess # bytes_of (CHR ''?'' # letter # CHR '','' # printf_fixed d (Fin q) @ u))),
       ?st\<lparr>cs_last_command := query_text letter, cs_pending_left := 0\<rparr>)"
    using answer_query_text [OF w assms(6) set(2), of a n] len props(5) n
    by (simp add: set(1) shown emit_frame_def del: printf_fixed.simps compensation_of.simps)
  moreover have "set_text letter d u v \<noteq> []" "query_text letter \<noteq> []" by (simp_all add: set_text_def query_text_def)
  ultimately show ?thesis
    using wire_formats_hold [OF w r(2)] assms(1) record_query_text [OF w assms(7), of ?st]
    by (auto simp: canned_write_open canned_read_def simp del: printf_fixed.simps intro!: exI [of _ "printf_fixed d (Fin q)"])
qed

theorem canned_compensation_held_witness:
  "\<exists>shown b'.
    canned_read 0x61 True 40 (snd (canned_write 0x61 (bytes_of (query_text CHR ''S''))
      (snd (canned_write 0x61 (bytes_of (set_text CHR ''S'' 1 '',uS'' 50000)) demo_canned)))) =
      ((I2c_ok, Some (kStatusSuccess # bytes_of (CHR ''?'' # CHR ''S'' # CHR '','' # shown @ '',uS''))), b') \<and>
    holds (Some (Fin 50000)) (Some (strtod shown)) kSalinityTolerance"
proof (rule canned_compensation_held)
  have "split_first CHR ''='' ''pending=r:2'' = Some (''pending'', ''r:2'')"
    and "split_first CHR ''='' ''temp=18'' = Some (''temp'', ''18'')"
    and "split_last CHR '':'' ''r:2'' = Some (''r'', ''2'')"
    by (simp_all add: split_first_def split_last_def)
  then have o: "co_status_command (cb_options demo_canned) = ''''" "co_pending_command (cb_options demo_canned) = ''r''"
    by (simp_all add: demo_canned_def canned_open_def EzoCannedBus_new_def CannedOptions_parse_def CannedOptions_new_def
        getlines.simps parse_option_def)
  show "set_text CHR ''S'' 1 '',uS'' 50000 \<noteq> co_status_command (cb_options demo_canned)"
    "query_text CHR ''S'' \<noteq> co_status_command (cb_options demo_canned)"
    "query_text CHR ''S'' \<noteq> co_pending_command (cb_options demo_canned)"
    by (simp_all add: o set_text_def query_text_def)
  show "cb_opened demo_canned" by (simp add: demo_canned_def canned_open_def)
qed (simp_all add: wire_formats_def)

end
