(* ===== verification/Ezo_Link.thy ===== *)
theory Ezo_Link
  imports Ezo_Provider Ezo_Canned
begin

text \<open>
  The buses a build links together: the canned and the no-hardware bus of this repository and the SDK's buses, which stay
  a parameter, behind one interface. A \<^verbatim>\<open>std::unique_ptr<I2cBus>\<close> holds one of the three, and a call goes to the class it
  points to.
\<close>

datatype 'x any_bus = Canned_bus EzoCannedBus | Noop_bus NoopI2cBus | Sdk_bus 'x

text \<open>Apply the operation of the class at hand, keeping the class.\<close>

fun on_bus :: "(EzoCannedBus \<Rightarrow> 'a \<times> EzoCannedBus) \<Rightarrow> (NoopI2cBus \<Rightarrow> 'a \<times> NoopI2cBus) \<Rightarrow> ('x \<Rightarrow> 'a \<times> 'x)
    \<Rightarrow> 'x any_bus \<Rightarrow> 'a \<times> 'x any_bus" where
  "on_bus f g h (Canned_bus b) = map_prod id Canned_bus (f b)"
| "on_bus f g h (Noop_bus b) = map_prod id Noop_bus (g b)"
| "on_bus f g h (Sdk_bus b) = map_prod id Sdk_bus (h b)"

fun of_bus :: "(EzoCannedBus \<Rightarrow> 'a) \<Rightarrow> (NoopI2cBus \<Rightarrow> 'a) \<Rightarrow> ('x \<Rightarrow> 'a) \<Rightarrow> 'x any_bus \<Rightarrow> 'a" where
  "of_bus f g h (Canned_bus b) = f b"
| "of_bus f g h (Noop_bus b) = g b"
| "of_bus f g h (Sdk_bus b) = h b"

definition map_any :: "(EzoCannedBus \<Rightarrow> EzoCannedBus) \<Rightarrow> (NoopI2cBus \<Rightarrow> NoopI2cBus) \<Rightarrow> ('x \<Rightarrow> 'x) \<Rightarrow> 'x any_bus \<Rightarrow> 'x any_bus" where
  "map_any f g h = of_bus (Canned_bus \<circ> f) (Noop_bus \<circ> g) (Sdk_bus \<circ> h)"

definition any_ops :: "'x bus_ops \<Rightarrow> 'x any_bus bus_ops" where
  "any_ops ops =
     \<lparr>bus_open = on_bus (bus_open canned_ops) (bus_open noop_ops) (bus_open ops),
      bus_close = map_any (bus_close canned_ops) (bus_close noop_ops) (bus_close ops),
      bus_is_open = of_bus (bus_is_open canned_ops) (bus_is_open noop_ops) (bus_is_open ops),
      bus_bus_path = of_bus (bus_bus_path canned_ops) (bus_bus_path noop_ops) (bus_bus_path ops),
      bus_write = (\<lambda>a tx. on_bus (bus_write canned_ops a tx) (bus_write noop_ops a tx) (bus_write ops a tx)),
      bus_read = (\<lambda>a nn n. on_bus (bus_read canned_ops a nn n) (bus_read noop_ops a nn n) (bus_read ops a nn n)),
      bus_write_then_read = (\<lambda>a tx nn n. on_bus (bus_write_then_read canned_ops a tx nn n)
        (bus_write_then_read noop_ops a tx nn n) (bus_write_then_read ops a tx nn n)),
      bus_delay_us = (\<lambda>d. map_any (bus_delay_us canned_ops d) (bus_delay_us noop_ops d) (bus_delay_us ops d)),
      bus_io_stats_for = (\<lambda>a. of_bus (bus_io_stats_for canned_ops a) (bus_io_stats_for noop_ops a) (bus_io_stats_for ops a))\<rparr>"

lemma any_ops_sel [simp]:
  "bus_open (any_ops ops) = on_bus (bus_open canned_ops) (bus_open noop_ops) (bus_open ops)"
  "bus_is_open (any_ops ops) = of_bus (bus_is_open canned_ops) (bus_is_open noop_ops) (bus_is_open ops)"
  "bus_close (any_ops ops) = map_any (bus_close canned_ops) (bus_close noop_ops) (bus_close ops)"
  "bus_delay_us (any_ops ops) d = map_any (bus_delay_us canned_ops d) (bus_delay_us noop_ops d) (bus_delay_us ops d)"
  "bus_write_then_read (any_ops ops) a tx nn n = on_bus (bus_write_then_read canned_ops a tx nn n)
    (bus_write_then_read noop_ops a tx nn n) (bus_write_then_read ops a tx nn n)"
  by (simp_all add: any_ops_def)

text \<open>The linked buses keep the contract when the SDK's own buses do.\<close>

context i2c_bus
begin

lemma any_i2c_bus: "i2c_bus (any_ops ops)"
proof
  fix b b' :: "'b any_bus" and d
  show "bus_open (any_ops ops) b = (I2c_ok, b') \<Longrightarrow> bus_is_open (any_ops ops) b'"
    by (cases b) (auto simp: map_prod_def split: prod.splits intro: canned.open_opens noop.open_opens open_opens)
  show "\<not> bus_is_open (any_ops ops) (bus_close (any_ops ops) b)"
    by (cases b) (simp_all add: map_any_def canned.close_closes noop.close_closes close_closes)
  show "bus_is_open (any_ops ops) (bus_delay_us (any_ops ops) d b) = bus_is_open (any_ops ops) b"
    by (cases b) (simp_all add: map_any_def canned.delay_keeps_open noop.delay_keeps_open delay_keeps_open)
next
  fix a tx nn n r and b b' :: "'b any_bus"
  assume t: "bus_write_then_read (any_ops ops) a tx nn n b = (r, b')"
  show "bus_is_open (any_ops ops) b' = bus_is_open (any_ops ops) b"
    using t by (cases b) (auto simp: map_prod_def canned.transaction_keeps_open noop.transaction_keeps_open
        transaction_keeps_open split: prod.splits)
  show "\<not> bus_is_open (any_ops ops) b \<Longrightarrow> fst r \<noteq> I2c_ok \<and> b' = b"
    using t by (cases b) (auto simp: map_prod_def split: prod.splits
        dest: canned.closed_transaction noop.closed_transaction closed_transaction)
qed

end

section \<open>The platform of a build\<close>

record 'x sdk_buses =
  sdk_bus_ops :: "'x bus_ops"
  LinuxI2cBus :: "string \<Rightarrow> int \<Rightarrow> 'x"
  FaultInjectingI2cBus :: "EzoCannedBus \<Rightarrow> string \<Rightarrow> 'x"

definition linked :: "'x sdk_buses \<Rightarrow> ('x any_bus, 'h, 'r) platform \<Rightarrow> ('x any_bus, 'h, 'r) platform" where
  "linked sb p = p\<lparr>bops := any_ops (sdk_bus_ops sb),
     canned_bus := (\<lambda>path query. Canned_bus (EzoCannedBus_new path (CannedOptions_parse query))),
     fault_bus := (\<lambda>b query. case b of Canned_bus c \<Rightarrow> Sdk_bus (FaultInjectingI2cBus sb c query) | _ \<Rightarrow> b),
     linux_bus := (\<lambda>path retries. Sdk_bus (LinuxI2cBus sb path retries)),
     noop_bus := (\<lambda>path. Noop_bus (NoopI2cBus_new path))\<rparr>"

lemma linked_bops [simp]: "bops (linked sb p) = any_ops (sdk_bus_ops sb)"
  by (simp add: linked_def)

text \<open>
  Which bus a configuration gets: a \<open>mock://\<close> path the canned device with the options of its query, behind the fault
  injector when the query asks for faults; any other path the hardware bus on Linux and the no-hardware bus elsewhere.
\<close>

lemma make_bus_linked:
  "make_bus (linked sb p) config =
     (if is_mock_mode config then
        let (path, query) = split_bus_query p (bus_path config);
            canned = EzoCannedBus_new path (CannedOptions_parse query)
        in if fault_any p query then Sdk_bus (FaultInjectingI2cBus sb canned query) else Canned_bus canned
      else if linux_build p then Sdk_bus (LinuxI2cBus sb (bus_path config) (retry_count config))
      else Noop_bus (NoopI2cBus_new (bus_path config)))"
  by (simp add: make_bus_def linked_def Let_def split: prod.split)

end
