(* ===== verification/Ezo_Main.thy ===== *)
theory Ezo_Main
  imports Ezo_Link
begin

text \<open>
  The program (\<^verbatim>\<open>src/core/main.cpp\<close>): the command line, the configless and check modes, startup and the serving loop.
  The serving loop, the two envelope writers and the YAML reader belong to the SDK and to yaml-cpp: they are parameters, and
  what \<^verbatim>\<open>main\<close> relies on of the loop is the hypothesis \<open>loop_contract\<close>. A run yields the exit code and what
  \<^verbatim>\<open>main\<close> itself wrote to standard output; its diagnostics are in the log of the world. Switching the standard
  streams to binary mode does nothing outside Windows; startup itself raises no exception (a thread that cannot be created is
  not modelled).
\<close>

section \<open>Requests\<close>

text \<open>What the loop can ask of the provider that may change its state, be it only by reading a clock.\<close>

datatype request = Do_read string "string list" | Do_call string u32 ValueMap | Do_readiness | Do_device_health string

fun serve :: "('b, 'h, 'r) platform \<Rightarrow> 'q provider_sdk \<Rightarrow> request \<Rightarrow> ('b, 'r) world \<Rightarrow> ('b, 'r) world" where
  "serve p sdk (Do_read i sids) w = snd (run_state (read_signals p sdk i sids) w)"
| "serve p sdk (Do_call i fid args) w = snd (run_state (call p sdk i fid args) w)"
| "serve p sdk Do_readiness w = snd (run_state (readiness p) w)"
| "serve p sdk (Do_device_health i) w = snd (run_state (device_health p i) w)"

fun request_device :: "request \<Rightarrow> string" where
  "request_device (Do_read i _) = i"
| "request_device (Do_call i _ _) = i"
| "request_device Do_readiness = ''''"
| "request_device (Do_device_health i) = i"

text \<open>A relation that every operation on a device keeps is kept by every request for it.\<close>

context device_frame
begin

lemma request_R: "request_device rq = i \<Longrightarrow> R w (serve p sdk rq w)"
  using keeps_read keeps_call keeps_reports unfolding keeps_frame_def by (cases rq) fastforce+

end

lemma startup_ok_serve:
  assumes "startup_ok p config (g_state w) (g_executor w)"
  shows "startup_ok p config (g_state (serve p sdk rq w)) (g_executor (serve p sdk rq w))"
proof (rule startup_ok_frame [OF _ _ assms])
  show "frame_part (serve p sdk rq w) = frame_part w"
    by (rule fixed.request_R [OF refl])
  show "executor_kept (g_executor w) (g_executor (serve p sdk rq w))"
    by (rule executor_idle.request_R [OF refl])
qed

lemma world_ok_serve:
  assumes "world_ok p w"
  shows "world_ok p (serve p sdk rq w)"
proof (rule world_ok_frame [OF _ _ assms])
  show "devices_ok p w \<longrightarrow> devices_ok p (serve p sdk rq w)"
    by (rule consistent.request_R [OF refl])
  show "executor_kept (g_executor w) (g_executor (serve p sdk rq w))"
    by (rule executor_idle.request_R [OF refl])
qed

section \<open>The command line\<close>

record ('b, 'h, 'r, 'y, 'q) main_env =
  env_platform :: "('b, 'h, 'r) platform"
  env_sdk :: "'q provider_sdk"
  env_config :: "'y config_api"
  write_config_schema_envelope :: "schema_decl \<Rightarrow> string \<Rightarrow> (string \<times> string) list \<Rightarrow> string"
  write_envelope :: "string \<Rightarrow> 'r list \<Rightarrow> string \<times> int"
  run_loop :: "('b, 'r, unit) prog \<Rightarrow> ('b, 'r, int) prog"

definition newline :: string where "newline = [CHR 0x0A]"

definition print_usage :: "string \<Rightarrow> string" where
  "print_usage program_name =
     ''Usage:'' @ newline @
     ''  '' @ program_name @ '' --version'' @ newline @
     ''  '' @ program_name @ '' --config-schema'' @ newline @
     ''  '' @ program_name @ '' --check-config <path>'' @ newline @
     ''  '' @ program_name @ '' --check-host <path>'' @ newline @
     ''  '' @ program_name @ '' --config <path>'' @ newline @ newline @
     ''Implements ADPP v1 provider for EZO devices.'' @ newline"

text \<open>How the scan of the arguments ends: early, or with the path and the two flags.\<close>

datatype scan = Show_version | Show_schema | Show_usage | Scanned (config_path: string) (check_config_only: bool) (check_host_only: bool)

fun scan_args :: "string list \<Rightarrow> string \<Rightarrow> bool \<Rightarrow> bool \<Rightarrow> scan" where
  "scan_args [] path cc ch = Scanned path cc ch"
| "scan_args (arg # rest) path cc ch =
     (if arg = ''--version'' then Show_version
      else if arg = ''--config-schema'' then Show_schema
      else case rest of
        [] \<Rightarrow> Show_usage
      | v # rest' \<Rightarrow>
          if arg = ''--check-config'' then scan_args rest' v True ch
          else if arg = ''--check-host'' then scan_args rest' v cc True
          else if arg = ''--config'' then scan_args rest' v cc ch
          else Show_usage)"

section \<open>Running\<close>

definition run_check_host :: "('b, 'h, 'r, 'y, 'q) main_env \<Rightarrow> string \<Rightarrow> ('b, 'r, int \<times> string) prog" where
  "run_check_host env path =
     (case load_config (env_config env) path of
        Inl what \<Rightarrow> do { log_error what; State_Monad.return (2, '''') }
      | Inr config \<Rightarrow>
          State_Monad.return (case write_envelope env ''anolis-provider-ezo'' (check_host (env_platform env) config) of
            (out, exit_code) \<Rightarrow> (exit_code, out)))"

definition run_serving :: "('b, 'h, 'r, 'y, 'q) main_env \<Rightarrow> ('b, 'r, int \<times> string) prog" where
  "run_serving env = do {
     startup_state \<leftarrow> gets snapshot;
     (if ready startup_state then log_info (startup_message startup_state) else log_warning (startup_message startup_state));
     log_info (if ready startup_state then ''ready (transport=stdio+uint32_le)'' else ''serving, not ready (transport=stdio+uint32_le)'');
     exit_code \<leftarrow> run_loop env (shutdown (env_platform env));
     State_Monad.return (exit_code, '''')
   }"

definition run_config :: "('b, 'h, 'r, 'y, 'q) main_env \<Rightarrow> string \<Rightarrow> bool \<Rightarrow> ('b, 'r, int \<times> string) prog" where
  "run_config env path check_only =
     (case load_config (env_config env) path of
        Inl what \<Rightarrow> do { log_error what; State_Monad.return (1, '''') }
      | Inr config \<Rightarrow>
          if check_only then do {
            log_info (''Config valid: '' @ summarize_config config);
            State_Monad.return (0, '''')
          } else do {
            log_info (''starting with config: '' @ summarize_config config);
            initialize (env_platform env) config;
            run_serving env
          })"

definition run_scanned :: "('b, 'h, 'r, 'y, 'q) main_env \<Rightarrow> string \<Rightarrow> scan \<Rightarrow> ('b, 'r, int \<times> string) prog" where
  "run_scanned env program_name sc =
     (case sc of
        Show_version \<Rightarrow> State_Monad.return (0, provider_version (env_sdk env) @ newline)
      | Show_schema \<Rightarrow>
          State_Monad.return (0, write_config_schema_envelope env provider_schema ''anolis-provider-ezo''
            [(''provider_version'', provider_version (env_sdk env))])
      | Show_usage \<Rightarrow> State_Monad.return (1, print_usage program_name)
      | Scanned path cc ch \<Rightarrow>
          if path = '''' then State_Monad.return (1, print_usage program_name)
          else if ch then run_check_host env path
          else run_config env path cc)"

definition main :: "('b, 'h, 'r, 'y, 'q) main_env \<Rightarrow> string \<Rightarrow> string list \<Rightarrow> ('b, 'r, int \<times> string) prog" where
  "main env program_name args = do {
     reset (env_platform env);
     run_scanned env program_name (scan_args args '''' False False)
   }"

section \<open>What the loop promises\<close>

text \<open>
  The SDK's run loop changes the provider's state only through requests to the provider it was given, and runs the shutdown
  hook last, on every exit.
\<close>

definition loop_contract :: "('b, 'h, 'r, 'y, 'q) main_env \<Rightarrow> bool" where
  "loop_contract env \<longleftrightarrow>
     (\<forall>hook w. \<exists>requests. snd (run_state (run_loop env hook) w) =
        snd (run_state hook (fold (serve (env_platform env) (env_sdk env)) requests w)))"

section \<open>Every bus is closed in the end\<close>

definition closed_executor :: "'b bus_ops \<Rightarrow> 'b BusExecutor \<Rightarrow> bool" where
  "closed_executor ops e \<longleftrightarrow> \<not> ex_running e \<and> (\<forall>b. ex_bus e = Some b \<longrightarrow> \<not> bus_is_open ops b)"

definition released :: "('b, 'h, 'r) platform \<Rightarrow> ('b, 'r) world \<Rightarrow> bool" where
  "released p w \<longleftrightarrow> list_all (closed_executor (bops p)) (retired w)"

context i2c_bus
begin

lemma exec_stop_closed: "closed_executor ops (exec_stop ops e)"
  by (auto simp: closed_executor_def exec_stop_def close_bus_def close_closes)

end

lemma released_same: "retired w' = retired w \<Longrightarrow> released p w \<Longrightarrow> released p w'"
  by (simp add: released_def)

lemma released_log [simp]: "released p (w\<lparr>logged := l\<rparr>) = released p w"
  by (simp add: released_def)

lemma released_serve: "released p w \<Longrightarrow> released p (fold (serve p sdk) rqs w)"
proof (induction rqs arbitrary: w)
  case (Cons rq rqs)
  have "retired (serve p sdk rq w) = retired w"
    by (rule none_retired.request_R [OF refl])
  then show ?case using Cons released_same by fastforce
qed simp

lemma released_shutdown:
  assumes "i2c_bus (bops p)" and "released p w"
  shows "released p (snd (run_state (shutdown p) w)) \<and> g_executor (snd (run_state (shutdown p) w)) = None"
  using assms i2c_bus.exec_stop_closed by (auto simp: shutdown_def released_def split: option.split)

lemma released_started:
  assumes "i2c_bus (bops p)" and "released p w"
  shows "released p (snd (run_state (startup_from p config t) w))"
proof -
  have publish: "released p (snd (run_state (publish_started p st e) w))" if "released p w" for st e w
  proof -
    have "retired (snd (run_state (for_each (startup_refresh p) ids) w)) = retired w" for ids w
      by (rule started_frames)
    then show ?thesis using that by (simp add: publish_started_def released_def Let_def)
  qed
  show ?thesis
    using assms(2) i2c_bus.exec_stop_closed [OF assms(1)]
    by (auto simp: startup_from_def start_devices_def Let_def split: prod.split intro!: publish)
      (auto simp: released_def)
qed

lemma released_reset:
  assumes "i2c_bus (bops p)" and "released p w"
  shows "released p (snd (run_state (reset p) w)) \<and> g_executor (snd (run_state (reset p) w)) = None"
  using released_shutdown [OF assms] by (cases "run_state (shutdown p) w") (simp add: reset_def released_def)

lemma released_initialize:
  assumes "i2c_bus (bops p)" and "released p w"
  shows "released p (snd (run_state (initialize p config) w))"
proof -
  have "released p (snd (run_state (reset p) w))" using released_reset [OF assms] by blast
  then show ?thesis
    using released_started [OF assms(1)] by (cases "run_state (reset p) w") (simp add: initialize_def released_def)
qed

section \<open>Properties\<close>

text \<open>The arguments of options with their values, and what a scan of them yields.\<close>

definition option_args :: "(string \<times> string) list \<Rightarrow> string list" where
  "option_args opts = concat (map (\<lambda>(f, v). [f, v]) opts)"

definition path_options :: "string set" where
  "path_options = {''--check-config'', ''--check-host'', ''--config''}"

lemma scan_options:
  assumes "\<forall>(f, v) \<in> set opts. f \<in> path_options"
  shows "scan_args (option_args opts) path cc ch =
    Scanned (if opts = [] then path else snd (last opts))
      (cc \<or> ''--check-config'' \<in> fst ` set opts) (ch \<or> ''--check-host'' \<in> fst ` set opts)"
  using assms
proof (induction opts arbitrary: path cc ch)
  case (Cons opt opts)
  obtain f v where o: "opt = (f, v)" by fastforce
  from Cons(2) o have f: "f = ''--check-config'' \<or> f = ''--check-host'' \<or> f = ''--config''" by (simp add: path_options_def)
  from Cons(2) have "\<forall>(f, v) \<in> set opts. f \<in> path_options" by simp
  note IH = Cons(1) [OF this]
  from f show ?case by (elim disjE) (simp_all add: o option_args_def IH [unfolded option_args_def])
qed (simp add: option_args_def)

lemma main_run:
  "run_state (main env name args) initial_world =
   run_state (run_scanned env name (scan_args args '''' False False)) initial_world"
proof -
  have "run_state (reset (env_platform env)) initial_world = ((), initial_world)"
    by (simp add: reset_def shutdown_def initial_world_def new_RuntimeState_def)
  then show ?thesis by (simp add: main_def)
qed

text \<open>
  C38: The check modes decide about a configuration without touching anything. For a command line of path options the last
  path counts; with \<open>--check-host\<close> among them the exit code is 2 for a configuration that does not load and otherwise the host
  check's code, with its report as the only output; with only \<open>--check-config\<close> it is 0 or 1 by whether the
  configuration loads, with no output. In every case no bus is created or opened, no job is submitted, no clock is read, and
  the runtime state stays empty.
\<close>

theorem main_check_modes:
  assumes "opts \<noteq> []" and "\<forall>(f, v) \<in> set opts. f \<in> path_options" and "snd (last opts) \<noteq> ''''"
    and "''--check-config'' \<in> fst ` set opts \<or> ''--check-host'' \<in> fst ` set opts"
    and run: "run_state (main env name (option_args opts)) initial_world = ((exit_code, out), w')"
  shows "w'\<lparr>logged := []\<rparr> = initial_world \<and>
    (case load_config (env_config env) (snd (last opts)) of
       Inl what \<Rightarrow> out = '''' \<and> logged w' = [log_line ''ERROR'' what] \<and>
         exit_code = (if ''--check-host'' \<in> fst ` set opts then 2 else 1)
     | Inr config \<Rightarrow>
         if ''--check-host'' \<in> fst ` set opts
         then (out, exit_code) = write_envelope env ''anolis-provider-ezo'' (check_host (env_platform env) config) \<and> logged w' = []
         else out = '''' \<and> exit_code = 0)"
proof -
  have "run_state (run_scanned env name (Scanned (snd (last opts)) (''--check-config'' \<in> fst ` set opts)
      (''--check-host'' \<in> fst ` set opts))) initial_world = ((exit_code, out), w')"
    using run assms(1) unfolding main_run scan_options [OF assms(2)] by simp
  then show ?thesis
    using assms(3,4)
    by (auto simp: run_scanned_def run_check_host_def run_config_def log_error_def log_info_def log_write_def initial_world_def
        split: sum.splits if_splits prod.splits)
qed

lemma serving_releases:
  assumes bus: "i2c_bus (bops (env_platform env))" and loop: "loop_contract env" and "released (env_platform env) w"
  shows "released (env_platform env) (snd (run_state (run_serving env) w)) \<and> g_executor (snd (run_state (run_serving env) w)) = None"
proof -
  let ?p = "env_platform env"
  have "released ?p (snd (run_state (run_loop env (shutdown ?p)) w)) \<and> g_executor (snd (run_state (run_loop env (shutdown ?p)) w)) = None"
    if "released ?p w" for w
  proof -
    from loop obtain rqs where "snd (run_state (run_loop env (shutdown ?p)) w) =
        snd (run_state (shutdown ?p) (fold (serve ?p (env_sdk env)) rqs w))"
      unfolding loop_contract_def by blast
    then show ?thesis using released_shutdown [OF bus released_serve [OF that]] by simp
  qed
  then show ?thesis
    using assms(3)
    by (simp add: run_serving_def log_info_def log_warning_def log_write_def split: prod.split) (metis released_log snd_conv)+
qed

text \<open>
  C24: However the program is run, no bus stays open. With SDK buses that keep the bus contract and a serving loop that runs its
  shutdown hook last, when \<^verbatim>\<open>main\<close> returns there is no executor any more, and every executor it ever had,
  the ones whose start failed included, is stopped with its bus closed.
\<close>

theorem main_closes_buses:
  assumes build: "env_platform env = linked sb p" and sdk: "i2c_bus (sdk_bus_ops sb)" and loop: "loop_contract env"
    and run: "run_state (main env name args) initial_world = (r, w')"
  shows "g_executor w' = None \<and> (\<forall>e \<in> set (retired w'). closed_executor (bops (env_platform env)) e)"
proof -
  let ?p = "env_platform env"
  have start: "released ?p initial_world" "g_executor initial_world = None" by (simp_all add: released_def initial_world_def)
  have bus: "i2c_bus (bops ?p)" using i2c_bus.any_i2c_bus [OF sdk] by (simp add: build)
  note serving = serving_releases [OF bus loop] and up = released_initialize [OF bus]
  have "released ?p w' \<and> g_executor w' = None"
    using run start unfolding main_run run_scanned_def
    by (auto simp: run_check_host_def run_config_def log_error_def log_info_def log_write_def
        split: scan.splits sum.splits if_splits prod.splits) (metis serving up released_log snd_conv)+
  then show ?thesis by (simp add: released_def list_all_iff)
qed

section \<open>Witnesses\<close>

definition demo_config_api :: "unit config_api" where
  "demo_config_api =
     \<lparr>y_load_file = (\<lambda>path. if path = ''good.yaml'' then Inr () else Inl ''no such file''), y_child = (\<lambda>_ _. ()),
      y_is_defined = (\<lambda>_. False), y_is_sequence = (\<lambda>_. False), y_elements = (\<lambda>_. []), sdk_validate = (\<lambda>_ _. []),
      sdk_format_errors = (\<lambda>_. ''''), sdk_as_string = (\<lambda>_. None), sdk_as_int64 = (\<lambda>_. None),
      sdk_parse_i2c_address = (\<lambda>_. None), fs_absolute = (\<lambda>path. path)\<rparr>"

definition demo_buses :: "NoopI2cBus sdk_buses" where
  "demo_buses = \<lparr>sdk_bus_ops = noop_ops, LinuxI2cBus = (\<lambda>path _. NoopI2cBus_new path),
     FaultInjectingI2cBus = (\<lambda>c _. NoopI2cBus_new (cb_bus_path c))\<rparr>"

definition demo_linked :: "(NoopI2cBus any_bus, unit, unit) platform" where
  "demo_linked =
     \<lparr>claim_key = (\<lambda>bus a. bus), add_claim = (\<lambda>d k. d), bops = stub_ops, drv = stub_driver, linux_build = False,
      split_bus_query = (\<lambda>path. (path, [])), canned_bus = (\<lambda>path _. Noop_bus (NoopI2cBus_new path)), fault_any = (\<lambda>_. False),
      fault_bus = (\<lambda>b _. b), linux_bus = (\<lambda>path _. Noop_bus (NoopI2cBus_new path)), noop_bus = (\<lambda>path. Noop_bus (NoopI2cBus_new path)),
      i2c_check_host = (\<lambda>_. []), host_exit_code = (\<lambda>_. 0), readiness_diagnostics = (\<lambda>_ _. None),
      system_clock = (\<lambda>n. int n), steady_clock = (\<lambda>n. int n), schedule_of = (\<lambda>_. InTime)\<rparr>"

definition demo_env :: "(NoopI2cBus any_bus, unit, unit, unit, nat) main_env" where
  "demo_env =
     \<lparr>env_platform = linked demo_buses demo_linked, env_sdk = demo_sdk, env_config = demo_config_api,
      write_config_schema_envelope = (\<lambda>_ name _. name), write_envelope = (\<lambda>name reqs. (name, if reqs = [] then 0 else 1)),
      run_loop = (\<lambda>hook. do { hook; State_Monad.return 0 })\<rparr>"

lemma demo_loop: "loop_contract demo_env"
  unfolding loop_contract_def
proof (intro allI)
  fix hook :: "(NoopI2cBus any_bus, unit, unit) prog" and w
  show "\<exists>rqs. snd (run_state (run_loop demo_env hook) w) =
      snd (run_state hook (fold (serve (env_platform demo_env) (env_sdk demo_env)) rqs w))"
    by (rule exI [of _ "[]"]) (simp add: demo_env_def split: prod.split)
qed

theorem main_check_modes_witness:
  "fst (fst (run_state (main demo_env ''ezo'' (option_args [(''--check-config'', ''good.yaml''), (''--check-host'', ''bad.yaml'')]))
      initial_world)) = 2"
proof -
  obtain ec out w' where run: "run_state (main demo_env ''ezo''
      (option_args [(''--check-config'', ''good.yaml''), (''--check-host'', ''bad.yaml'')])) initial_world = ((ec, out), w')"
    by (metis prod.exhaust)
  have "\<exists>what. load_config (env_config demo_env) ''bad.yaml'' = Inl what"
    by (simp add: load_config_def demo_env_def demo_config_api_def)
  then show ?thesis
    using main_check_modes [OF _ _ _ _ run] run by (auto simp: path_options_def)
qed

theorem main_closes_buses_witness:
  "g_executor (snd (run_state (main demo_env ''ezo'' [''--config'', ''good.yaml'']) initial_world)) = None"
proof -
  obtain r w' where run: "run_state (main demo_env ''ezo'' [''--config'', ''good.yaml'']) initial_world = (r, w')"
    by (metis prod.exhaust)
  have "env_platform demo_env = linked demo_buses demo_linked" "i2c_bus (sdk_bus_ops demo_buses)"
    by (simp_all add: demo_env_def demo_buses_def noop.i2c_bus_axioms)
  from main_closes_buses [OF this demo_loop run] run show ?thesis by simp
qed

end
