(* ===== verification/Ezo_Wire.thy ===== *)
theory Ezo_Wire
  imports Ezo_Calls
begin

text \<open>
  What the code of one device does to the bus. \<open>talk\<close> is the trace a bus has gone through, as the transactions of the
  bridge (\<^verbatim>\<open>src/i2c/ezo_i2c_bridge.cpp\<close>) and the delays between two of its states; \<open>driver_addressed\<close> is what is relied on
  of the EZO driver; the locale \<open>bus_frame\<close> carries a relation on buses from the driver's functions through the helpers,
  adapters and call bodies to the jobs, each of which is shown to talk to its own device's address only.
\<close>

section \<open>What a bus has been through\<close>

text \<open>
  \<open>talk ops A b b'\<close>: the bus came from \<open>b\<close> to \<open>b'\<close> by transactions of the bridge at addresses in \<open>A\<close> and by delays.
\<close>

inductive talk :: "('b, 'm) bus_ops_scheme \<Rightarrow> u8 set \<Rightarrow> 'b \<Rightarrow> 'b \<Rightarrow> bool" for ops A b where
  silent: "talk ops A b b"
| transaction: "talk ops A b b1 \<Longrightarrow> a \<in> A \<Longrightarrow> transport_write_then_read ops (Some b1) a tx nn n = (r, Some b2) \<Longrightarrow> talk ops A b b2"
| delay: "talk ops A b b1 \<Longrightarrow> talk ops A b (bus_delay_us ops d b1)"

lemma talk_trans: "talk ops A b1 b2 \<Longrightarrow> talk ops A b b1 \<Longrightarrow> talk ops A b b2"
  by (induction rule: talk.induct) (blast intro: talk.intros)+

lemma talk_mono: "talk ops A b b' \<Longrightarrow> A \<subseteq> B \<Longrightarrow> talk ops B b b'"
  by (induction rule: talk.induct) (blast intro: talk.intros)+

lemma talk_write_then_read:
  "a \<in> A \<Longrightarrow> bus_write_then_read ops a tx nn n b = (r, b') \<Longrightarrow> talk ops A b b'"
  by (rule talk.transaction [OF talk.silent, where tx = tx and nn = nn and n = n and
      r = "(if fst r = I2c_ok then EZO_OK else EZO_ERR_TRANSPORT, snd r)"])
    (auto simp: transport_write_then_read_def split: prod.split)

section \<open>What is relied on of the driver\<close>

text \<open>Every function of the driver that takes the handle \<open>h\<close> keeps the relation \<open>T\<close> on buses.\<close>

definition control_keeps :: "('b \<Rightarrow> 'b \<Rightarrow> bool) \<Rightarrow> ('b, 'h, 'n) ezo_driver_scheme \<Rightarrow> 'h \<Rightarrow> bool" where
  "control_keeps T dv h \<longleftrightarrow>
     (\<forall>n. keeps_frame T (ezo_read_response dv h n)) \<and>
     (\<forall>product. keeps_frame T (ezo_control_send_info_query dv h product)) \<and>
     keeps_frame T (ezo_control_read_info dv h) \<and>
     (\<forall>product. keeps_frame T (ezo_control_send_find dv h product)) \<and>
     (\<forall>product enabled. keeps_frame T (ezo_control_send_led_set dv h product enabled)) \<and>
     (\<forall>product. keeps_frame T (ezo_control_send_sleep dv h product))"

definition ph_keeps :: "('b \<Rightarrow> 'b \<Rightarrow> bool) \<Rightarrow> ('b, 'h, 'n) ezo_driver_scheme \<Rightarrow> 'h \<Rightarrow> bool" where
  "ph_keeps T dv h \<longleftrightarrow>
     keeps_frame T (ezo_ph_send_read dv h) \<and> keeps_frame T (ezo_ph_read_response dv h) \<and>
     keeps_frame T (ezo_ph_send_calibration_query dv h) \<and> keeps_frame T (ezo_ph_read_calibration_status dv h) \<and>
     keeps_frame T (ezo_ph_send_temperature_query dv h) \<and> keeps_frame T (ezo_ph_read_temperature dv h) \<and>
     (\<forall>t decimals. keeps_frame T (ezo_ph_send_temperature_set dv h t decimals)) \<and>
     (\<forall>point reference decimals. keeps_frame T (ezo_ph_send_calibration dv h point reference decimals)) \<and>
     keeps_frame T (ezo_ph_send_clear_calibration dv h)"

definition measurement_keeps :: "('b \<Rightarrow> 'b \<Rightarrow> bool) \<Rightarrow> ('b, 'h, 'n) ezo_driver_scheme \<Rightarrow> 'h \<Rightarrow> bool" where
  "measurement_keeps T dv h \<longleftrightarrow>
     keeps_frame T (ezo_orp_send_read dv h) \<and> keeps_frame T (ezo_orp_read_response dv h) \<and>
     keeps_frame T (ezo_rtd_send_read dv h) \<and> keeps_frame T (ezo_rtd_read_response_celsius dv h) \<and>
     keeps_frame T (ezo_ec_send_output_query dv h) \<and> keeps_frame T (ezo_ec_read_output_config dv h) \<and>
     keeps_frame T (ezo_ec_send_read dv h) \<and> (\<forall>flags. keeps_frame T (ezo_ec_read_response dv h flags)) \<and>
     keeps_frame T (ezo_hum_send_output_query dv h) \<and> keeps_frame T (ezo_hum_read_output_config dv h) \<and>
     keeps_frame T (ezo_hum_send_read dv h) \<and> (\<forall>flags. keeps_frame T (ezo_hum_read_response dv h flags))"

definition do_keeps :: "('b \<Rightarrow> 'b \<Rightarrow> bool) \<Rightarrow> ('b, 'h, 'n) ezo_driver_scheme \<Rightarrow> 'h \<Rightarrow> bool" where
  "do_keeps T dv h \<longleftrightarrow>
     keeps_frame T (ezo_do_send_output_query dv h) \<and> keeps_frame T (ezo_do_read_output_config dv h) \<and>
     keeps_frame T (ezo_do_send_read dv h) \<and> (\<forall>flags. keeps_frame T (ezo_do_read_response dv h flags)) \<and>
     keeps_frame T (ezo_do_send_calibration_query dv h) \<and> keeps_frame T (ezo_do_read_calibration_status dv h) \<and>
     keeps_frame T (ezo_do_send_temperature_query dv h) \<and> keeps_frame T (ezo_do_read_temperature dv h) \<and>
     keeps_frame T (ezo_do_send_salinity_query dv h) \<and> keeps_frame T (ezo_do_read_salinity dv h) \<and>
     keeps_frame T (ezo_do_send_pressure_query dv h) \<and> keeps_frame T (ezo_do_read_pressure dv h) \<and>
     (\<forall>x decimals. keeps_frame T (ezo_do_send_temperature_set dv h x decimals)) \<and>
     (\<forall>x unit decimals. keeps_frame T (ezo_do_send_salinity_set dv h x unit decimals)) \<and>
     (\<forall>x decimals. keeps_frame T (ezo_do_send_pressure_set dv h x decimals)) \<and>
     (\<forall>point. keeps_frame T (ezo_do_send_calibration dv h point)) \<and>
     keeps_frame T (ezo_do_send_clear_calibration dv h)"

lemmas handle_defs = control_keeps_def ph_keeps_def measurement_keeps_def do_keeps_def

definition handle_keeps :: "('b \<Rightarrow> 'b \<Rightarrow> bool) \<Rightarrow> ('b, 'h, 'n) ezo_driver_scheme \<Rightarrow> 'h \<Rightarrow> bool" where
  "handle_keeps T dv h \<longleftrightarrow> control_keeps T dv h \<and> ph_keeps T dv h \<and> measurement_keeps T dv h \<and> do_keeps T dv h"

text \<open>
  The documented behaviour of the driver: a handle initialised for an address reaches the bus through the transport it was
  given, at that address, and in no other way.
\<close>

definition driver_addressed :: "('b, 'm) bus_ops_scheme \<Rightarrow> ('b, 'h, 'n) ezo_driver_scheme \<Rightarrow> bool" where
  "driver_addressed ops dv \<longleftrightarrow>
     (\<forall>a h0 h. ezo_device_init dv a (transport_write_then_read ops) h0 = (EZO_OK, h) \<longrightarrow> handle_keeps (talk ops {a}) dv h)"

section \<open>One device's code\<close>

lemma keeps_status [keeps_intros]:
  "keeps_frame R unknown \<Longrightarrow> keeps_frame R success \<Longrightarrow> keeps_frame R fail \<Longrightarrow> keeps_frame R pending \<Longrightarrow> keeps_frame R none \<Longrightarrow>
   (\<And>n. keeps_frame R (other n)) \<Longrightarrow>
   keeps_frame R (case v of EZO_STATUS_UNKNOWN \<Rightarrow> unknown | EZO_STATUS_SUCCESS \<Rightarrow> success | EZO_STATUS_FAIL \<Rightarrow> fail
     | EZO_STATUS_NOT_READY \<Rightarrow> pending | EZO_STATUS_NO_DATA \<Rightarrow> none | EZO_STATUS_VALUE n \<Rightarrow> other n)"
  by (cases v) simp_all

text \<open>A relation on buses that the functions of the handle \<open>h\<close> and the delays keep, all code of that device keeps.\<close>

locale bus_frame = frame_order T for T :: "'b \<Rightarrow> 'b \<Rightarrow> bool" +
  fixes ops :: "'b bus_ops" and dv :: "('b, 'h) ezo_driver" and h :: 'h
  assumes delays: "T b (bus_delay_us ops d b)"
    and handle: "handle_keeps T dv h"
begin

lemma driver_keeps [keeps_intros]:
  shows "keeps_frame T (ezo_read_response dv h n)" "keeps_frame T (ezo_control_send_info_query dv h product)"
    "keeps_frame T (ezo_control_read_info dv h)" "keeps_frame T (ezo_control_send_find dv h product)"
    "keeps_frame T (ezo_control_send_led_set dv h product enabled)" "keeps_frame T (ezo_control_send_sleep dv h product)"
    "keeps_frame T (ezo_ph_send_read dv h)" "keeps_frame T (ezo_ph_read_response dv h)"
    "keeps_frame T (ezo_ph_send_calibration_query dv h)" "keeps_frame T (ezo_ph_read_calibration_status dv h)"
    "keeps_frame T (ezo_ph_send_temperature_query dv h)" "keeps_frame T (ezo_ph_read_temperature dv h)"
    "keeps_frame T (ezo_ph_send_temperature_set dv h t decimals)"
    "keeps_frame T (ezo_ph_send_calibration dv h point reference decimals)"
    "keeps_frame T (ezo_ph_send_clear_calibration dv h)"
    "keeps_frame T (ezo_orp_send_read dv h)" "keeps_frame T (ezo_orp_read_response dv h)"
    "keeps_frame T (ezo_rtd_send_read dv h)" "keeps_frame T (ezo_rtd_read_response_celsius dv h)"
    "keeps_frame T (ezo_ec_send_output_query dv h)" "keeps_frame T (ezo_ec_read_output_config dv h)"
    "keeps_frame T (ezo_ec_send_read dv h)" "keeps_frame T (ezo_ec_read_response dv h flags)"
    "keeps_frame T (ezo_hum_send_output_query dv h)" "keeps_frame T (ezo_hum_read_output_config dv h)"
    "keeps_frame T (ezo_hum_send_read dv h)" "keeps_frame T (ezo_hum_read_response dv h flags)"
    "keeps_frame T (ezo_do_send_output_query dv h)" "keeps_frame T (ezo_do_read_output_config dv h)"
    "keeps_frame T (ezo_do_send_read dv h)" "keeps_frame T (ezo_do_read_response dv h flags)"
    "keeps_frame T (ezo_do_send_calibration_query dv h)" "keeps_frame T (ezo_do_read_calibration_status dv h)"
    "keeps_frame T (ezo_do_send_temperature_query dv h)" "keeps_frame T (ezo_do_read_temperature dv h)"
    "keeps_frame T (ezo_do_send_salinity_query dv h)" "keeps_frame T (ezo_do_read_salinity dv h)"
    "keeps_frame T (ezo_do_send_pressure_query dv h)" "keeps_frame T (ezo_do_read_pressure dv h)"
    "keeps_frame T (ezo_do_send_temperature_set dv h x decimals)"
    "keeps_frame T (ezo_do_send_salinity_set dv h x unit decimals)"
    "keeps_frame T (ezo_do_send_pressure_set dv h x decimals)"
    "keeps_frame T (ezo_do_send_calibration dv h point)" "keeps_frame T (ezo_do_send_clear_calibration dv h)"
  using handle unfolding handle_keeps_def handle_defs by simp_all

lemma keeps_delay [keeps_intros]: "keeps_frame T (bus_delay ops us)"
  by (simp add: keeps_frame_def bus_delay_def delays)

lemma keeps_wait [keeps_intros]: "keeps_frame T (wait_for_timing_hint ops dv h ms)"
  unfolding wait_for_timing_hint_def by (intro keeps_intros)

lemma keeps_response_loop: "keeps_frame T (read_command_response_loop ops dv h k)"
proof (induction "kPendingRereads - k" arbitrary: k)
  case 0
  then have "\<not> k < kPendingRereads" by simp
  then show ?case by (subst read_command_response_loop.simps) (simp, intro keeps_intros)
next
  case (Suc n)
  have "keeps_frame T (read_command_response_loop ops dv h (Suc k))" by (rule Suc(1)) (use Suc(2) in simp)
  then show ?case by (subst read_command_response_loop.simps) (intro keeps_intros)
qed

lemma keeps_exchange [keeps_intros]:
  "keeps_frame T send \<Longrightarrow> keeps_frame T recv \<Longrightarrow> keeps_frame T (exchange ops dv h send c1 recv c2)"
  unfolding exchange_def by (intro keeps_intros)

lemma keeps_response [keeps_intros]: "keeps_frame T (read_command_response ops dv h)"
  by (simp add: read_command_response_def keeps_response_loop)

lemma keeps_finish [keeps_intros]: "keeps_frame T send \<Longrightarrow> keeps_frame T (finish ops dv h send c)"
  unfolding finish_def by (intro keeps_intros)

lemma keeps_write_value [keeps_intros]: "(\<And>x. keeps_frame T (f x)) \<Longrightarrow> keeps_frame T (write_value v f)"
  unfolding write_value_def by (intro keeps_intros)

lemma adapter_keeps:
  "keeps_frame T (read_sample (adapter_for ops dv t) h)"
  "read_calibration_level (adapter_for ops dv t) = Some reader \<Longrightarrow> keeps_frame T (reader h l)"
  "read_compensation (adapter_for ops dv t) = Some creader \<Longrightarrow> keeps_frame T (creader h r)"
  "write_compensation (adapter_for ops dv t) = Some writer \<Longrightarrow> keeps_frame T (writer h c)"
proof -
  show "keeps_frame T (read_sample (adapter_for ops dv t) h)"
    by (cases t) (simp_all only: adapter_for.simps adapters DeviceAdapter.select_convs ph_read_sample_def orp_read_sample_def
        ec_read_sample_def do_read_sample_def rtd_read_sample_def hum_read_sample_def, (intro keeps_intros)+)
  show "read_calibration_level (adapter_for ops dv t) = Some reader \<Longrightarrow> keeps_frame T (reader h l)"
    by (cases t) (auto simp: adapter_for.simps adapters ph_read_calibration_level_def do_read_calibration_level_def intro!: keeps_intros)
  show "read_compensation (adapter_for ops dv t) = Some creader \<Longrightarrow> keeps_frame T (creader h r)"
    by (cases t) (auto simp: adapter_for.simps adapters ph_read_compensation_def do_read_compensation_def intro!: keeps_intros)
  show "write_compensation (adapter_for ops dv t) = Some writer \<Longrightarrow> keeps_frame T (writer h c)"
    by (cases t) (auto simp: adapter_for.simps adapters ph_write_compensation_def do_write_compensation_def intro!: keeps_intros)
qed

end

context bus_frame
begin

lemma keeps_send_command:
  assumes "drv p = dv"
  shows "pred_option (keeps_frame T) (send_command p fid t product args h)"
  by (simp add: send_command_def assms driver_keeps)

lemma keeps_sent:
  "pred_option (keeps_frame T) v \<Longrightarrow> (\<And>send. keeps_frame T send \<Longrightarrow> keeps_frame T (f send)) \<Longrightarrow>
     keeps_frame T (case v of None \<Rightarrow> State_Monad.return x | Some send \<Rightarrow> f send)"
  by (cases v) (simp_all add: keeps_return)

lemma keeps_run_command:
  assumes "bops p = ops" and "drv p = dv" and "do_calibration \<Longrightarrow> keeps_frame T (writer h (restore args))" and "keeps_frame T send"
  shows "keeps_frame T (run_command p fid do_calibration args writer send h)"
  unfolding run_command_def assms(1,2) by (intro keeps_intros assms(3,4))

lemma keeps_call_body:
  assumes "bops p = ops" and "drv p = dv"
  shows "keeps_frame T (call_body p fid t product args (write_compensation (adapter_for ops dv t)) h)"
proof (cases "fid = kFunctionSetCompensation")
  case True
  then show ?thesis using adapter_keeps(4) by (auto simp: call_body_def keeps_return split: option.split)
next
  case False
  note command = keeps_sent [OF keeps_send_command [OF assms(2)] keeps_run_command [OF assms]]
  show ?thesis
  proof (cases "is_do_calibration fid t")
    case True
    then obtain writer where "write_compensation (adapter_for ops dv t) = Some writer"
      by (auto simp: is_do_calibration_def adapter_for.simps do_kAdapter_def)
    with adapter_keeps(4) [OF this] have "keeps_frame T (the (write_compensation (adapter_for ops dv t)) h c)" for c by simp
    then show ?thesis
      unfolding call_body_def if_not_P [OF False] if_P [OF True] by (intro keeps_intros command) assumption
  next
    case no: False
    have "keeps_frame T (case send_command p fid t product args h of None \<Rightarrow> State_Monad.return unsupported_function
       | Some send \<Rightarrow> run_command p fid (is_do_calibration fid t) args (the (write_compensation (adapter_for ops dv t))) send h)"
      by (rule command) (simp_all add: no)
    then show ?thesis by (simp add: call_body_def False no)
  qed
qed

end

text \<open>
  The contract holds of the model's own driver handles: whenever the driver behaves as documented and the handle was
  initialised for \<open>a\<close>, the bus is only talked to at \<open>a\<close>.
\<close>

definition at_address :: "('b, 'm) bus_ops_scheme \<Rightarrow> ('b, 'h, 'n) ezo_driver_scheme \<Rightarrow> u8 \<Rightarrow> 'h \<Rightarrow> 'b \<Rightarrow> 'b \<Rightarrow> bool" where
  "at_address ops dv a h b b' \<longleftrightarrow>
     (driver_addressed ops dv \<and> (\<exists>h0. ezo_device_init dv a (transport_write_then_read ops) h0 = (EZO_OK, h)) \<longrightarrow> talk ops {a} b b')"

lemma at_address_cases:
  "at_address ops dv a h = talk ops {a} \<and> handle_keeps (talk ops {a}) dv h \<or> at_address ops dv a h = (\<lambda>_ _. True)"
  by (auto simp: at_address_def fun_eq_iff driver_addressed_def)

lemma handle_keeps_True: "handle_keeps (\<lambda>_ _. True) dv h"
  by (simp add: handle_keeps_def handle_defs keeps_frame_def)

interpretation talking: frame_order "talk ops A" for ops A
  by unfold_locales (blast intro: talk.silent talk_trans)+

interpretation wire: bus_frame "at_address ops dv a h" ops dv h for ops dv a h
proof
  show "handle_keeps (at_address ops dv a h) dv h"
    using at_address_cases [of ops dv a h] handle_keeps_True [of dv h] by (elim disjE) simp_all
qed (auto simp: at_address_def intro: talk.intros talk_trans)

section \<open>The jobs\<close>

definition device_address :: "DeviceSpec \<Rightarrow> u8" where
  "device_address spec = word_of_int (ds_address spec)"

definition reaches :: "('b, 'h, 'r) platform \<Rightarrow> u8 \<Rightarrow> 'b \<Rightarrow> 'b \<Rightarrow> bool" where
  "reaches p a b b' \<longleftrightarrow> (driver_addressed (bops p) (drv p) \<longrightarrow> talk (bops p) {a} b b')"

lemma bound_job_reaches:
  assumes "\<And>h. keeps_frame (at_address (bops p) (drv p) a h) (body h)"
  shows "keeps_frame (reaches p a) (bound_job p a out0 body)"
proof (cases "bind_ezo_i2c_device (bops p) (drv p) a (new_binding (drv p))")
  case (Pair st binding)
  show ?thesis
  proof (cases "is_ok st")
    case True
    then have "\<exists>h0. ezo_device_init (drv p) a (transport_write_then_read (bops p)) h0 = (EZO_OK, bd_device binding)"
      using Pair by (auto simp: bind_ezo_i2c_device_def split: prod.splits if_splits)
    then have "reaches p a = at_address (bops p) (drv p) a (bd_device binding)"
      by (simp add: fun_eq_iff reaches_def at_address_def)
    then show ?thesis using assms [of "bd_device binding"] True by (simp add: bound_job_def Pair)
  next
    case False
    then show ?thesis by (simp add: bound_job_def Pair keeps_frame_def reaches_def talk.silent)
  qed
qed

lemma jobs_reach:
  "keeps_frame (reaches p (device_address spec)) (probe_job p spec)"
  "keeps_frame (reaches p (device_address spec)) (sample_job p spec)"
  "read_calibration_level (adapter_for (bops p) (drv p) (ds_type spec)) = Some reader \<Longrightarrow>
    keeps_frame (reaches p (device_address spec)) (level_job p spec reader)"
  "read_compensation (adapter_for (bops p) (drv p) (ds_type spec)) = Some creader \<Longrightarrow>
    write_compensation (adapter_for (bops p) (drv p) (ds_type spec)) = Some writer \<Longrightarrow>
    keeps_frame (reaches p (device_address spec)) (compensation_job p spec c creader writer)"
  "keeps_frame (reaches p (device_address spec)) (call_job p spec fid args)"
  unfolding probe_job_def sample_job_def level_job_def compensation_job_def call_job_def Let_def device_address_def
  by (intro bound_job_reaches keeps_intros wire.adapter_keeps wire.keeps_call_body refl; assumption)+

text \<open>What a submission does to the bus is what the job does, or nothing.\<close>

lemma submit_bus:
  assumes "\<And>b. T b b" and "\<And>b. T b (snd (run_state job b))"
  shows "T (the (ex_bus e)) (the (ex_bus (snd (submit n t job s e))))"
  using assms(2) [of "the (ex_bus e)"]
  by (cases "run_state job (the (ex_bus e))") (auto simp: submit_def Let_def assms(1) split: prod.split schedule.split)

end
