(* ===== verification/Ezo_Addresses.thy ===== *)
theory Ezo_Addresses
  imports Ezo_Main Ezo_Wire
begin

text \<open>
  From jobs to the provider: every operation on a device (\<^verbatim>\<open>src/core/runtime_state.cpp\<close>,
  \<^verbatim>\<open>src/core/ezo_provider_runtime.cpp\<close>) keeps the executor's bus to the address the device was configured with, and
  startup probes and reads configured devices only. An operation looks its device up first, so the rules \<open>stays_found\<close> and
  \<open>stays_snapshot\<close> hand the address of what was found to the job that follows.
\<close>

section \<open>Operations on a device\<close>

definition bus_kept :: "('b \<Rightarrow> 'b \<Rightarrow> bool) \<Rightarrow> ('b, 'r) world \<Rightarrow> ('b, 'r) world \<Rightarrow> bool" where
  "bus_kept T w w' \<longleftrightarrow> rel_option (\<lambda>e e'. T (the (ex_bus e)) (the (ex_bus e'))) (g_executor w) (g_executor w')"

definition addressed_in :: "('b, 'h, 'r) platform \<Rightarrow> u8 set \<Rightarrow> string set \<Rightarrow> ('b, 'r) world \<Rightarrow> bool" where
  "addressed_in p A I w \<longleftrightarrow> driver_addressed (bops p) (drv p) \<and>
     (\<forall>i \<in> I. \<forall>d. active_device i w = Some d \<longrightarrow> device_address (ad_spec d) \<in> A)"

text \<open>While the devices of the ids in \<open>I\<close> have their addresses in \<open>A\<close>, the executor's bus is only talked to in \<open>A\<close>.\<close>

definition stays :: "('b, 'h, 'r) platform \<Rightarrow> u8 set \<Rightarrow> string set \<Rightarrow> ('b, 'r) world \<Rightarrow> ('b, 'r) world \<Rightarrow> bool" where
  "stays p A I w w' \<longleftrightarrow> (addressed_in p A I w \<longrightarrow> addressed_in p A I w' \<and> bus_kept (talk (bops p) A) w w')"

lemma bus_kept_refl: "bus_kept (talk ops A) w w"
  by (simp add: bus_kept_def option.rel_refl talk.silent)

lemma bus_kept_trans: "bus_kept (talk ops A) w w' \<Longrightarrow> bus_kept (talk ops A) w' w'' \<Longrightarrow> bus_kept (talk ops A) w w''"
  unfolding bus_kept_def by (erule option.rel_transp [THEN transpD, rotated]) (auto intro: transpI talk_trans)

lemma stays_same:
  "(\<And>i. active_device i w' = active_device i w) \<Longrightarrow> g_executor w' = g_executor w \<Longrightarrow> stays p A I w w'"
  by (simp add: stays_def addressed_in_def bus_kept_def option.rel_refl talk.silent)

interpretation stays: world_frame "stays p A I" for p :: "('b, 'h, 'r) platform" and A I
  by unfold_locales (simp_all add: stays_same, auto simp: stays_def intro: bus_kept_trans)

lemma stays_update [keeps_intros]:
  assumes "keeps_spec f"
  shows "keeps_frame (stays p A I) (update_active i f)"
  using assms
  by (auto simp: keeps_frame_def stays_def addressed_in_def active_device_upd keeps_spec_def bus_kept_def option.rel_refl talk.silent
      split: if_splits)

text \<open>A program that begins with a look-up: the device it finds is at an address of \<open>A\<close>.\<close>

lemma stays_found:
  assumes "i \<in> I" and "keeps_frame (stays p A I) (g None)"
    and "\<And>d. device_address (ad_spec d) \<in> A \<Longrightarrow> keeps_frame (stays p A I) (g (Some d))"
  shows "keeps_frame (stays p A I) (State_Monad.bind (gets (active_device i)) g)"
  unfolding keeps_frame_def
proof
  fix w
  show "stays p A I w (snd (run_state (State_Monad.bind (gets (active_device i)) g) w))"
  proof (cases "addressed_in p A I w")
    case True
    with assms(1) have "\<forall>d. active_device i w = Some d \<longrightarrow> device_address (ad_spec d) \<in> A" by (simp add: addressed_in_def)
    then show ?thesis using assms(2,3) by (cases "active_device i w") (simp_all add: keeps_frame_def)
  qed (simp add: stays_def)
qed

lemma stays_submit:
  assumes "a \<in> A" and "keeps_frame (reaches p a) job"
  shows "keeps_frame (stays p A I) (submit_i2c_job p n t job)"
  unfolding keeps_frame_def stays_def
proof (intro allI impI conjI)
  fix w
  assume w: "addressed_in p A I w"
  obtain r w' where run: "run_state (submit_i2c_job p n t job) w = (r, w')" by fastforce
  then show "addressed_in p A I (snd (run_state (submit_i2c_job p n t job) w))"
    using submit_i2c_job_frame [OF run] w by (simp add: addressed_in_def active_device_def)
  have job: "talk (bops p) A b (snd (run_state job b))" for b
    using assms w by (auto simp: keeps_frame_def reaches_def addressed_in_def intro: talk_mono)
  show "bus_kept (talk (bops p) A) w (snd (run_state (submit_i2c_job p n t job) w))"
  proof (cases "g_executor w")
    case (Some e)
    then show ?thesis
      using submit_bus [of "talk (bops p) A", OF talk.silent job, of e n t "schedule_of p (job_count w)"]
      by (cases "submit n t job (schedule_of p (job_count w)) e") (simp add: submit_i2c_job_def bus_kept_def)
  qed (simp add: submit_i2c_job_def bus_kept_def)
qed

lemma stays_snapshot:
  assumes "i \<in> I" and "\<And>st. (\<And>d. find_device st i = Some d \<Longrightarrow> device_address (ad_spec d) \<in> A) \<Longrightarrow> keeps_frame (stays p A I) (g st)"
  shows "keeps_frame (stays p A I) (State_Monad.bind (gets snapshot) g)"
  unfolding keeps_frame_def
proof
  fix w
  show "stays p A I w (snd (run_state (State_Monad.bind (gets snapshot) g) w))"
  proof (cases "addressed_in p A I w")
    case True
    then have "keeps_frame (stays p A I) (g (snapshot w))" using assms(1) by (intro assms(2)) (simp add: addressed_in_def)
    then show ?thesis by (simp add: keeps_frame_def)
  qed (simp add: stays_def)
qed

lemma stays_level [keeps_intros]: "i \<in> I \<Longrightarrow> keeps_frame (stays p A I) (refresh_calibration_level p i)"
  unfolding refresh_calibration_level_def level_finished_def
  by (rule stays_found)
    (auto intro!: keeps_intros stays_submit jobs_reach split: option.split)

lemma stays_check [keeps_intros]: "i \<in> I \<Longrightarrow> keeps_frame (stays p A I) (check_compensation p i)"
  unfolding check_compensation_def compensation_finished_def
  by (rule stays_found)
    (auto intro!: keeps_intros stays_submit jobs_reach simp: Let_def split: option.split)

lemma stays_refresh [keeps_intros]: "i \<in> I \<Longrightarrow> keeps_frame (stays p A I) (refresh_device_sample p i)"
  unfolding refresh_device_sample_def sample_finished_def sample_taken_def
  by (intro keeps_if stays_found)
    (auto intro!: keeps_intros stays_submit jobs_reach simp: Let_def split: option.split)

lemma stays_record [keeps_intros]:
  "keeps_frame (stays p A I) (remember_compensation i c)" "keeps_frame (stays p A I) (record_call_result p i fn ok msg)"
  unfolding remember_compensation_def record_call_result_def
  by (auto intro!: keeps_intros)

lemma stays_execute [keeps_intros]:
  "device_address (ad_spec d) \<in> A \<Longrightarrow> keeps_frame (stays p A I) (execute_safe_call p d fid args timeout)"
  unfolding execute_safe_call_def by (auto intro!: keeps_intros stays_submit jobs_reach simp: Let_def)

lemma stays_call: "i \<in> I \<Longrightarrow> keeps_frame (stays p A I) (call p sdk i fid args)"
  unfolding call_def after_compensation_def finish_call_def after_calibration_def
  by (rule stays_snapshot) (auto intro!: keeps_intros simp: Let_def split: option.split)

lemma stays_read: "i \<in> I \<Longrightarrow> keeps_frame (stays p A I) (read_signals p sdk i sids)"
  unfolding read_signals_def refresh_then_serve_def by (auto intro!: keeps_intros simp: Let_def split: option.split)

lemma stays_serve:
  assumes "request_device rq \<in> I"
  shows "stays p A I w (serve p sdk rq w)"
  using assms stays_call stays_read stays.keeps_reports unfolding keeps_frame_def by (cases rq) fastforce+

lemma stays_startup: "set is \<subseteq> I \<Longrightarrow> keeps_frame (stays p A I) (for_each (startup_refresh p) is)"
  unfolding startup_refresh_def by (rule stays.keeps_for_each) (auto intro!: keeps_intros)

section \<open>Startup\<close>

definition device_addresses :: "ProviderConfig \<Rightarrow> u8 set" where
  "device_addresses config = device_address ` set (devices config)"

lemma probe_bus:
  assumes "driver_addressed (bops p) (drv p)" and "device_address spec \<in> A"
    and "probe_identity_real p config spec s e = (r, e')"
  shows "talk (bops p) A (the (ex_bus e)) (the (ex_bus e'))"
proof -
  have job: "talk (bops p) A b (snd (run_state (probe_job p spec) b))" for b
    using jobs_reach(1) [of p spec] assms(1,2) by (auto simp: keeps_frame_def reaches_def intro: talk_mono)
  show ?thesis
    using submit_bus [of "talk (bops p) A", OF talk.silent job, of e "''startup_probe:'' @ ds_id spec" "max (timeout_ms config) 2000" s]
      assms(3)
    by (auto simp: probe_identity_real_def split: prod.splits)
qed

lemma probe_devices_bus:
  assumes "driver_addressed (bops p) (drv p)" and "probe_devices p config specs n e st = (st', e')"
    and "device_address ` set specs \<subseteq> A"
  shows "talk (bops p) A (the (ex_bus e)) (the (ex_bus e'))"
  using assms(2,3)
proof (induction specs arbitrary: n e st)
  case (Cons spec specs)
  obtain r e1 where probe: "probe_identity_real p config spec (schedule_of p n) e = (r, e1)" by fastforce
  then have "talk (bops p) A (the (ex_bus e)) (the (ex_bus e1))"
    using Cons.prems(2) by (intro probe_bus [OF assms(1)]) auto
  moreover obtain st1 where "probe_devices p config specs (Suc n) e1 st1 = (st', e')"
    using Cons.prems(1) probe by (cases r) auto
  ultimately show ?case using Cons.IH Cons.prems(2) by (auto intro: talk_trans)
qed (auto intro: talk.silent)

lemma exec_start_bus:
  assumes "exec_start ops (BusExecutor_new (Some b)) = (st, e)" and "is_ok st"
  obtains b' where "bus_open ops b = (I2c_ok, b')" and "ex_bus e = Some b'"
proof (cases "bus_open ops b")
  case (Pair s b')
  with assms have "s = I2c_ok" by (cases "s = I2c_ok") (auto simp: exec_start_def BusExecutor_new_def Let_def)
  with assms Pair show ?thesis by (auto simp: exec_start_def BusExecutor_new_def Let_def intro: that)
qed

text \<open>Everything that was said on the bus since it was opened was said to a configured device.\<close>

definition bus_history :: "('b, 'h, 'r) platform \<Rightarrow> ProviderConfig \<Rightarrow> ('b, 'r) world \<Rightarrow> bool" where
  "bus_history p config w \<longleftrightarrow> (case g_executor w of
     None \<Rightarrow> True
   | Some e \<Rightarrow> \<exists>b. bus_open (bops p) (make_bus p config) = (I2c_ok, b) \<and>
       talk (bops p) (device_addresses config) b (the (ex_bus e)))"

lemma bus_history_stays:
  assumes "stays p (device_addresses config) I w w'" and "addressed_in p (device_addresses config) I w" and "bus_history p config w"
  shows "bus_history p config w' \<and> addressed_in p (device_addresses config) I w'"
proof -
  from assms(1,2) have "bus_kept (talk (bops p) (device_addresses config)) w w'"
    and "addressed_in p (device_addresses config) I w'" by (simp_all add: stays_def)
  then show ?thesis
    using assms(3) unfolding bus_history_def bus_kept_def
    by (cases "g_executor w"; cases "g_executor w'") (auto intro: talk_trans)
qed

lemma addressed_in_specs:
  assumes "driver_addressed (bops p) (drv p)" and "ad_spec ` set (active_devices (g_state w)) \<subseteq> set (devices config)"
  shows "addressed_in p (device_addresses config) I w"
  using assms
  by (auto simp: addressed_in_def device_addresses_def active_device_def find_active_device_unlocked_def dest!: find_SomeD)

lemma publish_started_bus:
  assumes "driver_addressed (bops p) (drv p)" and "ad_spec ` set (active_devices st) \<subseteq> set (devices config)"
    and "bus_open (bops p) (make_bus p config) = (I2c_ok, b)" and "talk (bops p) (device_addresses config) b (the (ex_bus e))"
  shows "bus_history p config (snd (run_state (publish_started p st e) w)) \<and>
    addressed_in p (device_addresses config) UNIV (snd (run_state (publish_started p st e) w))"
proof -
  obtain w1 where w1: "snd (run_state (publish_started p st e) w) =
      snd (run_state (for_each (startup_refresh p) (map (ds_id \<circ> ad_spec) (active_devices (g_state w1)))) w1)"
    "active_devices (g_state w1) = active_devices st" "g_executor w1 = Some e"
    using publish_started_run by blast
  have "addressed_in p (device_addresses config) UNIV w1"
    using assms(1,2) by (intro addressed_in_specs) (simp_all add: w1)
  moreover have "bus_history p config w1" using assms(3,4) by (simp add: bus_history_def w1)
  ultimately show ?thesis
    unfolding w1(1)
    by (intro bus_history_stays [OF stays_startup [OF subset_UNIV, unfolded keeps_frame_def, rule_format]])
qed

lemma initialize_bus:
  assumes driver: "driver_addressed (bops p) (drv p)"
  shows "bus_history p config (snd (run_state (initialize p config) w)) \<and>
    addressed_in p (device_addresses config) UNIV (snd (run_state (initialize p config) w))"
proof -
  let ?good = "\<lambda>w. bus_history p config w \<and> addressed_in p (device_addresses config) UNIV w"
  have none: "?good w" if "active_devices (g_state w) = []" and "g_executor w = None" for w
    using that addressed_in_specs [OF driver] by (simp add: bus_history_def)
  have start: "?good (snd (run_state (start_devices p config st) w))"
    if st: "active_devices st = []" "excluded_devices st = []" and w: "g_executor w = None" for st w
  proof -
    obtain ss e where start: "exec_start (bops p) (BusExecutor_new (Some (make_bus p config))) = (ss, e)" by fastforce
    show ?thesis
    proof (cases "is_ok ss")
      case False
      then show ?thesis using st w by (intro none) (simp_all add: start_devices_def start Let_def started_state_def)
    next
      case True
      obtain b where b: "bus_open (bops p) (make_bus p config) = (I2c_ok, b)" "ex_bus e = Some b"
        by (rule exec_start_bus [OF start True])
      obtain st1 e1 where probe: "probe_devices p config (devices config) (job_count w) e (started_state ss e st) = (st1, e1)"
        by fastforce
      have "talk (bops p) (device_addresses config) b (the (ex_bus e1))"
        using probe_devices_bus [OF driver probe, of "device_addresses config"] b(2) by (simp add: device_addresses_def)
      moreover have "ad_spec ` set (active_devices st1) \<subseteq> set (devices config)"
      proof -
        from probe_devices_spec [OF probe] obtain act exc where
          "st1 = (started_state ss e st)\<lparr>active_devices := active_devices (started_state ss e st) @ act,
             excluded_devices := excluded_devices (started_state ss e st) @ exc\<rparr>"
          and all: "mset (map ad_spec act @ map ed_spec exc) = mset (devices config)" by blast
        then have "active_devices st1 = act" using st by (simp add: started_state_def)
        moreover have "set (map ad_spec act @ map ed_spec exc) = set (devices config)" by (rule mset_eq_setD [OF all])
        ultimately show ?thesis by auto
      qed
      ultimately show ?thesis
        using publish_started_bus [OF driver _ b(1)] by (simp add: start_devices_def start Let_def True probe)
    qed
  qed
  show ?thesis
    by (cases "query_latency_ms config \<ge> sample_interval_ms config")
      (simp_all add: initialize_def reset_def shutdown_def startup_from_def start none new_RuntimeState_def host_unmet_state_def Let_def)
qed

lemma serving_bus:
  assumes "addressed_in p (device_addresses config) UNIV w" and "bus_history p config w"
  shows "bus_history p config (fold (serve p sdk) rqs w) \<and> addressed_in p (device_addresses config) UNIV (fold (serve p sdk) rqs w)"
  using assms
proof (induction rqs arbitrary: w)
  case (Cons rq rqs)
  have "bus_history p config (serve p sdk rq w) \<and> addressed_in p (device_addresses config) UNIV (serve p sdk rq w)"
    by (rule bus_history_stays [OF stays_serve [OF UNIV_I] Cons.prems])
  then show ?case using Cons.IH by simp
qed simp

end
