(* ===== verification/Ezo_Sections.thy ===== *)
theory Ezo_Sections
  imports Ezo_Prelude "HOL-Library.State_Monad" "HOL-Library.Multiset"
begin

text \<open>
  Threads that share a state and hold its lock in sections. A thread is a tree of sections: each section runs atomically on the
  state it finds and yields the rest of the thread; other threads run between two sections. The interleaved system of
  any number of threads, what a thread does when it runs alone, that every run ends, and the rules by which threads are shown to
  keep an invariant and to account for what they owe and earn whatever the others do.
\<close>

section \<open>Threads\<close>

datatype ('w, 'a) thread = Done 'a | Section "'w \<Rightarrow> ('w, 'a) thread \<times> 'w"

primrec and_then :: "('w, 'a) thread \<Rightarrow> ('a \<Rightarrow> ('w, 'b) thread) \<Rightarrow> ('w, 'b) thread" where
  "and_then (Done a) f = f a"
| "and_then (Section g) f = Section (\<lambda>w. map_prod (\<lambda>t. and_then t f) id (g w))"

definition atomic :: "('w, 'a) state \<Rightarrow> ('w, 'a) thread" where
  "atomic m = Section (\<lambda>w. case run_state m w of (a, w') \<Rightarrow> (Done a, w'))"

primrec alone :: "('w, 'a) thread \<Rightarrow> 'w \<Rightarrow> 'a \<times> 'w" where
  "alone (Done a) = Pair a"
| "alone (Section g) = (\<lambda>w. case map_prod alone id (g w) of (h, w') \<Rightarrow> h w')"

lemma alone_and_then [simp]: "alone (and_then t f) w = (case alone t w of (a, w') \<Rightarrow> alone (f a) w')"
proof (induction t arbitrary: w)
  case (Section g)
  obtain t' w' where g: "g w = (t', w')" by fastforce
  then have "alone (and_then t' f) w' = (case alone t' w' of (a, w') \<Rightarrow> alone (f a) w')"
    using Section [of "(t', w')" t' w'] rangeI [of g w] by simp
  then show ?case by (simp add: g)
qed simp

lemma alone_atomic [simp]: "alone (atomic m) w = run_state m w"
  by (simp add: atomic_def split: prod.split)

section \<open>Interleaving\<close>

inductive interleave :: "('w, 'a) thread list \<times> 'w \<Rightarrow> ('w, 'a) thread list \<times> 'w \<Rightarrow> bool" where
  "j < length ts \<Longrightarrow> ts ! j = Section g \<Longrightarrow> g w = (t, w') \<Longrightarrow> interleave (ts, w) (ts[j := t], w')"

inductive_cases interleaveE: "interleave (ts, w) (ts', w')"

definition all_done :: "('w, 'a) thread list \<Rightarrow> bool" where
  "all_done ts \<longleftrightarrow> (\<forall>t \<in> set ts. \<exists>a. t = Done a)"

text \<open>As long as a thread is not done it can go on: no section waits for another thread.\<close>

lemma interleave_progress: "\<not> all_done ts \<Longrightarrow> \<exists>s. interleave (ts, w) s"
proof -
  assume "\<not> all_done ts"
  then obtain t where "t \<in> set ts" and "\<forall>a. t \<noteq> Done a" by (auto simp: all_done_def)
  then obtain g where "Section g \<in> set ts" by (metis thread.exhaust)
  then obtain j where "j < length ts" "ts ! j = Section g" by (auto simp: in_set_conv_nth)
  then show ?thesis by (metis interleave.intros prod.exhaust)
qed

text \<open>One of the threads may run to its end without being interrupted.\<close>

lemma interleave_alone:
  "j < length ts \<Longrightarrow> ts ! j = t \<Longrightarrow> alone t w = (a, w') \<Longrightarrow> interleave\<^sup>*\<^sup>* (ts, w) (ts[j := Done a], w')"
proof (induction t arbitrary: ts w)
  case (Done b)
  then show ?case using list_update_id [of ts j] by simp
next
  case (Section g)
  obtain t w1 where g: "g w = (t, w1)" by fastforce
  have first: "interleave (ts, w) (ts[j := t], w1)" using Section.prems(1,2) g by (rule interleave.intros)
  have rest: "alone t w1 = (a, w')" using Section.prems(3) by (simp add: g)
  have "interleave\<^sup>*\<^sup>* (ts[j := t], w1) ((ts[j := t])[j := Done a], w')"
    by (rule Section.IH [of "g w" t]) (use Section.prems(1) rest g rangeI [of g w] in \<open>simp_all add: fsts.simps\<close>)
  then show ?case using first by (simp add: converse_rtranclp_into_rtranclp)
qed

text \<open>A thread with no others does what it does alone, and nothing else.\<close>

lemma single_step: "interleave ([t], w) s \<Longrightarrow> \<exists>t'. fst s = [t'] \<and> alone t' (snd s) = alone t w"
  by (erule interleave.cases) auto

lemma interleave_single:
  "interleave\<^sup>*\<^sup>* ([t], w) ([Done a], w') \<longleftrightarrow> alone t w = (a, w')"
proof
  have "\<exists>t'. fst s = [t'] \<and> alone t' (snd s) = alone t w" if "interleave\<^sup>*\<^sup>* ([t], w) s" for s
    using that
  proof (induction rule: rtranclp_induct)
    case (step s s')
    then obtain t' where t': "s = ([t'], snd s)" "alone t' (snd s) = alone t w" by (metis prod.collapse)
    with single_step [of t' "snd s" s'] step.hyps(2) show ?case by metis
  qed simp
  then show "interleave\<^sup>*\<^sup>* ([t], w) ([Done a], w') \<Longrightarrow> alone t w = (a, w')" by fastforce
  show "alone t w = (a, w') \<Longrightarrow> interleave\<^sup>*\<^sup>* ([t], w) ([Done a], w')"
    using interleave_alone [of 0 "[t]" t w a w'] by simp
qed

text \<open>Every run comes to an end: a section replaces its thread by a smaller one.\<close>

definition rest_of :: "(('w, 'a) thread \<times> ('w, 'a) thread) set" where
  "rest_of = {(fst (g w), Section g) | g w. True}"

lemma wf_rest_of: "wf (rest_of :: (('w, 'a) thread \<times> ('w, 'a) thread) set)"
proof (rule wfI_min)
  fix x :: "('w, 'a) thread" and Q :: "('w, 'a) thread set"
  assume "x \<in> Q"
  then show "\<exists>z \<in> Q. \<forall>y. (y, z) \<in> rest_of \<longrightarrow> y \<notin> Q"
  proof (induction x)
    case (Section g)
    show ?case
    proof (cases "\<exists>w. fst (g w) \<in> Q")
      case True
      then obtain w where w: "fst (g w) \<in> Q" by blast
      show ?thesis by (rule Section.IH [of "g w" "fst (g w)"]) (simp_all add: w fsts.simps prod_eq_iff)
    next
      case False
      then show ?thesis using Section.prems by (auto simp: rest_of_def intro!: bexI [of _ "Section g"])
    qed
  qed (auto simp: rest_of_def)
qed

lemma interleave_shrinks: "interleave s s' \<Longrightarrow> (mset (fst s'), mset (fst s)) \<in> mult rest_of"
proof (induction rule: interleave.induct)
  case (1 j ts g w t w')
  have "(t, Section g) \<in> rest_of" using 1(3) by (auto simp: rest_of_def intro!: exI [of _ w])
  then have "(mset ts - {#Section g#} + {#t#}, mset ts - {#Section g#} + {#Section g#}) \<in> mult1 rest_of"
    unfolding mult1_def
    by (intro CollectI case_prodI exI [of _ "Section g"] exI [of _ "mset ts - {#Section g#}"] exI [of _ "{#t#}"]) simp
  moreover have "Section g \<in># mset ts" using 1(1,2) nth_mem [of j ts] by simp
  ultimately show ?case using 1(1,2) by (auto simp: mult_def mset_update)
qed

lemma no_endless_interleaving: "\<not> (\<forall>n. interleave (f n) (f (Suc n)))"
proof
  assume "\<forall>n. interleave (f n) (f (Suc n))"
  then have "\<forall>n. (mset (fst (f (Suc n))), mset (fst (f n))) \<in> mult rest_of" by (blast intro: interleave_shrinks)
  then show False using wf_mult [OF wf_rest_of] by (auto simp: wf_iff_no_infinite_down_chain)
qed

section \<open>Invariants and accounts\<close>

text \<open>
  \<open>Inv\<close> is an invariant of the state. \<open>G m w\<close> says that the state \<open>w\<close> is in order when \<open>m\<close> is the sum of what the threads
  owe or are credited with. A thread \<open>accounts\<close> for \<open>m\<close> when every section it runs from a state with the invariant
  keeps the invariant, and moves \<open>G\<close> from the thread's balance before to its balance afterwards, whatever the others' balances are; when
  it is done, \<open>Q\<close> holds of its balance and its result.
\<close>

inductive accounts ::
    "('w \<Rightarrow> bool) \<Rightarrow> ('m :: comm_monoid_add \<Rightarrow> 'w \<Rightarrow> bool) \<Rightarrow> 'm \<Rightarrow> ('m \<Rightarrow> 'a \<Rightarrow> bool) \<Rightarrow> ('w, 'a) thread \<Rightarrow> bool"
  for Inv G where
  done_accounts: "Q m a \<Longrightarrow> accounts Inv G m Q (Done a)"
| section_accounts: "(\<And>w t w'. Inv w \<Longrightarrow> g w = (t, w') \<Longrightarrow>
      Inv w' \<and> (\<exists>m'. accounts Inv G m' Q t \<and> (\<forall>rest. G (m + rest) w \<longrightarrow> G (m' + rest) w'))) \<Longrightarrow>
    accounts Inv G m Q (Section g)"

inductive_cases accounts_DoneE: "accounts Inv G m Q (Done a)"
inductive_cases accounts_SectionE: "accounts Inv G m Q (Section g)"

lemma accounts_atomic:
  fixes s :: "('w, 'a) state"
  assumes "\<And>w a w'. Inv w \<Longrightarrow> run_state s w = (a, w') \<Longrightarrow>
    Inv w' \<and> (\<exists>m'. Q m' a \<and> (\<forall>rest. G (m + rest) w \<longrightarrow> G (m' + rest) w'))"
  shows "accounts Inv G m Q (atomic s)"
  unfolding atomic_def
proof (rule section_accounts)
  fix w w' and t :: "('w, 'a) thread"
  assume w: "Inv w" and "(case run_state s w of (a, w') \<Rightarrow> (Done a, w')) = (t, w')"
  then obtain a where a: "run_state s w = (a, w')" "t = Done a" by (auto split: prod.splits)
  show "Inv w' \<and> (\<exists>m'. accounts Inv G m' Q t \<and> (\<forall>rest. G (m + rest) w \<longrightarrow> G (m' + rest) w'))"
    using assms [OF w a(1)] a(2) by (blast intro: done_accounts)
qed

lemma accounts_and_then:
  assumes "accounts Inv G m P t" and "\<And>n a. P n a \<Longrightarrow> accounts Inv G n Q (f a)"
  shows "accounts Inv G m Q (and_then t f)"
  using assms
proof (induction m P t rule: accounts.induct)
  case (done_accounts P m a)
  then show ?case by simp
next
  case (section_accounts g P m)
  show ?case unfolding and_then.simps
  proof (rule accounts.section_accounts)
    fix w t w'
    assume w: "Inv w" and "map_prod (\<lambda>t. and_then t f) id (g w) = (t, w')"
    then obtain t0 where t0: "g w = (t0, w')" "t = and_then t0 f" by (cases "g w") auto
    from section_accounts.IH [OF w t0(1)] section_accounts.prems
    show "Inv w' \<and> (\<exists>m'. accounts Inv G m' Q t \<and> (\<forall>rest. G (m + rest) w \<longrightarrow> G (m' + rest) w'))"
      unfolding t0(2) by blast
  qed
qed

lemma accounts_frame: "accounts Inv G m Q t \<Longrightarrow> accounts Inv G (m + k) (\<lambda>n a. \<exists>n'. n = n' + k \<and> Q n' a) t"
proof (induction m Q t rule: accounts.induct)
  case (section_accounts g Q m)
  show ?case
  proof (rule accounts.section_accounts)
    fix w t w'
    assume "Inv w" "g w = (t, w')"
    from section_accounts.IH [OF this] obtain m' where "Inv w'" "accounts Inv G (m' + k) (\<lambda>n a. \<exists>n'. n = n' + k \<and> Q n' a) t"
      "\<forall>rest. G (m + rest) w \<longrightarrow> G (m' + rest) w'" by blast
    then show "Inv w' \<and> (\<exists>m'. accounts Inv G m' (\<lambda>n a. \<exists>n'. n = n' + k \<and> Q n' a) t \<and>
        (\<forall>rest. G (m + k + rest) w \<longrightarrow> G (m' + rest) w'))"
      by (intro conjI exI [of _ "m' + k"]) (simp_all add: add.assoc)
  qed
qed (blast intro: accounts.done_accounts)

lemma accounts_mono: "accounts Inv G m P t \<Longrightarrow> (\<And>n a. P n a \<Longrightarrow> Q n a) \<Longrightarrow> accounts Inv G m Q t"
proof (induction m P t rule: accounts.induct)
  case (section_accounts g P m)
  show ?case by (rule accounts.section_accounts) (use section_accounts in blast)
qed (rule accounts.done_accounts; blast)

text \<open>The usual outcome: a fixed balance \<open>c\<close> and a fact about the result.\<close>

definition balanced :: "'m \<Rightarrow> ('a \<Rightarrow> bool) \<Rightarrow> 'm \<Rightarrow> 'a \<Rightarrow> bool" where
  "balanced c Q n a \<longleftrightarrow> n = c \<and> Q a"

lemma ex_balanced [simp]: "(\<exists>n. balanced c Q n a \<and> P n) \<longleftrightarrow> Q a \<and> P c"
  by (auto simp: balanced_def)

lemma accounts_balanced_frame:
  "accounts Inv G 0 (balanced 0 Q) t \<Longrightarrow> accounts Inv G c (balanced c Q) t"
  by (rule accounts_mono [OF accounts_frame [of Inv G 0 "balanced 0 Q" t c, simplified]]) (simp_all add: balanced_def)

text \<open>A thread with a balance of nothing at both ends may be put before or after any other.\<close>

lemma accounts_then_0:
  assumes "accounts Inv G 0 (balanced 0 P) t" and "\<And>a. P a \<Longrightarrow> accounts Inv G m Q (f a)"
  shows "accounts Inv G m Q (and_then t f)"
  by (rule accounts_and_then [OF accounts_balanced_frame [OF assms(1)]]) (simp add: balanced_def assms(2))

lemma accounts_then_rest:
  assumes "accounts Inv G m (balanced c P) t" and "\<And>a. P a \<Longrightarrow> accounts Inv G 0 (balanced 0 Q) (f a)"
  shows "accounts Inv G m (balanced c Q) (and_then t f)"
  by (rule accounts_and_then [OF assms(1)]) (auto simp: balanced_def intro: accounts_balanced_frame [OF assms(2)])

text \<open>One step of one thread, and every interleaving.\<close>

definition accounted ::
    "('w \<Rightarrow> bool) \<Rightarrow> ('m :: comm_monoid_add \<Rightarrow> 'w \<Rightarrow> bool) \<Rightarrow> 'm list \<Rightarrow> ('m \<Rightarrow> 'a \<Rightarrow> bool) list \<Rightarrow> ('w, 'a) thread list \<Rightarrow> bool" where
  "accounted Inv G ms Qs ts \<longleftrightarrow> length ms = length ts \<and> length Qs = length ts \<and>
     (\<forall>j < length ts. accounts Inv G (ms ! j) (Qs ! j) (ts ! j))"

lemma interleave_accounts:
  assumes "interleave (ts, w) (ts', w')" and "accounted Inv G ms Qs ts" and "Inv w" and "G (sum_list ms) w"
  shows "\<exists>ms'. accounted Inv G ms' Qs ts' \<and> Inv w' \<and> G (sum_list ms') w'"
  using assms(1)
proof (rule interleaveE)
  fix j g t
  assume ts': "ts' = ts[j := t]" and j: "j < length ts" "ts ! j = Section g" "g w = (t, w')"
  have len: "j < length ms" using assms(2) j(1) by (simp add: accounted_def)
  have "accounts Inv G (ms ! j) (Qs ! j) (Section g)" using assms(2) j(1,2) by (metis accounted_def)
  then obtain m' where m': "Inv w'" "accounts Inv G m' (Qs ! j) t" "\<And>rest. G (ms ! j + rest) w \<Longrightarrow> G (m' + rest) w'"
    using assms(3) j(3) by (blast elim: accounts_SectionE)
  define rest where "rest = sum_list (take j ms @ drop (Suc j) ms)"
  have "sum_list ms = ms ! j + rest"
    using id_take_nth_drop [OF len] by (metis rest_def sum_list.Cons sum_list_append add.left_commute)
  moreover have "sum_list (ms[j := m']) = m' + rest"
    using len by (simp add: upd_conv_take_nth_drop rest_def add.left_commute)
  moreover have "accounted Inv G (ms[j := m']) Qs ts'"
    unfolding accounted_def
  proof (intro conjI allI impI)
    fix i
    assume "i < length ts'"
    then show "accounts Inv G (ms[j := m'] ! i) (Qs ! i) (ts' ! i)"
      using assms(2) m'(2) len by (cases "i = j") (simp_all add: ts' accounted_def)
  qed (use assms(2) in \<open>simp_all add: ts' accounted_def\<close>)
  ultimately show ?thesis using m' assms(4) by (intro exI [of _ "ms[j := m']"]) simp
qed

text \<open>
  Every interleaving of threads that account for their balances keeps the invariant, and once all of them are done the
  state is in order with balances that satisfy their \<open>Qs\<close>.
\<close>

lemma interleave_accounted:
  assumes "interleave\<^sup>*\<^sup>* (ts, w) (ts', w')" and "accounted Inv G ms Qs ts" and "Inv w" and "G (sum_list ms) w"
  obtains ms' where "accounted Inv G ms' Qs ts'" and "Inv w'" and "G (sum_list ms') w'"
proof -
  have "\<exists>ms'. accounted Inv G ms' Qs ts' \<and> Inv w' \<and> G (sum_list ms') w'"
    using assms(1)
  proof (induction rule: rtranclp_induct2)
    case refl
    then show ?case using assms by blast
  next
    case (step ts1 w1 ts2 w2)
    from step.IH obtain ms1 where "accounted Inv G ms1 Qs ts1" "Inv w1" "G (sum_list ms1) w1" by blast
    from interleave_accounts [OF step.hyps(2) this] show ?case .
  qed
  then show ?thesis using that by blast
qed

lemma accounted_done:
  assumes "accounted Inv G ms Qs ts" and "all_done ts" and "j < length ts"
  obtains a where "ts ! j = Done a" and "(Qs ! j) (ms ! j) a"
proof -
  obtain a where a: "ts ! j = Done a" using assms(2,3) nth_mem [of j ts] by (fastforce simp: all_done_def)
  then have "accounts Inv G (ms ! j) (Qs ! j) (Done a)" using assms(1,3) by (metis accounted_def)
  then show ?thesis using that a by (auto elim: accounts_DoneE)
qed

end
