(* ===== verification/Ezo_Threads.thy ===== *)
theory Ezo_Threads
  imports Ezo_Main Ezo_Sections
begin

text \<open>
  The operations of the runtime as threads over \<^verbatim>\<open>g_mutex\<close>: the same operations as in \<open>Ezo_Runtime\<close>, \<open>Ezo_Calls\<close> and
  \<open>Ezo_Provider\<close>, cut where the source releases the lock. A \<^verbatim>\<open>std::shared_ptr\<close> to the executor that an operation copies under the
  lock is a handle: the executors ever made are numbered in the order of their retirement, and a handle stays valid
  after \<^verbatim>\<open>shutdown\<close> has moved the executor out of \<^verbatim>\<open>g_executor\<close>. A submitted job is one step, as the executor serializes
  the jobs of all callers; clock readings and log lines are steps of their own. Starting the provider is not
  interleaved: \<^verbatim>\<open>main\<close> does it before it serves.
\<close>

section \<open>Executors behind handles\<close>

definition fetch :: "('b, 'r) world \<Rightarrow> nat option" where
  "fetch w = (case g_executor w of None \<Rightarrow> None | Some _ \<Rightarrow> Some (length (retired w)))"

definition executor_at :: "nat \<Rightarrow> ('b, 'r) world \<Rightarrow> 'b BusExecutor option" where
  "executor_at k w =
     (if k < length (retired w) then Some (rev (retired w) ! k) else if k = length (retired w) then g_executor w else None)"

definition put_executor :: "nat \<Rightarrow> 'b BusExecutor \<Rightarrow> ('b, 'r) world \<Rightarrow> ('b, 'r) world" where
  "put_executor k e w =
     (if k < length (retired w) then w\<lparr>retired := rev ((rev (retired w))[k := e])\<rparr>
      else if k = length (retired w) then w\<lparr>g_executor := Some e\<rparr> else w)"

definition run_job ::
    "('b, 'h, 'r) platform \<Rightarrow> string \<Rightarrow> int \<Rightarrow> ('b, Status \<times> 'o) state \<Rightarrow> nat \<Rightarrow> ('b, 'r, Status \<times> 'o option) prog" where
  "run_job p job_name timeout job k =
     State (\<lambda>w. case executor_at k w of
        None \<Rightarrow> ((make_status Unavailable ''executor is not running'', None), w)
      | Some e \<Rightarrow>
          (case submit job_name timeout job (schedule_of p (job_count w)) e of
             (r, e') \<Rightarrow> (r, (put_executor k e' w)\<lparr>job_count := job_count w + 1\<rparr>)))"

section \<open>The operations\<close>

type_synonym ('b, 'r, 'a) op = "(('b, 'r) world, 'a) thread"

definition submit_thread ::
    "('b, 'h, 'r) platform \<Rightarrow> string \<Rightarrow> int \<Rightarrow> ('b, Status \<times> 'o) state \<Rightarrow> ('b, 'r, Status \<times> 'o option) op" where
  "submit_thread p job_name timeout job =
     and_then (atomic (gets fetch)) (\<lambda>executor.
       case executor of
         None \<Rightarrow> Done (make_status Unavailable ''i2c executor is not running'', None)
       | Some k \<Rightarrow> atomic (run_job p job_name timeout job k))"

definition look_up :: "string \<Rightarrow> ('b, 'r, ActiveDevice option \<times> ProviderConfig) prog" where
  "look_up i = gets (\<lambda>w. (active_device i w, rs_config (g_state w)))"

definition level_thread :: "('b, 'h, 'r) platform \<Rightarrow> string \<Rightarrow> ('b, 'r, Status) op" where
  "level_thread p i =
     and_then (atomic (look_up i)) (\<lambda>(found, config).
       case found of
         None \<Rightarrow> Done unknown_device
       | Some it \<Rightarrow>
           (case read_calibration_level (adapter_for (bops p) (drv p) (ds_type (ad_spec it))) of
              None \<Rightarrow> Done Status_ok
            | Some reader \<Rightarrow>
                and_then (submit_thread p (job_for ''calibration-level:'' i) (refresh_timeout_ms config 1)
                  (level_job p (ad_spec it) reader)) (\<lambda>r. atomic (level_finished p i r))))"

text \<open>The second section of a compensation check: whether the device is still there, and whether values were sent again.\<close>

definition compensation_section ::
    "('b, 'h, 'r) platform \<Rightarrow> string \<Rightarrow> Status \<times> outcome option \<Rightarrow> ('b, 'r, bool option) prog" where
  "compensation_section p i r = do {
     again \<leftarrow> gets (active_device i);
     case again of
       None \<Rightarrow> State_Monad.return None
     | Some _ \<Rightarrow>
         (case (case snd r of None \<Rightarrow> no_outcome | Some seen \<Rightarrow> seen) of (reading, reapplied) \<Rightarrow> do {
            update_active i (store_compensation (bops p) (drv p) (fst r) reading reapplied);
            State_Monad.return (Some reapplied)
          })
   }"

definition log_if :: "bool \<Rightarrow> string \<Rightarrow> ('b, 'r, unit) op" where
  "log_if b msg = (if b then atomic (log_warning msg) else Done ())"

definition compensation_thread :: "('b, 'h, 'r) platform \<Rightarrow> string \<Rightarrow> ('b, 'r, Status) op" where
  "compensation_thread p i =
     and_then (atomic (look_up i)) (\<lambda>(found, config).
       case found of
         None \<Rightarrow> Done unknown_device
       | Some it \<Rightarrow>
           (let adapter = adapter_for (bops p) (drv p) (ds_type (ad_spec it)) in
            case (read_compensation adapter, write_compensation adapter) of
              (Some reader, Some writer) \<Rightarrow>
                and_then (submit_thread p (job_for ''compensation:'' i) (refresh_timeout_ms config 9)
                  (compensation_job p (ad_spec it) (compensation_set it) reader writer)) (\<lambda>r.
                and_then (atomic (compensation_section p i r)) (\<lambda>stored.
                case stored of
                  None \<Rightarrow> Done unknown_device
                | Some reapplied \<Rightarrow>
                    and_then (log_if reapplied (''device '' @ quoted i @
                      '' had lost its compensation, as after a power cut; sent the set values again'')) (\<lambda>_. Done (fst r))))
            | _ \<Rightarrow> Done Status_ok))"

text \<open>The second section of a sample refresh: the cadence warning to log and whether a compensation check is due.\<close>

definition sample_section ::
    "('b, 'h, 'r) platform \<Rightarrow> string \<Rightarrow> ProviderConfig \<Rightarrow> Status \<times> SignalSample list option \<Rightarrow> time_point \<Rightarrow> time_point
      \<Rightarrow> ('b, 'r, (string option \<times> bool) option) prog" where
  "sample_section p i config r now now_steady = do {
     again \<leftarrow> gets (active_device i);
     case again of
       None \<Rightarrow> State_Monad.return None
     | Some d \<Rightarrow>
         if is_ok (fst r) then do {
           let take = take_sample (bops p) (drv p) config i now now_steady (case snd r of None \<Rightarrow> [] | Some s \<Rightarrow> s);
           update_active i take;
           State_Monad.return (Some (snd (cadence_check config i now_steady (ad_sample d)), compensation_due (take d)))
         } else do {
           update_active i (fail_sample (fst r));
           State_Monad.return (Some (None, False))
         }
   }"

definition sample_thread :: "('b, 'h, 'r) platform \<Rightarrow> string \<Rightarrow> ('b, 'r, Status) op" where
  "sample_thread p i =
     (if i = '''' then Done (make_status InvalidArgument ''device_id is required'')
      else and_then (atomic (look_up i)) (\<lambda>(found, config).
        case found of
          None \<Rightarrow> Done unknown_device
        | Some it \<Rightarrow>
            and_then (submit_thread p (job_for ''sample:'' i) (refresh_timeout_ms config 1) (sample_job p (ad_spec it))) (\<lambda>r.
            and_then (atomic (system_now p)) (\<lambda>now.
            and_then (atomic (steady_now p)) (\<lambda>now_steady.
            and_then (atomic (sample_section p i config r now now_steady)) (\<lambda>stored.
            case stored of
              None \<Rightarrow> Done unknown_device
            | Some (warning, due) \<Rightarrow>
                and_then (log_if (warning \<noteq> None) (the warning)) (\<lambda>_.
                and_then (if due then compensation_thread p i else Done Status_ok) (\<lambda>check.
                and_then (log_if (\<not> is_ok check) (''compensation check failed for device '' @ quoted i @ '': '' @ message check))
                  (\<lambda>_. Done (fst r))))))))))"

definition record_thread ::
    "('b, 'h, 'r) platform \<Rightarrow> string \<Rightarrow> string \<Rightarrow> bool \<Rightarrow> string \<Rightarrow> ('b, 'r, unit) op" where
  "record_thread p i function_name ok msg =
     (if i = '''' then Done ()
      else and_then (atomic (system_now p)) (\<lambda>now. atomic (update_active i (note_call function_name ok msg now))))"

definition shutdown_section :: "('b, 'r, nat option) prog" where
  "shutdown_section =
     State (\<lambda>w. (fetch w, w\<lparr>g_executor := None, g_state := (g_state w)\<lparr>i2c_executor_running := False\<rparr>,
                  retired := (case g_executor w of None \<Rightarrow> [] | Some e \<Rightarrow> [e]) @ retired w\<rparr>))"

definition stop_section :: "('b, 'h, 'r) platform \<Rightarrow> nat \<Rightarrow> ('b, 'r, unit) prog" where
  "stop_section p k =
     modify (\<lambda>w. w\<lparr>retired := rev ((rev (retired w))[k := exec_stop (bops p) (exec_stop (bops p) (rev (retired w) ! k))])\<rparr>)"

definition shutdown_thread :: "('b, 'h, 'r) platform \<Rightarrow> ('b, 'r, unit) op" where
  "shutdown_thread p =
     and_then (atomic shutdown_section) (\<lambda>executor.
       case executor of None \<Rightarrow> Done () | Some k \<Rightarrow> atomic (stop_section p k))"

section \<open>Requests\<close>

definition read_thread ::
    "('b, 'h, 'r) platform \<Rightarrow> 'q provider_sdk \<Rightarrow> string \<Rightarrow> string list \<Rightarrow> ('b, 'r, 'q AdapterReadResult) op" where
  "read_thread p sdk i signal_ids =
     and_then (atomic (gets snapshot)) (\<lambda>st.
       case find_device st i of
         None \<Rightarrow> Done (read_failure CODE_NOT_FOUND ''unknown device_id'')
       | Some d \<Rightarrow>
           (case signal_indexes d (if signal_ids = [] then default_signal_ids d else signal_ids) of
              Inl sid \<Rightarrow> Done (read_failure CODE_NOT_FOUND (''unknown signal_id '' @ quoted sid))
            | Inr ks \<Rightarrow>
                and_then (atomic (needs_refresh p st d)) (\<lambda>refresh.
                if \<not> refresh then atomic (serve_sample p sdk st d ks)
                else
                  and_then (sample_thread p i) (\<lambda>refresh_status.
                  and_then (atomic (gets snapshot)) (\<lambda>st.
                  and_then (log_if (\<not> is_ok refresh_status)
                    (''read_signals refresh failed for '' @ quoted i @ '': '' @ message refresh_status)) (\<lambda>_.
                  let failure = read_failure (map_i2c_status_code (code refresh_status)) (message refresh_status) in
                  case find_device st i of
                    None \<Rightarrow> Done (if is_ok refresh_status then read_failure CODE_NOT_FOUND ''unknown device_id'' else failure)
                  | Some d \<Rightarrow>
                      if \<not> is_ok refresh_status \<and> \<not> has_sample (ad_sample d) then Done failure
                      else atomic (serve_sample p sdk st d ks)))))))"

definition execute_thread ::
    "('b, 'h, 'r) platform \<Rightarrow> ActiveDevice \<Rightarrow> u32 \<Rightarrow> ControlArgs \<Rightarrow> int \<Rightarrow> ('b, 'r, AdapterCallResult) op" where
  "execute_thread p d fid args timeout =
     (let type = ds_type (ad_spec d);
          product = expected_product (adapter_for (bops p) (drv p) type);
          kind = (if fid = kFunctionCalibrate then EZO_COMMAND_CALIBRATION else EZO_COMMAND_GENERIC)
      in if product = EZO_PRODUCT_UNKNOWN
         then Done \<lparr>acr_ok = False, acr_code = CODE_INTERNAL,
                acr_message = ''unsupported configured device type for control call''\<rparr>
         else case (ezo_product_resolve_timing_hint (drv p) product kind,
                    ezo_product_resolve_timing_hint (drv p) product EZO_COMMAND_GENERIC) of
           ((r1, command_wait), (r2, generic_wait)) \<Rightarrow>
             if r1 \<noteq> EZO_OK \<or> r2 \<noteq> EZO_OK
             then Done \<lparr>acr_ok = False, acr_code = CODE_INTERNAL,
                    acr_message = ''no command timing for the configured device type''\<rparr>
             else and_then (submit_thread p (''call:'' @ show_nat (unat fid) @ '':'' @ ds_id (ad_spec d))
                 (call_timeout_ms timeout fid type command_wait generic_wait) (call_job p (ad_spec d) fid args)) (\<lambda>(st, _).
               Done \<lparr>acr_ok = is_ok st, acr_code = map_i2c_status_code (code st), acr_message = message st\<rparr>))"

definition after_compensation_thread ::
    "('b, 'h, 'r) platform \<Rightarrow> string \<Rightarrow> u32 \<Rightarrow> EzoDeviceType \<Rightarrow> string \<Rightarrow> ControlArgs \<Rightarrow> bool \<Rightarrow> ('b, 'r, unit) op" where
  "after_compensation_thread p i fid type name args ok =
     (if fid = kFunctionSetCompensation \<or> is_do_calibration fid type then
        and_then (if ok \<and> fid = kFunctionSetCompensation then atomic (remember_compensation i (ca_compensation args)) else Done ()) (\<lambda>_.
        and_then (compensation_thread p i) (\<lambda>check.
        log_if (\<not> is_ok check)
          (''compensation read after '' @ quoted name @ '' failed for device '' @ quoted i @ '': '' @ message check)))
      else Done ())"

definition finish_thread ::
    "('b, 'h, 'r) platform \<Rightarrow> string \<Rightarrow> u32 \<Rightarrow> string \<Rightarrow> AdapterCallResult \<Rightarrow> ('b, 'r, AdapterCallResult) op" where
  "finish_thread p i fid name result =
     (if \<not> acr_ok result then
        and_then (record_thread p i name False (acr_message result)) (\<lambda>_.
        and_then (log_if True (''call failed for device '' @ quoted i @ '' function '' @ quoted name @ '': '' @ acr_message result)) (\<lambda>_.
        Done result))
      else
        and_then (record_thread p i name True '''') (\<lambda>_.
        and_then (if fid = kFunctionCalibrate \<or> fid = kFunctionClearCalibration then level_thread p i else Done Status_ok) (\<lambda>level_status.
        and_then (log_if (\<not> is_ok level_status) (''calibration-level read after '' @ quoted name @ '' failed for device '' @ quoted i @
          '': '' @ message level_status)) (\<lambda>_.
        Done result))))"

definition call_thread ::
    "('b, 'h, 'r) platform \<Rightarrow> 'q provider_sdk \<Rightarrow> string \<Rightarrow> u32 \<Rightarrow> ValueMap \<Rightarrow> ('b, 'r, AdapterCallResult) op" where
  "call_thread p sdk i fid args =
     and_then (atomic (gets snapshot)) (\<lambda>st.
       case find_device st i of
         None \<Rightarrow> Done (call_not_found sdk ''unknown device_id'')
       | Some d \<Rightarrow>
           (case find_function_by_id d fid of
              None \<Rightarrow> Done (call_not_found sdk ''unknown function_id'')
            | Some spec \<Rightarrow>
                (case validate_call_args sdk fid (ds_type (ad_spec d)) args of
                   Inl arg_error \<Rightarrow>
                     and_then (record_thread p i (fn_name spec) False (acr_message arg_error)) (\<lambda>_. Done arg_error)
                 | Inr checked \<Rightarrow>
                     (let control_args = (if is_do_calibration fid (ds_type (ad_spec d))
                                          then checked\<lparr>restore := restore_values d\<rparr> else checked) in
                      and_then (execute_thread p d fid control_args (timeout_ms (rs_config st))) (\<lambda>result.
                      and_then (after_compensation_thread p i fid (ds_type (ad_spec d)) (fn_name spec) control_args (acr_ok result)) (\<lambda>_.
                      finish_thread p i fid (fn_name spec) result))))))"

definition readiness_thread :: "('b, 'h, 'r) platform \<Rightarrow> ('b, 'r, ReadinessReport) op" where
  "readiness_thread p =
     and_then (atomic (gets snapshot)) (\<lambda>st.
     and_then (if ready st then Done (ready_at st) else atomic (system_now p)) (\<lambda>ready_point.
     and_then (if started_at st > 0 then atomic (system_now p) else Done (started_at st)) (\<lambda>now.
     Done (readiness_report p st (duration_ms (ready_point - started_at st))
       (if started_at st > 0 then duration_ms (now - started_at st) else 0)))))"

definition health_thread :: "('b, 'h, 'r) platform \<Rightarrow> string \<Rightarrow> ('b, 'r, DeviceHealthExtra) op" where
  "health_thread p i =
     and_then (atomic (gets snapshot)) (\<lambda>st.
       case find_device st i of
         Some d \<Rightarrow>
           and_then (atomic (gets (io_stats_for p (word_of_int (ds_address (ad_spec d)))))) (\<lambda>io.
           and_then (atomic (system_now p)) (\<lambda>now. Done (active_health p st d io now)))
       | None \<Rightarrow>
           (case find (\<lambda>x. ds_id (ed_spec x) = i) (excluded_devices st) of
              None \<Rightarrow> Done empty_DeviceHealthExtra
            | Some x \<Rightarrow>
                and_then (atomic (gets (io_stats_for p (word_of_int (ds_address (ed_spec x)))))) (\<lambda>io.
                Done (empty_DeviceHealthExtra\<lparr>dh_metrics :=
                  [''excluded'' \<mapsto> ''true'', ''type'' \<mapsto> to_string (ds_type (ed_spec x)),
                   ''address'' \<mapsto> format_i2c_address (ds_address (ed_spec x))] ++ io_metrics io\<rparr>))))"

text \<open>What may run at the same time: requests, the refreshes other threads may ask for, and the shutdown.\<close>

datatype activity = A_request request | A_refresh string | A_level string | A_check string | A_shutdown

text \<open>Of the answers only those to calls are kept.\<close>

definition only :: "('b, 'r, 'a) op \<Rightarrow> ('b, 'r, AdapterCallResult option) op" where
  "only t = and_then t (\<lambda>_. Done None)"

fun request_thread :: "('b, 'h, 'r) platform \<Rightarrow> 'q provider_sdk \<Rightarrow> request \<Rightarrow> ('b, 'r, AdapterCallResult option) op" where
  "request_thread p sdk (Do_read i sids) = only (read_thread p sdk i sids)"
| "request_thread p sdk (Do_call i fid args) = and_then (call_thread p sdk i fid args) (\<lambda>r. Done (Some r))"
| "request_thread p sdk Do_readiness = only (readiness_thread p)"
| "request_thread p sdk (Do_device_health i) = only (health_thread p i)"

fun activity_thread :: "('b, 'h, 'r) platform \<Rightarrow> 'q provider_sdk \<Rightarrow> activity \<Rightarrow> ('b, 'r, AdapterCallResult option) op" where
  "activity_thread p sdk (A_request rq) = request_thread p sdk rq"
| "activity_thread p sdk (A_refresh i) = only (sample_thread p i)"
| "activity_thread p sdk (A_level i) = only (level_thread p i)"
| "activity_thread p sdk (A_check i) = only (compensation_thread p i)"
| "activity_thread p sdk A_shutdown = only (shutdown_thread p)"

text \<open>The same activity in the sequential model, and several of them one after the other.\<close>

fun in_turn :: "('b, 'h, 'r) platform \<Rightarrow> 'q provider_sdk \<Rightarrow> activity \<Rightarrow> ('b, 'r) world \<Rightarrow> AdapterCallResult option \<times> ('b, 'r) world" where
  "in_turn p sdk (A_request (Do_call i fid args)) w = map_prod Some id (run_state (call p sdk i fid args) w)"
| "in_turn p sdk (A_request rq) w = (None, serve p sdk rq w)"
| "in_turn p sdk (A_refresh i) w = (None, perform p (Op_refresh i) w)"
| "in_turn p sdk (A_level i) w = (None, perform p (Op_level i) w)"
| "in_turn p sdk (A_check i) w = (None, perform p (Op_check i) w)"
| "in_turn p sdk A_shutdown w = (None, perform p Op_shutdown w)"

fun all_in_turn ::
    "('b, 'h, 'r) platform \<Rightarrow> 'q provider_sdk \<Rightarrow> activity list \<Rightarrow> ('b, 'r) world
      \<Rightarrow> AdapterCallResult option list \<times> ('b, 'r) world" where
  "all_in_turn p sdk [] w = ([], w)"
| "all_in_turn p sdk (a # acts) w =
     (case in_turn p sdk a w of (r, w1) \<Rightarrow> map_prod (Cons r) id (all_in_turn p sdk acts w1))"

section \<open>A thread that runs alone\<close>

text \<open>Run without interruption, every thread is the operation of the sequential model.\<close>

named_theorems alone_thread

lemma fetch_None: "fetch w = None \<longleftrightarrow> g_executor w = None"
  by (simp add: fetch_def split: option.split)

lemma alone_submit [alone_thread]: "alone (submit_thread p n t job) w = run_state (submit_i2c_job p n t job) w"
  by (simp add: submit_thread_def submit_i2c_job_def fetch_def run_job_def executor_at_def put_executor_def
      split: option.split prod.split)

lemma run_look_up [simp]: "run_state (look_up i) w = ((active_device i w, rs_config (g_state w)), w)"
  by (simp add: look_up_def)

lemma alone_log_if [simp]:
  "alone (log_if b msg) w = ((), if b then w\<lparr>logged := logged w @ [log_line ''WARN'' msg]\<rparr> else w)"
  by (simp add: log_if_def)

lemma alone_level [alone_thread]: "alone (level_thread p i) w = run_state (refresh_calibration_level p i) w"
  by (simp add: level_thread_def refresh_calibration_level_def alone_submit split: option.split prod.split)

lemma compensation_split:
  "run_state (compensation_finished p i r) w =
    (case run_state (compensation_section p i r) w of
       (None, w1) \<Rightarrow> (unknown_device, w1)
     | (Some reapplied, w1) \<Rightarrow> (fst r, if reapplied then w1\<lparr>logged := logged w1 @ [log_line ''WARN'' (''device '' @ quoted i @
          '' had lost its compensation, as after a power cut; sent the set values again'')]\<rparr> else w1))"
  by (cases "case snd r of None \<Rightarrow> no_outcome | Some seen \<Rightarrow> seen"; cases "active_device i w")
    (simp_all add: compensation_finished_def compensation_section_def)

lemma alone_compensation [alone_thread]: "alone (compensation_thread p i) w = run_state (check_compensation p i) w"
  by (simp add: compensation_thread_def check_compensation_def alone_submit compensation_split Let_def
      split: option.split prod.split)

lemma alone_sample [alone_thread]: "alone (sample_thread p i) w = run_state (refresh_device_sample p i) w"
  by (simp add: sample_thread_def refresh_device_sample_def alone_submit alone_compensation sample_finished_def sample_section_def
      sample_taken_def Let_def split: option.split prod.split)

lemma alone_record [alone_thread]: "alone (record_thread p i fn ok msg) w = run_state (record_call_result p i fn ok msg) w"
  by (simp add: record_thread_def record_call_result_def)

lemma alone_shutdown [alone_thread]: "alone (shutdown_thread p) w = run_state (shutdown p) w"
  by (simp add: shutdown_thread_def shutdown_section_def stop_section_def shutdown_def fetch_def nth_append list_update_append
      split: option.split)

lemma alone_execute [alone_thread]: "alone (execute_thread p d fid args t) w = run_state (execute_safe_call p d fid args t) w"
  by (simp add: execute_thread_def execute_safe_call_def alone_submit Let_def split: prod.split)

lemma alone_after_compensation [alone_thread]:
  "alone (after_compensation_thread p i fid type name args ok) w = run_state (after_compensation p i fid type name args ok) w"
  by (simp add: after_compensation_thread_def after_compensation_def alone_compensation split: prod.split)

lemma alone_finish [alone_thread]: "alone (finish_thread p i fid name result) w = run_state (finish_call p i fid name result) w"
  by (simp add: finish_thread_def finish_call_def after_calibration_def alone_record alone_level split: prod.split)

lemma alone_call [alone_thread]: "alone (call_thread p sdk i fid args) w = run_state (call p sdk i fid args) w"
  by (simp add: call_thread_def call_def alone_execute alone_after_compensation alone_finish alone_record Let_def
      split: option.split sum.split prod.split)

lemma alone_read [alone_thread]: "alone (read_thread p sdk i sids) w = run_state (read_signals p sdk i sids) w"
  by (simp add: read_thread_def read_signals_def refresh_then_serve_def alone_sample Let_def
      split: option.split sum.split prod.split)

lemma alone_readiness [alone_thread]: "alone (readiness_thread p) w = run_state (readiness p) w"
  by (simp add: readiness_thread_def readiness_def Let_def)

lemma alone_health [alone_thread]: "alone (health_thread p i) w = run_state (device_health p i) w"
  by (simp add: health_thread_def device_health_def split: option.split)

lemma alone_only: "alone (only t) w = (None, snd (alone t w))"
  by (simp add: only_def split: prod.split)

lemma alone_request: "alone (request_thread p sdk rq) w = in_turn p sdk (A_request rq) w"
  by (cases rq) (simp_all add: alone_only alone_thread split: prod.split)

lemma alone_activity: "alone (activity_thread p sdk a) w = in_turn p sdk a w"
  by (cases a) (simp_all add: alone_only alone_request alone_thread)

lemma in_turn_interleaved:
  "interleave\<^sup>*\<^sup>* (map Done us @ map (activity_thread p sdk) acts, w)
     (map Done (us @ fst (all_in_turn p sdk acts w)), snd (all_in_turn p sdk acts w))"
proof (induction acts arbitrary: us w)
  case (Cons a acts)
  let ?ts = "map Done us @ map (activity_thread p sdk) (a # acts)"
  obtain r w1 where run: "in_turn p sdk a w = (r, w1)" by fastforce
  have "interleave\<^sup>*\<^sup>* (?ts, w) (?ts[length us := Done r], w1)"
    using alone_activity [of p sdk a w] by (intro interleave_alone) (simp_all add: nth_append run)
  moreover have "?ts[length us := Done r] = map Done (us @ [r]) @ map (activity_thread p sdk) acts"
    by (simp add: list_update_append)
  ultimately show ?case using Cons.IH [of "us @ [r]" w1] by (simp add: run)
qed simp

section \<open>Properties\<close>


end
