(* ===== verification/Ezo_Parallel.thy ===== *)
theory Ezo_Parallel
  imports Ezo_Threads Ezo_Wire
begin

text \<open>
  Any number of requests, refreshes and shutdowns at the same time: the threads of \<open>Ezo_Threads\<close> interleaved as in \<open>Ezo_Sections\<close>.
  What every section keeps, the locale \<open>shared_account\<close> for what operations owe and earn, three of its readings (recorded
  calls, executors to be stopped, shutdowns to come; \<open>Ezo_Isolation\<close> has a fourth), and the properties of every interleaving.
\<close>

section \<open>What every section keeps\<close>

type_synonym fixed_part = "DeviceSpec \<times> Device \<times> CapabilitySet \<times> string list \<times> string \<times> string"

definition inventory :: "('b, 'r) world \<Rightarrow> fixed_part list" where
  "inventory w = map static_part (active_devices (g_state w))"

definition known :: "fixed_part list \<Rightarrow> string \<Rightarrow> fixed_part option" where
  "known S i = find (\<lambda>s. ds_id (fst s) = i) S"

lemma known_inventory: "known (inventory w) i = map_option static_part (active_device i w)"
proof -
  have "find (\<lambda>s. ds_id (fst s) = i) (map static_part ds) = map_option static_part (find (has_id i) ds)" for ds
    by (induction ds) (simp_all add: has_id_def static_part_def)
  then show ?thesis by (simp add: known_def inventory_def active_device_def find_active_device_unlocked_def)
qed

text \<open>The invariant: the inventory is \<open>S\<close>, every device is consistent, and the current executor is idle between its jobs.\<close>

definition shared_ok :: "('b, 'h, 'r) platform \<Rightarrow> fixed_part list \<Rightarrow> ('b, 'r) world \<Rightarrow> bool" where
  "shared_ok p S w \<longleftrightarrow> inventory w = S \<and> world_ok p w"

lemma shared_ok_quiet:
  "g_state w' = g_state w \<Longrightarrow> g_executor w' = g_executor w \<Longrightarrow> shared_ok p S w \<Longrightarrow> shared_ok p S w'"
  by (simp add: shared_ok_def world_ok_def inventory_def devices_ok_def)

lemma shared_ok_update:
  assumes "shared_ok p S w" and "\<And>d. static_part (f d) = static_part d"
    and "\<And>d. active_device i w = Some d \<Longrightarrow> device_ok (bops p) (drv p) d \<Longrightarrow> device_ok (bops p) (drv p) (f d)"
  shows "shared_ok p S (upd_world i f w)"
proof -
  have all: "list_all (device_ok (bops p) (drv p)) (active_devices (g_state w))"
    using assms(1) by (simp add: shared_ok_def world_ok_def devices_ok_def)
  have "list_all (device_ok (bops p) (drv p)) (update_device i f (active_devices (g_state w)))"
  proof (cases "find (has_id i) (active_devices (g_state w))")
    case None
    then show ?thesis using all by (simp add: update_device_def update_first_none)
  next
    case (Some d)
    then have "device_ok (bops p) (drv p) (f d)"
      using assms(3) all find_SomeD [OF Some] by (simp add: active_device_def find_active_device_unlocked_def list_all_iff)
    then show ?thesis using list_all_update_found [OF all Some] by (simp add: update_device_def)
  qed
  moreover have "inventory (upd_world i f w) = S"
    using assms(1,2) by (simp add: shared_ok_def inventory_def upd_world_def update_device_def map_update_first)
  ultimately show ?thesis using assms(1) by (simp add: shared_ok_def world_ok_def devices_ok_def upd_world_def)
qed

text \<open>
  What a job does to an executor: an idle one stays idle, a stopped one refuses it, and the bus is only talked to at
  addresses of the inventory (the driver behaving as documented).
\<close>

definition addresses_of :: "fixed_part list \<Rightarrow> u8 set" where
  "addresses_of S = device_address ` fst ` set S"

lemma known_address: "known S i = Some (static_part d) \<Longrightarrow> device_address (ad_spec d) \<in> addresses_of S"
  by (force simp: known_def addresses_of_def static_part_def dest!: find_SomeD)

definition job_step :: "('b, 'h, 'r) platform \<Rightarrow> fixed_part list \<Rightarrow> 'b BusExecutor \<Rightarrow> 'b BusExecutor \<Rightarrow> bool" where
  "job_step p S e e' \<longleftrightarrow> (idle e \<longrightarrow> idle e') \<and> (\<not> ex_running e \<longrightarrow> e' = e) \<and>
     (driver_addressed (bops p) (drv p) \<longrightarrow> talk (bops p) (addresses_of S) (the (ex_bus e)) (the (ex_bus e')))"

lemma job_step_submit:
  assumes "a \<in> addresses_of S" and "keeps_frame (reaches p a) job"
  shows "job_step p S e (snd (submit n t job sched e))"
proof -
  have "driver_addressed (bops p) (drv p) \<Longrightarrow> talk (bops p) (addresses_of S) b (snd (run_state job b))" for b
    using assms by (auto simp: keeps_frame_def reaches_def intro: talk_mono)
  from submit_bus [of "talk (bops p) (addresses_of S)", OF talk.silent this]
  show ?thesis by (simp add: job_step_def submit_keeps_idle) (simp add: submit_def submit_refused_def)
qed

lemma shared_ok_job:
  "shared_ok p S w \<Longrightarrow> executor_at k w = Some e \<Longrightarrow> job_step p S e e' \<Longrightarrow> shared_ok p S (put_executor k e' w)"
  by (auto simp: shared_ok_def world_ok_def put_executor_def executor_at_def job_step_def inventory_def devices_ok_def split: if_splits)

section \<open>A contract for what the operations owe and earn\<close>

text \<open>
  A call earns \<open>credit i ok\<close> when it is recorded on device \<open>i\<close>. A shutdown owes \<open>fin\<close> until its first section, and
  \<open>owe k\<close> from there until it has stopped the executor with handle \<open>k\<close>, if there was one. Nothing else an operation
  does changes a balance.
\<close>

definition keeps_calls :: "(ActiveDevice \<Rightarrow> ActiveDevice) \<Rightarrow> bool" where
  "keeps_calls f \<longleftrightarrow> (\<forall>d. static_part (f d) = static_part d \<and> call_success_count (f d) = call_success_count d \<and>
     call_failure_count (f d) = call_failure_count d)"

text \<open>A submission that reports success hands on what its job returned on some bus.\<close>

definition ran_job :: "('b, Status \<times> 'o) state \<Rightarrow> Status \<times> 'o option \<Rightarrow> bool" where
  "ran_job j r \<longleftrightarrow> (is_ok (fst r) \<longrightarrow> (\<exists>b b' out. snd r = Some out \<and> run_state j b = ((fst r, out), b')))"

lemma keeps_calls_store:
  "keeps_calls (take_sample ops dv config i now t sigs)"
  "keeps_calls (fail_sample st)"
  "keeps_calls (store_calibration_level ops dv st level)"
  "keeps_calls (store_compensation ops dv st reading re)"
  "keeps_calls (\<lambda>d. d\<lparr>compensation_set := c d\<rparr>)"
proof -
  have "keeps_calls f" if "\<And>d. static_part (f d) = static_part d" "\<And>d. call_part (f d) = call_part d" for f
    using that(1) that(2) [unfolded call_part_def] by (simp add: keeps_calls_def)
  note this [intro]
  show "keeps_calls (take_sample ops dv config i now t sigs)" "keeps_calls (fail_sample st)"
    by (auto simp: take_sample_def fail_sample_def Let_def call_part_def apply_calibration_level_def apply_compensation_def
        split: option.split)
  show "keeps_calls (store_calibration_level ops dv st level)" "keeps_calls (store_compensation ops dv st reading re)"
    "keeps_calls (\<lambda>d. d\<lparr>compensation_set := c d\<rparr>)"
    by auto
qed

text \<open>The device an operation looks up is one of the inventory, and it is the same one when it is looked up again.\<close>

definition is_known :: "fixed_part list \<Rightarrow> string \<Rightarrow> ActiveDevice option \<times> ProviderConfig \<Rightarrow> bool" where
  "is_known S i r \<longleftrightarrow> known S i = map_option static_part (fst r)"

text \<open>Which calls are recorded: those whose device is in the inventory and advertises the function.\<close>

definition recorded :: "fixed_part list \<Rightarrow> string \<Rightarrow> u32 \<Rightarrow> bool" where
  "recorded S i fid \<longleftrightarrow> i \<noteq> '''' \<and>
     (case known S i of None \<Rightarrow> False | Some (_, _, caps, _) \<Rightarrow> fid \<in> fn_function_id ` set (cap_functions caps))"

locale shared_account =
  fixes p :: "('b, 'h, 'r) platform" and S :: "fixed_part list" and G :: "'m :: comm_monoid_add \<Rightarrow> ('b, 'r) world \<Rightarrow> bool"
    and credit :: "string \<Rightarrow> bool \<Rightarrow> 'm" and fin :: 'm and owe :: "nat \<Rightarrow> 'm"
  assumes quiet: "g_state w' = g_state w \<Longrightarrow> g_executor w' = g_executor w \<Longrightarrow> retired w' = retired w \<Longrightarrow> G m w \<Longrightarrow> G m w'"
    and job: "executor_at k w = Some e \<Longrightarrow> job_step p S e e' \<Longrightarrow> G m w \<Longrightarrow> G m (put_executor k e' w)"
    and updated: "keeps_calls f \<Longrightarrow> G m w \<Longrightarrow> G m (upd_world i f w)"
    and noted: "shared_ok p S w \<Longrightarrow> known S i \<noteq> None \<Longrightarrow> G m w \<Longrightarrow>
      G (credit i ok + m) (upd_world i (note_call fn ok msg now) w)"
    and moved: "g_executor w = Some e \<Longrightarrow> G (fin + m) w \<Longrightarrow> G (owe (length (retired w)) + m) (snd (run_state shutdown_section w))"
    and not_moved: "g_executor w = None \<Longrightarrow> G (fin + m) w \<Longrightarrow> G m (snd (run_state shutdown_section w))"
    and stopped: "G (owe k + m) w \<Longrightarrow> G m (snd (run_state (stop_section p k) w))"
begin

abbreviation acc :: "'m \<Rightarrow> ('a \<Rightarrow> bool) \<Rightarrow> ('b, 'r, 'a) op \<Rightarrow> bool" where
  "acc m Q \<equiv> accounts (shared_ok p S) G m (balanced 0 Q)"

text \<open>A thread that earns: it starts with nothing and ends with a balance.\<close>

abbreviation earns :: "('m \<Rightarrow> 'a \<Rightarrow> bool) \<Rightarrow> ('b, 'r, 'a) op \<Rightarrow> bool" where
  "earns \<equiv> accounts (shared_ok p S) G 0"

lemma acc_quiet:
  assumes same: "\<And>w. g_state (snd (run_state s w)) = g_state w" "\<And>w. g_executor (snd (run_state s w)) = g_executor w"
      "\<And>w. retired (snd (run_state s w)) = retired w"
    and Q: "\<And>w. shared_ok p S w \<Longrightarrow> Q (fst (run_state s w))"
  shows "acc 0 Q (atomic s)"
proof (rule accounts_atomic)
  fix w a w'
  assume ok: "shared_ok p S w" and run: "run_state s w = (a, w')"
  then have eqs: "g_state w' = g_state w" "g_executor w' = g_executor w" "retired w' = retired w"
    using same [of w] by simp_all
  have "shared_ok p S w'" using eqs(1,2) ok by (rule shared_ok_quiet)
  moreover have "Q a" using Q [OF ok] run by simp
  moreover have "G rest w \<Longrightarrow> G rest w'" for rest using eqs by (rule quiet)
  ultimately show "shared_ok p S w' \<and> (\<exists>m'. balanced 0 Q m' a \<and> (\<forall>rest. G (0 + rest) w \<longrightarrow> G (m' + rest) w'))" by simp
qed

lemma acc_Done: "Q a \<Longrightarrow> acc 0 Q (Done a)"
  by (rule done_accounts) (simp add: balanced_def)

lemma acc_log_if: "acc 0 (\<lambda>_. True) (log_if b msg)"
  by (auto simp: log_if_def intro: acc_quiet acc_Done)

lemma acc_clocks: "acc 0 (\<lambda>_. True) (atomic (system_now p'))" "acc 0 (\<lambda>_. True) (atomic (steady_now p'))"
  by (auto intro: acc_quiet)

lemma acc_gets: "(\<And>w. shared_ok p S w \<Longrightarrow> Q (g w)) \<Longrightarrow> acc 0 Q (atomic (gets g))"
  by (rule acc_quiet) simp_all

text \<open>A section that does at most one update of one device.\<close>

lemma acc_section:
  assumes "\<And>w. shared_ok p S w \<Longrightarrow> snd (run_state s w) = w \<or>
      (\<exists>f. snd (run_state s w) = upd_world i f w \<and> keeps_calls f \<and>
        (\<forall>d. active_device i w = Some d \<longrightarrow> device_ok (bops p) (drv p) d \<longrightarrow> device_ok (bops p) (drv p) (f d)))"
  shows "acc 0 (\<lambda>_. True) (atomic s)"
proof (rule accounts_atomic)
  fix w a w'
  assume ok: "shared_ok p S w" and run: "run_state s w = (a, w')"
  then consider "w' = w" | f where "w' = upd_world i f w" "keeps_calls f"
      "\<And>d. active_device i w = Some d \<Longrightarrow> device_ok (bops p) (drv p) d \<Longrightarrow> device_ok (bops p) (drv p) (f d)"
    using assms [OF ok] by auto
  then show "shared_ok p S w' \<and> (\<exists>m'. balanced 0 (\<lambda>_. True) m' a \<and> (\<forall>rest. G (0 + rest) w \<longrightarrow> G (m' + rest) w'))"
  proof cases
    case 2
    have "shared_ok p S (upd_world i f w)"
      using 2(2) by (intro shared_ok_update [OF ok] 2(3)) (simp_all add: keeps_calls_def)
    moreover have "G rest w \<Longrightarrow> G rest (upd_world i f w)" for rest by (rule updated [OF 2(2)])
    ultimately show ?thesis by (simp add: 2(1))
  qed (simp add: ok)
qed

lemma acc_run_job:
  assumes "a \<in> addresses_of S" and "keeps_frame (reaches p a) j"
  shows "acc 0 (ran_job j) (atomic (run_job p n t j k))"
proof (rule accounts_atomic)
  fix w a w'
  assume ok: "shared_ok p S w" and run: "run_state (run_job p n t j k) w = (a, w')"
  show "shared_ok p S w' \<and> (\<exists>m'. balanced 0 (ran_job j) m' a \<and> (\<forall>rest. G (0 + rest) w \<longrightarrow> G (m' + rest) w'))"
  proof (cases "executor_at k w")
    case None
    then show ?thesis using run ok by (auto simp: run_job_def ran_job_def is_ok_def make_status_def)
  next
    case (Some e)
    obtain r e' where sub: "submit n t j (schedule_of p (job_count w)) e = (r, e')" by fastforce
    then have w': "a = r" "w' = (put_executor k e' w)\<lparr>job_count := job_count w + 1\<rparr>"
      using run Some by (simp_all add: run_job_def)
    have step: "job_step p S e e'" using job_step_submit [OF assms, of e n t "schedule_of p (job_count w)"] sub by simp
    have "shared_ok p S w'" using shared_ok_job [OF ok Some step] by (rule shared_ok_quiet [rotated 2]) (simp_all add: w'(2))
    moreover have "ran_job j a" using submit_ok [of n t j _ e "fst r" "snd r" e'] sub w'(1) by (fastforce simp: ran_job_def)
    moreover have "G rest w \<Longrightarrow> G rest w'" for rest
      using job [OF Some step] by (intro quiet [of w' "put_executor k e' w"]) (simp_all add: w'(2))
    ultimately show ?thesis by simp
  qed
qed

lemma acc_submit:
  assumes "known S i = Some (static_part d)" and "keeps_frame (reaches p (device_address (ad_spec d))) j"
  shows "acc 0 (ran_job j) (submit_thread p n t j)"
  unfolding submit_thread_def
  by (rule accounts_then_0 [OF acc_gets [where Q = "\<lambda>_. True"]])
    (auto split: option.split intro!: acc_run_job [OF known_address [OF assms(1)] assms(2)] acc_Done,
      simp add: ran_job_def is_ok_def make_status_def)

lemma known_again: "shared_ok p S w \<Longrightarrow> known S i = map_option static_part (active_device i w)"
  by (auto simp: shared_ok_def known_inventory)

lemma acc_look_up: "acc 0 (is_known S i) (atomic (look_up i))"
  unfolding look_up_def by (rule acc_gets) (simp add: is_known_def known_again)

lemma acc_level_finished: "acc 0 (\<lambda>_. True) (atomic (level_finished p i r))"
  by (rule acc_section [where i = i]) (auto simp: level_finished_def device_ok_updates keeps_calls_store split: option.split)

lemma acc_compensation_section: "acc 0 (\<lambda>_. True) (atomic (compensation_section p i r))"
  by (rule acc_section [where i = i])
    (auto simp: compensation_section_def device_ok_updates keeps_calls_store split: option.split prod.split)

lemma acc_sample_section:
  assumes "known S i = Some (static_part it)" and "ran_job (sample_job p (ad_spec it)) r"
  shows "acc 0 (\<lambda>_. True) (atomic (sample_section p i config r now t))"
proof (rule acc_section [where i = i])
  fix w :: "('b, 'r) world"
  assume "shared_ok p S w"
  note found = known_again [OF this, of i]
  show "snd (run_state (sample_section p i config r now t) w) = w \<or>
      (\<exists>f. snd (run_state (sample_section p i config r now t) w) = upd_world i f w \<and> keeps_calls f \<and>
        (\<forall>d. active_device i w = Some d \<longrightarrow> device_ok (bops p) (drv p) d \<longrightarrow> device_ok (bops p) (drv p) (f d)))"
  proof (cases "is_ok (fst r)")
    case True
    obtain d where d: "active_device i w = Some d" "static_part d = static_part it" using assms(1) found by auto
    obtain b b' out where out: "snd r = Some out" "run_state (sample_job p (ad_spec it)) b = ((fst r, out), b')"
      using assms(2) True by (auto simp: ran_job_def)
    have "length out = signal_count (bops p) (drv p) d"
      using sample_job_length [OF out(2) True] ad_spec_static [OF d(2)] by (simp add: signal_count_def)
    then show ?thesis using True d(1) out(1)
      by (auto simp: sample_section_def Let_def device_ok_updates keeps_calls_store)
  next
    case False
    then show ?thesis by (auto simp: sample_section_def device_ok_updates keeps_calls_store split: option.split)
  qed
qed

end

text \<open>Serving values from a snapshot changes nothing but the number of clock readings.\<close>

definition same_world :: "('b, 'r) world \<Rightarrow> ('b, 'r) world \<Rightarrow> bool" where
  "same_world w w' \<longleftrightarrow> g_state w' = g_state w \<and> g_executor w' = g_executor w \<and> retired w' = retired w"

interpretation same: world_frame same_world
  by unfold_locales (simp_all add: same_world_def)

context shared_account
begin

lemma acc_level: "acc 0 (\<lambda>_. True) (level_thread p i)"
  unfolding level_thread_def
  by (rule accounts_then_0 [OF acc_look_up])
    (auto simp: is_known_def split: option.split
      intro!: acc_Done accounts_then_0 [OF acc_submit [OF _ jobs_reach(3)]] acc_level_finished)

lemma acc_compensation: "acc 0 (\<lambda>_. True) (compensation_thread p i)"
  unfolding compensation_thread_def
  by (rule accounts_then_0 [OF acc_look_up])
    (auto simp: Let_def is_known_def split: option.split intro!: acc_Done accounts_then_0 [OF acc_submit [OF _ jobs_reach(4)]]
      accounts_then_0 [OF acc_compensation_section] accounts_then_0 [OF acc_log_if])

lemma acc_if: "(b \<Longrightarrow> acc m Q t) \<Longrightarrow> (\<not> b \<Longrightarrow> acc m Q t') \<Longrightarrow> acc m Q (if b then t else t')"
  by simp

lemmas acc_steps = acc_Done acc_if acc_compensation acc_level accounts_then_0 [OF acc_compensation] accounts_then_0 [OF acc_level]
  accounts_then_0 [OF acc_submit [OF _ jobs_reach(2)]] accounts_then_0 [OF acc_submit [OF _ jobs_reach(5)]]
  accounts_then_0 [OF acc_clocks(1)] accounts_then_0 [OF acc_clocks(2)]
  accounts_then_0 [OF acc_log_if]

lemma acc_sample: "acc 0 (\<lambda>_. True) (sample_thread p i)"
proof (cases "i = ''''")
  case False
  then show ?thesis
    unfolding sample_thread_def if_not_P [OF False]
    by (intro accounts_then_0 [OF acc_look_up])
      (auto simp: is_known_def split: option.split
        intro!: acc_steps accounts_then_0 [OF acc_sample_section])
qed (simp add: sample_thread_def acc_Done)

lemma acc_same: "keeps_frame same_world m \<Longrightarrow> acc 0 (\<lambda>_. True) (atomic m)"
  by (rule acc_quiet) (simp_all add: keeps_frame_def same_world_def)

lemma acc_option: "acc m Q t \<Longrightarrow> (\<And>x. acc m Q (f x)) \<Longrightarrow> acc m Q (case v of None \<Rightarrow> t | Some x \<Rightarrow> f x)"
  by (cases v) simp_all

lemmas acc_serve = acc_same [OF same.keeps_serve(1)] acc_same [OF same.keeps_serve(2)]

lemma acc_read: "acc 0 (\<lambda>_. True) (read_thread p sdk i sids)"
  unfolding read_thread_def
  by (rule accounts_then_0 [OF acc_same [OF same.keeps_quiet(1)]])
    (auto simp: Let_def split: option.split sum.split
      intro!: acc_option acc_steps acc_serve accounts_then_0 [OF acc_serve(2)] accounts_then_0 [OF acc_sample]
        accounts_then_0 [OF acc_same [OF same.keeps_quiet(1)]])

lemma earns_record:
  assumes "known S i \<noteq> None" and "i \<noteq> ''''"
  shows "earns (balanced (credit i ok) (\<lambda>_. True)) (record_thread p i fn ok msg)"
proof -
  have "earns (balanced (credit i ok) (\<lambda>_. True)) (atomic (update_active i (note_call fn ok msg now)))" for now
  proof (rule accounts_atomic)
    fix w a w'
    assume ok: "shared_ok p S w" and run: "run_state (update_active i (note_call fn ok msg now)) w = (a, w')"
    have "shared_ok p S (upd_world i (note_call fn ok msg now) w)"
      using ok by (rule shared_ok_update) (simp_all add: device_ok_updates)
    moreover have "G rest w \<Longrightarrow> G (credit i ok + rest) (upd_world i (note_call fn ok msg now) w)" for rest
      by (rule noted [OF ok assms(1)])
    ultimately show "shared_ok p S w' \<and> (\<exists>m'. balanced (credit i ok) (\<lambda>_. True) m' a \<and>
        (\<forall>rest. G (0 + rest) w \<longrightarrow> G (m' + rest) w'))"
      using run by (simp add: balanced_def)
  qed
  then show ?thesis using assms(2) by (simp add: record_thread_def accounts_then_0 [OF acc_clocks(1)])
qed

lemma acc_execute: "known S i = Some (static_part d) \<Longrightarrow> acc 0 (\<lambda>_. True) (execute_thread p d fid args t)"
  unfolding execute_thread_def by (auto simp: Let_def split: prod.split intro!: acc_steps)

lemma acc_after: "acc 0 (\<lambda>_. True) (after_compensation_thread p i fid type name args ok)"
proof -
  have "acc 0 (\<lambda>_. True) (atomic (remember_compensation i c))" for c
    unfolding remember_compensation_def
    by (rule acc_section [where i = i]) (auto simp: keeps_calls_store device_ok_updates)
  then show ?thesis
    unfolding after_compensation_thread_def by (auto intro!: acc_steps acc_log_if accounts_then_0 [where P = "\<lambda>_. True"])
qed

lemma earns_finish:
  assumes "known S i \<noteq> None" and "i \<noteq> ''''"
  shows "earns (\<lambda>n r. n = credit i (acr_ok r)) (finish_thread p i fid name result)"
proof -
  have "earns (balanced (credit i (acr_ok result)) (\<lambda>r. r = result)) (finish_thread p i fid name result)"
    unfolding finish_thread_def
    by (cases "acr_ok result")
      (auto intro!: accounts_then_rest [OF earns_record [OF assms]] acc_steps accounts_then_0 [where P = "\<lambda>_. True"])
  then show ?thesis by (rule accounts_mono) (simp add: balanced_def)
qed

end

section \<open>Requests in parallel\<close>

fun call_of :: "activity \<Rightarrow> (string \<times> u32) option" where
  "call_of (A_request (Do_call i fid _)) = Some (i, fid)"
| "call_of _ = None"

text \<open>What an activity owes before it starts, and its balance when it has answered \<open>r\<close>.\<close>

definition owed :: "'m :: zero \<Rightarrow> activity \<Rightarrow> 'm" where
  "owed fin a = (if a = A_shutdown then fin else 0)"

definition balance :: "fixed_part list \<Rightarrow> (string \<Rightarrow> bool \<Rightarrow> 'm :: zero) \<Rightarrow> activity \<Rightarrow> AdapterCallResult option \<Rightarrow> 'm" where
  "balance S credit a r =
     (case (call_of a, r) of
        (Some (i, fid), Some result) \<Rightarrow> if recorded S i fid then credit i (acr_ok result) else 0
      | _ \<Rightarrow> 0)"

text \<open>What is relied on: the SDK's error results say that they are errors.\<close>

definition sdk_refuses :: "'q provider_sdk \<Rightarrow> bool" where
  "sdk_refuses sdk \<longleftrightarrow> (\<forall>msg. \<not> acr_ok (call_invalid_argument sdk msg) \<and> \<not> acr_ok (call_out_of_range sdk msg))"

lemma refused_fields: "sdk_refuses sdk \<Longrightarrow> validate_fields sdk table args c = Inl e \<Longrightarrow> \<not> acr_ok e"
  by (induction sdk table args c rule: validate_fields.induct) (auto simp: sdk_refuses_def split: option.splits if_splits)

lemma refused_args:
  assumes "sdk_refuses sdk" and "validate_call_args sdk fid type args = Inl e"
  shows "\<not> acr_ok e"
proof -
  have "\<not> acr_ok e" if "validate_calibrate_args sdk type args = Inl e"
    using assms(1) that
    by (auto simp: validate_calibrate_args_def sdk_refuses_def Let_def split: option.splits if_splits)
  moreover have "\<not> acr_ok e" if "validate_compensation_args sdk type args = Inl e"
    using assms(1) that refused_fields [OF assms(1)]
    by (auto simp: validate_compensation_args_def sdk_refuses_def split: sum.splits if_splits)
  ultimately show ?thesis using assms
    by (auto simp: validate_call_args_def sdk_refuses_def split: option.splits if_splits)
qed

lemma recorded_found:
  assumes "known S i = Some (static_part d)"
  shows "recorded S i fid \<longleftrightarrow> i \<noteq> '''' \<and> find_function_by_id d fid \<noteq> None"
  using assms by (auto simp: recorded_def static_part_def find_function_by_id_def find_None_iff)

context shared_account
begin

text \<open>The part of a call after its arguments were accepted.\<close>

lemma earns_accepted:
  assumes "known S i = Some (static_part d)" and "i \<noteq> ''''"
  shows "earns (\<lambda>n r. n = credit i (acr_ok r)) (and_then (execute_thread p d fid c t) (\<lambda>result.
      and_then (after_compensation_thread p i fid type name c (acr_ok result)) (\<lambda>_. finish_thread p i fid name result)))"
  using assms by (intro accounts_then_0 [OF acc_execute [OF assms(1)]] accounts_then_0 [OF acc_after] earns_finish) simp_all

lemma acc_finish_unnamed: "acc 0 (\<lambda>_. True) (finish_thread p '''' fid name result)"
  unfolding finish_thread_def record_thread_def
  by (auto intro!: acc_steps accounts_then_0 [where P = "\<lambda>_. True"])

lemma acc_accepted_unnamed:
  "known S i = Some (static_part d) \<Longrightarrow> acc 0 (\<lambda>_. True) (and_then (execute_thread p d fid c t) (\<lambda>result.
      and_then (after_compensation_thread p '''' fid type name c (acr_ok result)) (\<lambda>_. finish_thread p '''' fid name result)))"
  by (intro accounts_then_0 [OF acc_execute] accounts_then_0 [OF acc_after] acc_finish_unnamed)

lemma acc_refused_unnamed: "acc 0 (\<lambda>_. True) (and_then (record_thread p '''' name ok msg) (\<lambda>_. Done e))"
  by (simp add: record_thread_def acc_Done)

lemma earns_nothing: "acc 0 (\<lambda>_. True) t \<Longrightarrow> earns (\<lambda>n _. n = 0) t"
  by (erule accounts_mono) (simp add: balanced_def)

lemma earns_call:
  assumes "sdk_refuses sdk \<or> (\<forall>j b b'. credit j b = credit j b')"
  shows "earns (\<lambda>n r. n = (if recorded S i fid then credit i (acr_ok r) else 0)) (call_thread p sdk i fid args)"
  unfolding call_thread_def
proof (rule accounts_then_0 [OF acc_gets [where Q = "\<lambda>st. known S i = map_option static_part (find_device st i)"]])
  fix w :: "('b, 'r) world"
  assume "shared_ok p S w"
  then show "known S i = map_option static_part (find_device (snapshot w) i)" by (simp add: known_again)
next
  fix st :: "'r RuntimeState"
  assume found: "known S i = map_option static_part (find_device st i)"
  let ?Q = "\<lambda>n r. n = (if recorded S i fid then credit i (acr_ok r) else 0)"
  have refused: "earns (\<lambda>n r. n = credit i (acr_ok r)) (and_then (record_thread p i name False (acr_message e)) (\<lambda>_. Done e))"
    if "known S i \<noteq> None" "i \<noteq> ''''" "validate_call_args sdk fid type args = Inl e" for name e type
  proof (rule accounts_mono [OF accounts_then_rest [OF earns_record [OF that(1,2)] acc_Done [of "\<lambda>r. r = e"]]])
    fix n r
    assume "balanced (credit i False) (\<lambda>r. r = e) n r"
    then show "n = credit i (acr_ok r)" using assms refused_args [OF _ that(3)] by (auto simp: balanced_def)
  qed simp
  show "earns ?Q (case find_device st i of
       None \<Rightarrow> Done (call_not_found sdk ''unknown device_id'')
     | Some d \<Rightarrow>
         (case find_function_by_id d fid of
            None \<Rightarrow> Done (call_not_found sdk ''unknown function_id'')
          | Some spec \<Rightarrow>
              (case validate_call_args sdk fid (ds_type (ad_spec d)) args of
                 Inl arg_error \<Rightarrow>
                   and_then (record_thread p i (fn_name spec) False (acr_message arg_error)) (\<lambda>_. Done arg_error)
               | Inr checked \<Rightarrow>
                   (let control_args = (if is_do_calibration fid (ds_type (ad_spec d))
                                        then checked\<lparr>restore := restore_values d\<rparr> else checked) in
                    and_then (execute_thread p d fid control_args (timeout_ms (rs_config st))) (\<lambda>result.
                    and_then (after_compensation_thread p i fid (ds_type (ad_spec d)) (fn_name spec) control_args (acr_ok result)) (\<lambda>_.
                    finish_thread p i fid (fn_name spec) result))))))"
  proof (cases "find_device st i")
    case None
    then have "\<not> recorded S i fid" using found by (simp add: recorded_def)
    then show ?thesis using None by (simp add: done_accounts)
  next
    case (Some d)
    note dev = this
    then have k: "known S i = Some (static_part d)" "known S i \<noteq> None" using found by simp_all
    note rec = recorded_found [OF k(1), of fid]
    consider "find_function_by_id d fid = None" | spec where "find_function_by_id d fid = Some spec" "i = ''''"
      | spec where "find_function_by_id d fid = Some spec" "i \<noteq> ''''" by blast
    then show ?thesis
    proof cases
      case 1
      then show ?thesis using dev rec by (simp add: done_accounts)
    next
      case 2
      show ?thesis using dev 2 rec by (auto simp: Let_def split: sum.split intro!: earns_nothing acc_refused_unnamed acc_accepted_unnamed [OF k(1)])
    next
      case 3
      then show ?thesis using dev rec
        by (auto simp: Let_def split: sum.split intro!: refused [OF k(2)] earns_accepted [OF k(1)])
    qed
  qed
qed

lemma acc_stop: "acc (owe k) (\<lambda>_. True) (atomic (stop_section p k))"
proof (rule accounts_atomic)
  fix w a w'
  assume ok: "shared_ok p S w" and run: "run_state (stop_section p k) w = (a, w')"
  have "shared_ok p S w'" by (rule shared_ok_quiet [OF _ _ ok]) (use run in \<open>auto simp: stop_section_def\<close>)
  then show "shared_ok p S w' \<and> (\<exists>m'. balanced 0 (\<lambda>_. True) m' a \<and> (\<forall>rest. G (owe k + rest) w \<longrightarrow> G (m' + rest) w'))"
    using stopped [of k _ w] run by (simp add: balanced_def)
qed

lemma acc_shutdown: "acc fin (\<lambda>_. True) (shutdown_thread p)"
  unfolding shutdown_thread_def atomic_def [of shutdown_section] and_then.simps
proof (rule section_accounts)
  fix w t w'
  assume ok: "shared_ok p S w"
    and "map_prod (\<lambda>t. and_then t (\<lambda>executor. case executor of None \<Rightarrow> Done () | Some k \<Rightarrow> atomic (stop_section p k))) id
      (case run_state shutdown_section w of (a, w') \<Rightarrow> (Done a, w')) = (t, w')"
  then have w': "w' = snd (run_state shutdown_section w)"
    and t: "t = (case fetch w of None \<Rightarrow> Done () | Some k \<Rightarrow> atomic (stop_section p k))"
    by (auto simp: shutdown_section_def split: prod.splits)
  have inv: "shared_ok p S w'"
    using ok by (simp add: w' shutdown_section_def shared_ok_def world_ok_def inventory_def devices_ok_def)
  show "shared_ok p S w' \<and> (\<exists>m'. acc m' (\<lambda>_. True) t \<and> (\<forall>rest. G (fin + rest) w \<longrightarrow> G (m' + rest) w'))"
  proof (cases "g_executor w")
    case None
    then show ?thesis using inv not_moved [OF None] acc_Done [of "\<lambda>_. True"]
      by (intro conjI exI [of _ 0]) (auto simp: t w' fetch_def)
  next
    case (Some e)
    then show ?thesis using inv moved [OF Some] acc_stop
      by (intro conjI exI [of _ "owe (length (retired w))"]) (auto simp: t w' fetch_def)
  qed
qed

lemma acc_readiness: "acc 0 (\<lambda>_. True) (readiness_thread p)"
  unfolding readiness_thread_def
  by (auto intro!: accounts_then_0 [OF acc_same [OF same.keeps_quiet(1)]] acc_steps accounts_then_0 [where P = "\<lambda>_. True"] acc_clocks)

lemma acc_health: "acc 0 (\<lambda>_. True) (health_thread p i)"
  unfolding health_thread_def
  by (intro accounts_then_0 [OF acc_same [OF same.keeps_quiet(1)]] acc_option acc_steps) simp_all

lemma acc_only: "acc m (\<lambda>_. True) t \<Longrightarrow> acc m (\<lambda>r. r = None) (only t)"
  unfolding only_def by (erule accounts_then_rest) (simp add: acc_Done)

lemma only_balance:
  "acc m (\<lambda>_. True) t \<Longrightarrow> accounts (shared_ok p S) G m (\<lambda>n r. n = balance S credit a r) (only t)"
  by (drule acc_only, erule accounts_mono) (auto simp: balanced_def balance_def split: option.split)

lemma activity_accounts:
  assumes "sdk_refuses sdk \<or> (\<forall>j b b'. credit j b = credit j b')"
  shows "accounts (shared_ok p S) G (owed fin a) (\<lambda>n r. n = balance S credit a r) (activity_thread p sdk a)"
proof (cases a)
  case (A_request rq)
  show ?thesis
  proof (cases rq)
    case (Do_call i fid args)
    then show ?thesis using A_request
      by (auto simp: owed_def balance_def intro!: accounts_and_then [OF earns_call [OF assms]] done_accounts)
  qed (simp_all add: A_request owed_def only_balance acc_read acc_readiness acc_health)
qed (simp_all add: owed_def only_balance acc_sample acc_level acc_compensation acc_shutdown)

lemma activities_accounted:
  assumes "sdk_refuses sdk \<or> (\<forall>j b b'. credit j b = credit j b')" and "interleave\<^sup>*\<^sup>* (map (activity_thread p sdk) acts, w) (ts', w')" and "shared_ok p S w"
    and "G (sum_list (map (owed fin) acts)) w"
  shows "shared_ok p S w'"
    and "all_done ts' \<Longrightarrow> \<exists>rs. ts' = map Done rs \<and> length rs = length acts \<and> G (sum_list (map2 (balance S credit) acts rs)) w'"
    and "\<exists>m. G m w'"
proof -
  let ?Qs = "map (\<lambda>a n r. n = balance S credit a r) acts"
  have "accounted (shared_ok p S) G (map (owed fin) acts) ?Qs (map (activity_thread p sdk) acts)"
    by (simp add: accounted_def activity_accounts [OF assms(1)])
  from interleave_accounted [OF assms(2) this assms(3,4)] obtain ms'
    where ms': "accounted (shared_ok p S) G ms' ?Qs ts'" "shared_ok p S w'" "G (sum_list ms') w'" by blast
  then show "shared_ok p S w'" and "\<exists>m. G m w'" by blast+
  assume ended: "all_done ts'"
  have "\<forall>j. \<exists>r. j < length ts' \<longrightarrow> ts' ! j = Done r \<and> (?Qs ! j) (ms' ! j) r"
    using accounted_done [OF ms'(1) ended] by blast
  from choice [OF this] obtain r where r: "\<And>j. j < length ts' \<Longrightarrow> ts' ! j = Done (r j) \<and> (?Qs ! j) (ms' ! j) (r j)"
    by blast
  have len: "length ts' = length acts" "length ms' = length acts" using ms'(1) by (simp_all add: accounted_def)
  define rs where "rs = map r [0..<length acts]"
  have "ts' = map Done rs" by (rule nth_equalityI) (simp_all add: r len rs_def)
  moreover have "ms' = map2 (balance S credit) acts rs"
  proof (rule nth_equalityI)
    fix j
    assume "j < length ms'"
    then show "ms' ! j = map2 (balance S credit) acts rs ! j" using r [of j] len by (simp add: rs_def)
  qed (simp add: len rs_def)
  ultimately show "\<exists>rs. ts' = map Done rs \<and> length rs = length acts \<and> G (sum_list (map2 (balance S credit) acts rs)) w'"
    using ms'(3) by (intro exI [of _ rs]) (simp add: rs_def)
qed

end

section \<open>Three readings of the contract\<close>

text \<open>First: the calls recorded on a device with one of the two outcomes.\<close>

definition calls_noted :: "bool \<Rightarrow> string \<Rightarrow> ('b, 'r) world \<Rightarrow> u64" where
  "calls_noted ok i w =
     (case active_device i w of None \<Rightarrow> 0 | Some d \<Rightarrow> if ok then call_success_count d else call_failure_count d)"

definition one_if :: "bool \<Rightarrow> string \<Rightarrow> string \<Rightarrow> bool \<Rightarrow> nat" where
  "one_if ok i j ok' = of_bool (j = i \<and> ok' = ok)"

text \<open>The calls among some activities that are recorded on device \<open>i\<close> and were answered with outcome \<open>ok\<close>.\<close>

definition calls_answered :: "bool \<Rightarrow> fixed_part list \<Rightarrow> string \<Rightarrow> activity list \<Rightarrow> AdapterCallResult option list \<Rightarrow> nat" where
  "calls_answered ok S i acts rs =
     length (filter (\<lambda>(a, r). \<exists>fid result. call_of a = Some (i, fid) \<and> recorded S i fid \<and> r = Some result \<and> acr_ok result = ok)
       (zip acts rs))"

lemma calls_noted_same: "active_devices (g_state w') = active_devices (g_state w) \<Longrightarrow> calls_noted ok i w' = calls_noted ok i w"
  by (simp add: calls_noted_def active_device_def)

lemma calls_noted_upd: "keeps_calls f \<Longrightarrow> calls_noted ok i (upd_world j f w) = calls_noted ok i w"
  by (auto simp: calls_noted_def active_device_upd [OF keeps_specI] keeps_calls_def split: option.split)

lemma calls_noted_note:
  assumes "active_device j w \<noteq> None"
  shows "calls_noted ok i (upd_world j (note_call fn ok' msg now) w) = calls_noted ok i w + of_nat (one_if ok i j ok')"
proof -
  have "(if ok then call_success_count (note_call fn ok' msg now d) else call_failure_count (note_call fn ok' msg now d)) =
      (if ok then call_success_count d else call_failure_count d) + of_bool (ok' = ok)" for d
    by (cases ok; cases ok') (simp_all add: note_call_def Let_def)
  then show ?thesis
    using assms by (auto simp: calls_noted_def one_if_def active_device_upd [OF keeps_specI] split: option.split)
qed

lemma put_executor_state [simp]: "g_state (put_executor k e w) = g_state w"
  by (simp add: put_executor_def)

interpretation counted: shared_account p S "\<lambda>m w. calls_noted ok i w = base + of_nat m" "one_if ok i" 0 "\<lambda>_. 0"
  for p :: "('b, 'h, 'r) platform" and S ok i base
proof unfold_locales
  fix w :: "('b, 'r) world" and j m fn ok' msg now
  assume w: "shared_ok p S w" "known S j \<noteq> None" and G: "calls_noted ok i w = base + of_nat m"
  have "active_device j w \<noteq> None" using w known_inventory [of w j] by (auto simp: shared_ok_def)
  then show "calls_noted ok i (upd_world j (note_call fn ok' msg now) w) = base + of_nat (one_if ok i j ok' + m)"
    using G by (simp add: calls_noted_note ac_simps)
next
  fix w w' :: "('b, 'r) world" and m :: nat
  assume "g_state w' = g_state w" and "calls_noted ok i w = base + of_nat m"
  then show "calls_noted ok i w' = base + of_nat m" using calls_noted_same [of w' w] by simp
next
  fix w :: "('b, 'r) world" and f m j
  show "keeps_calls f \<Longrightarrow> calls_noted ok i w = base + of_nat m \<Longrightarrow> calls_noted ok i (upd_world j f w) = base + of_nat m"
    by (simp add: calls_noted_upd)
next
  fix w :: "('b, 'r) world" and m k e'
  show "calls_noted ok i w = base + of_nat m \<Longrightarrow> calls_noted ok i (put_executor k e' w) = base + of_nat m"
    using calls_noted_same [of "put_executor k e' w" w] by simp
next
  fix w :: "('b, 'r) world" and m k
  assume "calls_noted ok i w = base + of_nat (0 + m)"
  then show "calls_noted ok i (snd (run_state shutdown_section w)) = base + of_nat (0 + m)"
    "calls_noted ok i (snd (run_state shutdown_section w)) = base + of_nat m"
    "calls_noted ok i (snd (run_state (stop_section p k) w)) = base + of_nat m"
    using calls_noted_same [of "snd (run_state shutdown_section w)" w] calls_noted_same [of "snd (run_state (stop_section p k) w)" w]
    by (simp_all add: shutdown_section_def stop_section_def)
qed

lemma balance_sum:
  "sum_list (map2 (balance S (one_if ok i)) acts rs) = calls_answered ok S i acts rs"
proof (induction acts rs rule: list_induct2')
  case (4 a acts r rs)
  then show ?case by (cases "call_of a"; cases r) (auto simp: calls_answered_def balance_def one_if_def)
qed (simp_all add: calls_answered_def)

lemma owed_sum: "sum_list (map (owed 0) acts) = 0"
  by (simp add: owed_def [abs_def])

lemma balance_zero: "balance S (\<lambda>_ _. 0) a r = 0"
  by (simp add: balance_def split: option.split)

lemma balance_nothing: "sum_list (map2 (balance S (\<lambda>_ _. 0)) acts rs) = 0"
  by (induction acts rs rule: list_induct2') (simp_all add: balance_zero)

text \<open>Second: the handles of the executors that are not closed yet, each with the shutdown that is to stop it.\<close>

definition unclosed :: "('b, 'h, 'r) platform \<Rightarrow> ('b, 'r) world \<Rightarrow> nat set" where
  "unclosed p w = {k. k < length (retired w) \<and> \<not> closed_executor (bops p) (rev (retired w) ! k)}"

lemma unclosed_same: "retired w' = retired w \<Longrightarrow> unclosed p w' = unclosed p w"
  by (simp add: unclosed_def)

lemma unclosed_job:
  assumes "executor_at k w = Some e" and "job_step p S e e'"
  shows "unclosed p (put_executor k e' w) \<subseteq> unclosed p w"
  using assms
  by (auto simp: unclosed_def put_executor_def executor_at_def job_step_def closed_executor_def nth_list_update
      split: if_splits)

lemma unclosed_shutdown:
  "unclosed p (snd (run_state shutdown_section w)) \<subseteq>
     unclosed p w \<union> (case g_executor w of None \<Rightarrow> {} | Some _ \<Rightarrow> {length (retired w)})"
  by (auto simp: unclosed_def shutdown_section_def nth_append split: option.splits if_splits)

lemma unclosed_stop:
  assumes "i2c_bus (bops p)"
  shows "unclosed p (snd (run_state (stop_section p k) w)) \<subseteq> unclosed p w - {k}"
  using i2c_bus.exec_stop_closed [OF assms]
  by (cases "k < length (retired w)") (auto simp: unclosed_def stop_section_def nth_list_update)

lemma closing_account:
  fixes p :: "('b, 'h, 'r) platform"
  assumes "i2c_bus (bops p)"
  shows "shared_account p S (\<lambda>M w. unclosed p w \<subseteq> set_mset M) (\<lambda>_ _. {#}) {#} (\<lambda>k. {#k#})"
proof unfold_locales
  fix w :: "('b, 'r) world" and k m
  show "unclosed p w \<subseteq> set_mset ({#k#} + m) \<Longrightarrow> unclosed p (snd (run_state (stop_section p k) w)) \<subseteq> set_mset m"
    using unclosed_stop [OF assms, of k w] by auto
  fix e
  show "g_executor w = Some e \<Longrightarrow> unclosed p w \<subseteq> set_mset ({#} + m) \<Longrightarrow>
      unclosed p (snd (run_state shutdown_section w)) \<subseteq> set_mset ({#length (retired w)#} + m)"
    using unclosed_shutdown [of p w] by auto
  show "g_executor w = None \<Longrightarrow> unclosed p w \<subseteq> set_mset ({#} + m) \<Longrightarrow>
      unclosed p (snd (run_state shutdown_section w)) \<subseteq> set_mset m"
    using unclosed_shutdown [of p w] by auto
next
  fix w :: "('b, 'r) world" and k e e' m
  show "executor_at k w = Some e \<Longrightarrow> job_step p S e e' \<Longrightarrow> unclosed p w \<subseteq> set_mset m \<Longrightarrow> unclosed p (put_executor k e' w) \<subseteq> set_mset m"
    using unclosed_job [of k w e p S e'] by blast
next
  fix w w' :: "('b, 'r) world" and m
  show "retired w' = retired w \<Longrightarrow> unclosed p w \<subseteq> set_mset m \<Longrightarrow> unclosed p w' \<subseteq> set_mset m"
    using unclosed_same [of w' w p] by simp
next
  fix w :: "('b, 'r) world" and f i m
  show "unclosed p w \<subseteq> set_mset m \<Longrightarrow> unclosed p (upd_world i f w) \<subseteq> set_mset m"
    using unclosed_same [of "upd_world i f w" w p] by simp
next
  fix w :: "('b, 'r) world" and fn ok msg now i and m :: "nat multiset"
  show "unclosed p w \<subseteq> set_mset m \<Longrightarrow> unclosed p (upd_world i (note_call fn ok msg now) w) \<subseteq> set_mset ({#} + m)"
    using unclosed_same [of "upd_world i (note_call fn ok msg now) w" w p] by simp
qed

text \<open>Third: the shutdowns to come; without one to come there is no executor.\<close>

interpretation gone: shared_account p S "\<lambda>m w. m = 0 \<longrightarrow> g_executor w = None" "\<lambda>_ _. 0 :: nat" 1 "\<lambda>_. 0"
  for p :: "('b, 'h, 'r) platform" and S
  by unfold_locales (auto simp: shutdown_section_def stop_section_def put_executor_def executor_at_def split: if_splits)

text \<open>And, for the invariant alone, no account at all.\<close>

interpretation blank: shared_account p S "\<lambda>_ _. True" "\<lambda>_ _. 0 :: nat" 0 "\<lambda>_. 0"
  for p :: "('b, 'h, 'r) platform" and S
  by unfold_locales simp_all

section \<open>Properties\<close>

lemma closed_released: "unclosed p w = {} \<longleftrightarrow> released p w"
proof -
  have "released p w \<longleftrightarrow> list_all (closed_executor (bops p)) (rev (retired w))" by (simp add: released_def)
  then show ?thesis by (auto simp: unclosed_def list_all_length)
qed

text \<open>
  C16: The runtime's lock is enough. However the sections of any number of requests, refreshes and shutdowns interleave, and at
  whatever point they are stopped, every device is consistent, the executor is idle between jobs, and the
  inventory is the one that startup published.
\<close>

theorem parallel_keeps_world:
  assumes "interleave\<^sup>*\<^sup>* (map (activity_thread p sdk) acts, w) (ts', w')" and "world_ok p w"
  shows "world_ok p w' \<and> inventory w' = inventory w"
proof -
  have ok: "shared_ok p (inventory w) w" using assms(2) by (simp add: shared_ok_def)
  from blank.activities_accounted(1) [OF _ assms(1) ok] show ?thesis by (simp add: shared_ok_def)
qed

text \<open>
  C8: No recorded call is lost. However the sections of any activities interleave, once all of them are done and have
  given their answers, the success counter of a device has grown by exactly the number of calls of its advertised functions
  that were answered with success, and the failure counter by exactly the number of those answered with an error
  (as 64-bit counters do).
\<close>

theorem parallel_calls_recorded:
  assumes "sdk_refuses sdk" and "interleave\<^sup>*\<^sup>* (map (activity_thread p sdk) acts, w) (ts', w')" and "world_ok p w"
    and "all_done ts'"
  shows "\<exists>rs. ts' = map Done rs \<and> length rs = length acts \<and>
    calls_noted ok i w' = calls_noted ok i w + of_nat (calls_answered ok (inventory w) i acts rs)"
proof -
  have ok: "shared_ok p (inventory w) w" using assms(3) by (simp add: shared_ok_def)
  have "calls_noted ok i w = calls_noted ok i w + of_nat (sum_list (map (owed 0) acts))" by (simp add: owed_sum)
  from counted.activities_accounted(2) [OF disjI1 [OF assms(1)] assms(2) ok this assms(4)] show ?thesis by (simp add: balance_sum)
qed

text \<open>
  C15: Shutting down in parallel with anything closes everything. On buses that keep the bus contract, however
  the sections of any activities interleave, once all of them are done every executor that was taken out of service is stopped
  with its bus closed, also when jobs reached it through a handle taken before, and if one of them was a
  shutdown there is no executor any more.
\<close>

theorem parallel_shutdown_closes:
  assumes run: "interleave\<^sup>*\<^sup>* (map (activity_thread p sdk) acts, w) (ts', w')"
    and ok: "world_ok p w" and ended: "all_done ts'" and bus: "i2c_bus (bops p)" and "released p w"
  shows "released p w' \<and> (A_shutdown \<in> set acts \<longrightarrow> g_executor w' = None)"
proof
  let ?S = "inventory w"
  have ok: "shared_ok p ?S w" using ok by (simp add: shared_ok_def)
  have "unclosed p w = {}" using assms(5) by (simp add: closed_released)
  then have start: "unclosed p w \<subseteq> set_mset (sum_list (map (owed {#}) acts))" by simp
  obtain rs where "unclosed p w' \<subseteq> set_mset (sum_list (map2 (balance ?S (\<lambda>_ _. {#})) acts rs))"
    using shared_account.activities_accounted(2) [OF closing_account [OF bus] _ run ok start ended] by blast
  then show "released p w'" using balance_nothing [of ?S acts rs, where ?'a = "nat multiset"] by (simp add: closed_released)
  show "A_shutdown \<in> set acts \<longrightarrow> g_executor w' = None"
  proof
    assume "A_shutdown \<in> set acts"
    then have "owed (1 :: nat) A_shutdown \<in> set (map (owed 1) acts)" by simp
    then have "sum_list (map (owed (1 :: nat)) acts) \<noteq> 0" by (auto simp: owed_def)
    then have start: "sum_list (map (owed (1 :: nat)) acts) = 0 \<longrightarrow> g_executor w = None" by blast
    show "g_executor w' = None"
      using gone.activities_accounted(2) [OF _ run ok start ended] balance_nothing [of ?S acts, where ?'a = nat] by auto
  qed
qed

section \<open>Witnesses\<close>

text \<open>Two calls of one device at the same time, and one of a device that does not exist.\<close>

definition demo_calls :: "activity list" where
  "demo_calls = map (\<lambda>i. A_request (Do_call i kFunctionFind [])) [''ph0'', ''orp0'', ''ph0'']"

lemma demo_world_ok: "world_ok demo_platform demo_world"
  using device_ok_activate [of demo_platform default_ProviderConfig demo_spec default_info]
  by (simp add: world_ok_def devices_ok_def demo_world_def demo_device_def idle_def exec_start_def BusExecutor_new_def
      stub_ops_def Let_def)

lemma run_in_turn:
  "interleave\<^sup>*\<^sup>* (map (activity_thread p sdk) acts, w) (map Done (fst (all_in_turn p sdk acts w)), snd (all_in_turn p sdk acts w))"
  using in_turn_interleaved [of "[]"] by simp

lemma all_done_map [simp]: "all_done (map Done rs)"
  by (simp add: all_done_def)

lemma demo_sdk_refuses: "sdk_refuses demo_sdk"
  by (simp add: sdk_refuses_def demo_sdk_def)

lemma demo_recorded: "recorded (inventory demo_world) ''ph0'' kFunctionFind"
  using demo_active demo_find(1) by (auto simp: recorded_def known_inventory static_part_def find_function_by_id_def find_None_iff intro: rev_image_eqI)

theorem parallel_keeps_world_witness:
  "world_ok demo_platform (snd (all_in_turn demo_platform demo_sdk demo_calls demo_world))"
  using parallel_keeps_world [OF run_in_turn demo_world_ok] by blast

theorem parallel_calls_recorded_witness:
  "calls_noted False ''ph0'' (snd (all_in_turn demo_platform demo_sdk demo_calls demo_world)) =
     of_nat (calls_answered False (inventory demo_world) ''ph0'' demo_calls (fst (all_in_turn demo_platform demo_sdk demo_calls demo_world)))"
proof -
  have start: "calls_noted False ''ph0'' demo_world = 0"
    using demo_active by (simp add: calls_noted_def demo_device_def activate_def Let_def)
  have same: "rs = rs'" if "map Done rs = map Done rs'" for rs rs' :: "AdapterCallResult option list"
    using that by (simp add: inj_map_eq_map inj_def)
  from parallel_calls_recorded [OF demo_sdk_refuses run_in_turn demo_world_ok all_done_map, of demo_calls False "''ph0''"] start
  show ?thesis by (auto dest: same)
qed

text \<open>A refresh and two shutdowns of a provider with the no-hardware bus.\<close>

definition noop_world :: "(NoopI2cBus any_bus, unit) world" where
  "noop_world = initial_world
     \<lparr>g_executor := Some (snd (exec_start (any_ops noop_ops) (BusExecutor_new (Some (Noop_bus (NoopI2cBus_new ''''))))))\<rparr>"

lemma noop_world_ok: "world_ok (linked demo_buses demo_linked) noop_world"
  by (simp add: world_ok_def devices_ok_def noop_world_def initial_world_def new_RuntimeState_def idle_def exec_start_def
      BusExecutor_new_def noop_ops_def noop_open_def Let_def)

theorem parallel_shutdown_closes_witness:
  "g_executor (snd (all_in_turn (linked demo_buses demo_linked) demo_sdk [A_refresh ''ph0'', A_shutdown, A_shutdown] noop_world)) = None"
proof -
  have bus: "i2c_bus (bops (linked demo_buses demo_linked))"
    using i2c_bus.any_i2c_bus [OF noop.i2c_bus_axioms] by (simp add: demo_buses_def)
  have "released (linked demo_buses demo_linked) noop_world" by (simp add: released_def noop_world_def initial_world_def)
  from parallel_shutdown_closes [OF run_in_turn noop_world_ok all_done_map bus this,
      where acts = "[A_refresh ''ph0'', A_shutdown, A_shutdown]"]
  show ?thesis by simp
qed

end
