(* ===== verification/Ezo_Isolation.thy ===== *)
theory Ezo_Isolation
  imports Ezo_Addresses Ezo_Parallel
begin

text \<open>
  The bus a started provider talks to: in every interleaving only configured addresses are spoken to, and on the mock bus
  (\<^verbatim>\<open>src/i2c/ezo_canned_bus.cpp\<close>) serving one device leaves the mock of every other one as it is.
\<close>

section \<open>The mock bus\<close>

lemma canned_talk:
  assumes "talk canned_ops A b b'"
  shows "cb_options b' = cb_options b \<and> (\<forall>a. a \<notin> A \<longrightarrow> cb_devices b' a = cb_devices b a)"
  using assms
proof (induction rule: talk.induct)
  case (transaction b1 a tx nn n r b2)
  obtain s rx where "canned_write_then_read a tx nn n b1 = ((s, rx), b2)"
    using transaction.hyps(3) by (auto simp: transport_write_then_read_def canned_ops_def split: prod.splits)
  then show ?case using transaction.IH transaction.hyps(2) by (cases rule: canned_transaction_cases) auto
qed (simp_all add: canned_ops_def canned_delay_us_def)

lemma linked_talk:
  assumes "talk (any_ops ops) A (Canned_bus b) x"
  obtains b' where "x = Canned_bus b'" and "talk canned_ops A b b'"
proof -
  from assms have "\<exists>b'. x = Canned_bus b' \<and> talk canned_ops A b b'"
  proof (induction rule: talk.induct)
    case (transaction x1 a tx nn n r x2)
    then obtain b1 where b1: "x1 = Canned_bus b1" "talk canned_ops A b b1" by blast
    then obtain q b2 where b2: "bus_write_then_read canned_ops a tx nn n b1 = (q, b2)" "x2 = Canned_bus b2"
      using transaction.hyps(3) by (auto simp: transport_write_then_read_def map_prod_def split: prod.splits)
    from talk_trans [OF talk_write_then_read [OF transaction.hyps(2) b2(1)] b1(2)] b2(2) show ?case by blast
  next
    case (delay x1 d)
    then show ?case by (auto simp: map_any_def intro: talk.delay)
  qed (blast intro: talk.silent)
  then show ?thesis using that by blast
qed

lemma state_for_kept:
  "cb_options b' = cb_options b \<Longrightarrow> cb_devices b' a = cb_devices b a \<Longrightarrow> state_for a b' = state_for a b"
  by (simp add: state_for_def split: option.split)

section \<open>Devices of a started provider\<close>

lemma started_members:
  assumes "startup_ok p config (g_state w) (g_executor w)" and "d \<in> set (active_devices (g_state w))"
  shows "ad_spec d \<in> set (devices config)"
proof (cases "g_executor w")
  case (Some e)
  with assms(1) have "mset (map ad_spec (active_devices (g_state w))) + mset (map ed_spec (excluded_devices (g_state w))) =
      mset (devices config)" by (simp add: startup_ok_def)
  from arg_cong [OF this, of set_mset] assms(2) show ?thesis by auto
qed (use assms in \<open>auto simp: startup_ok_def\<close>)

lemma started_specs:
  assumes "startup_ok p config (g_state w) (g_executor w)" and "active_device i w = Some d"
  shows "ad_spec d \<in> set (devices config)" and "ds_id (ad_spec d) = i"
proof -
  from assms(2) have d: "has_id i d" "d \<in> set (active_devices (g_state w))"
    using find_SomeD by (fastforce simp: active_device_def find_active_device_unlocked_def)+
  then show "ds_id (ad_spec d) = i" by (simp add: has_id_def)
  show "ad_spec d \<in> set (devices config)" by (rule started_members [OF assms(1) d(2)])
qed

text \<open>In a loaded configuration different devices have different bus addresses.\<close>

lemma distinct_addresses:
  assumes "config_ok config" and "s \<in> set (devices config)" and "s' \<in> set (devices config)" and "s \<noteq> s'"
  shows "device_address s \<noteq> device_address s'"
proof -
  have "ds_address s \<noteq> ds_address s'" and "0 \<le> ds_address s" "ds_address s < 256" "0 \<le> ds_address s'" "ds_address s' < 256"
    using assms by (auto simp: config_ok_def distinct_map dest: inj_onD)
  then show ?thesis by (simp add: device_address_def word_of_int_inj)
qed

lemma active_device_others:
  assumes "other_devices i w' = other_devices i w" and "j \<noteq> i"
  shows "active_device j w' = active_device j w"
proof -
  have "find (has_id j) ds = find (has_id j) (filter (\<lambda>d. ds_id (ad_spec d) \<noteq> i) ds)" for ds
    using assms(2) by (induction ds) (auto simp: has_id_def)
  then show ?thesis
    using assms(1) unfolding active_device_def find_active_device_unlocked_def other_devices_def by metis
qed

lemma started_ok:
  "startup_ok p config (g_state (fold (serve p sdk) rqs (snd (run_state (initialize p config) w))))
     (g_executor (fold (serve p sdk) rqs (snd (run_state (initialize p config) w)))) \<and>
   world_ok p (fold (serve p sdk) rqs (snd (run_state (initialize p config) w)))"
proof (induction rqs rule: rev_induct)
  case Nil
  then show ?case using initialize_ok by simp
qed (simp add: startup_ok_serve world_ok_serve)

lemma mock_bus_history:
  assumes "bus_history (linked sb p) config w" and "g_executor w = Some e" and "ex_bus e \<noteq> None"
    and "is_mock_mode config" and "\<not> fault_any p (snd (split_bus_query p (bus_path config)))"
  obtains b where "ex_bus e = Some (Canned_bus b)"
proof -
  obtain c where c: "make_bus (linked sb p) config = Canned_bus c"
    using assms(4,5) by (cases "split_bus_query p (bus_path config)") (simp add: make_bus_linked Let_def)
  obtain x where "bus_open (any_ops (sdk_bus_ops sb)) (Canned_bus c) = (I2c_ok, x)"
    and talk: "talk (any_ops (sdk_bus_ops sb)) (device_addresses config) x (the (ex_bus e))"
    using assms(1,2) by (auto simp: bus_history_def c)
  then obtain c' where "x = Canned_bus c'" by (auto simp: map_prod_def split: prod.splits)
  then obtain b where "the (ex_bus e) = Canned_bus b" using linked_talk talk by blast
  then show ?thesis using assms(3) that by (cases "ex_bus e") auto
qed

section \<open>Every interleaving\<close>

text \<open>
  An executor whose bus was \<open>b\<close>: it has been talked to at addresses in \<open>A\<close>, and once closed no more.
\<close>

definition served_at :: "('b, 'h, 'r) platform \<Rightarrow> u8 set \<Rightarrow> 'b \<Rightarrow> 'b BusExecutor \<Rightarrow> bool" where
  "served_at p A b e \<longleftrightarrow>
     (\<exists>b1 n. talk (bops p) A b b1 \<and> the (ex_bus e) = (bus_close (bops p) ^^ n) b1 \<and> (0 < n \<longrightarrow> \<not> ex_running e))"

lemma served_at_bus: "served_at p A (the (ex_bus e)) e"
  unfolding served_at_def by (intro exI [of _ "the (ex_bus e)"] exI [of _ 0]) (simp add: talk.silent)

lemma served_at_job:
  assumes "driver_addressed (bops p) (drv p)" and "job_step p S e e'" and "served_at p (addresses_of S) b e"
  shows "served_at p (addresses_of S) b e'"
proof (cases "ex_running e")
  case True
  then have "talk (bops p) (addresses_of S) b (the (ex_bus e))" using assms(3) by (auto simp: served_at_def)
  with assms(1,2) have "talk (bops p) (addresses_of S) b (the (ex_bus e'))" by (auto simp: job_step_def intro: talk_trans)
  then show ?thesis unfolding served_at_def by (intro exI [of _ "the (ex_bus e')"] exI [of _ 0]) simp
qed (use assms in \<open>simp add: job_step_def\<close>)

lemma ex_bus_cancel [simp]: "ex_bus (cancel_pending ts e) = ex_bus e"
  by (induction ts arbitrary: e) (simp_all add: executor_ops)

lemma exec_stop_bus: "ex_bus (exec_stop ops e) = map_option (bus_close ops) (ex_bus e)"
  by (simp add: exec_stop_def close_bus_def stop_begin_def upd_metrics_def)

lemma exec_stop_running: "\<not> ex_running (exec_stop ops e)"
  by (simp add: exec_stop_def close_bus_def)

lemma served_at_stop: "served_at p A b e \<Longrightarrow> served_at p A b (exec_stop (bops p) e)"
proof (cases "ex_bus e")
  case (Some b0)
  assume "served_at p A b e"
  then obtain b1 n where "talk (bops p) A b b1" "b0 = (bus_close (bops p) ^^ n) b1" using Some by (auto simp: served_at_def)
  then show ?thesis
    unfolding served_at_def by (intro exI [of _ b1] exI [of _ "Suc n"]) (simp add: exec_stop_bus exec_stop_running Some)
qed (auto simp: served_at_def exec_stop_bus exec_stop_running)

lemma executor_at_put:
  "executor_at j w = Some e0 \<Longrightarrow> executor_at k (put_executor j e w) = (if k = j then Some e else executor_at k w)"
  by (auto simp: executor_at_def put_executor_def split: if_splits)

lemma executor_at_same: "g_executor w' = g_executor w \<Longrightarrow> retired w' = retired w \<Longrightarrow> executor_at k w' = executor_at k w"
  by (simp add: executor_at_def)

lemma executor_at_upd [simp]: "executor_at k (upd_world i f w) = executor_at k w"
  by (simp add: executor_at_def)

lemma executor_at_shutdown: "executor_at k (snd (run_state shutdown_section w)) = executor_at k w"
  by (auto simp: executor_at_def shutdown_section_def nth_append split: option.split)

lemma executor_at_stop:
  "executor_at k (snd (run_state (stop_section p j) w)) =
     (if k = j \<and> k < length (retired w) then map_option (exec_stop (bops p) \<circ> exec_stop (bops p)) (executor_at k w)
      else executor_at k w)"
  by (auto simp: executor_at_def stop_section_def nth_list_update)

text \<open>The fourth reading of the contract: the executor with handle \<open>k\<close> serves one of the buses \<open>B\<close>.\<close>

definition serves :: "('b, 'h, 'r) platform \<Rightarrow> u8 set \<Rightarrow> 'b set \<Rightarrow> nat \<Rightarrow> ('b, 'r) world \<Rightarrow> bool" where
  "serves p A B k w \<longleftrightarrow> (\<forall>e. driver_addressed (bops p) (drv p) \<longrightarrow> executor_at k w = Some e \<longrightarrow> (\<exists>b \<in> B. served_at p A b e))"

lemma serves_same: "serves p A B k w \<Longrightarrow> executor_at k w' = executor_at k w \<Longrightarrow> serves p A B k w'"
  by (simp add: serves_def)

lemma serves_put:
  assumes "executor_at j w = Some e" and "job_step p S e e'" and "serves p (addresses_of S) B k w"
  shows "serves p (addresses_of S) B k (put_executor j e' w)"
proof (cases "k = j")
  case True
  then show ?thesis
    using assms(1,3) served_at_job [OF _ assms(2)] by (simp add: executor_at_put serves_def) blast
qed (use assms(1,3) in \<open>simp add: executor_at_put serves_def\<close>)

lemma serves_stop:
  assumes "serves p A B k w"
  shows "serves p A B k (snd (run_state (stop_section p j) w))"
  unfolding serves_def
proof (intro allI impI)
  fix e
  assume driver: "driver_addressed (bops p) (drv p)" and e: "executor_at k (snd (run_state (stop_section p j) w)) = Some e"
  obtain e0 where e0: "executor_at k w = Some e0" "e = e0 \<or> e = exec_stop (bops p) (exec_stop (bops p) e0)"
    using e by (auto simp: executor_at_stop split: if_splits)
  obtain b where b: "b \<in> B" "served_at p A b e0" using assms driver e0(1) unfolding serves_def by blast
  from e0(2) have "served_at p A b e" using b(2) by (auto intro: served_at_stop)
  with b(1) show "\<exists>b \<in> B. served_at p A b e" ..
qed

interpretation serving: shared_account p S "\<lambda>_ w. serves p (addresses_of S) B k w" "\<lambda>_ _. 0 :: nat" 0 "\<lambda>_. 0"
  for p :: "('b, 'h, 'r) platform" and S k B
  by unfold_locales
    (rule serves_put serves_stop, assumption+ | erule serves_same, (rule executor_at_same, assumption+ | simp add: executor_at_shutdown))+

lemma served_at_mono: "served_at p A b e \<Longrightarrow> A \<subseteq> A' \<Longrightarrow> served_at p A' b e"
  unfolding served_at_def by (blast intro: talk_mono)

lemma started_inventory: "addresses_of (inventory (snd (run_state (initialize p config) w))) \<subseteq> device_addresses config"
proof -
  let ?w = "snd (run_state (initialize p config) w)"
  have started: "startup_ok p config (g_state ?w) (g_executor ?w)" using started_ok [of p config _ "[]" w] by simp
  have "ad_spec d \<in> set (devices config)" if "d \<in> set (active_devices (g_state ?w))" for d
    by (rule started_members [OF started that])
  then show ?thesis by (auto simp: addresses_of_def inventory_def device_addresses_def static_part_def)
qed

section \<open>A started provider on the mock bus\<close>

text \<open>
  A concrete driver for the witnesses: a handle is its address; the identity query, reading and finding are transactions at
  that address, the other functions fail without touching the bus. Two devices are configured, and both are admitted.
\<close>

definition wire_command :: "u8 \<Rightarrow> string \<Rightarrow> (NoopI2cBus any_bus, sent) state" where
  "wire_command a cmd = State (\<lambda>b. ((EZO_OK, 300), snd (bus_write_then_read (any_ops noop_ops) a (bytes_of cmd) False 0 b)))"

definition wire_reply :: "u8 \<Rightarrow> 'a \<Rightarrow> (NoopI2cBus any_bus, ezo_result \<times> 'a) state" where
  "wire_reply a x = State (\<lambda>b. ((EZO_OK, x), snd (bus_write_then_read (any_ops noop_ops) a [] True 32 b)))"

definition wire_driver :: "(NoopI2cBus any_bus, u8) ezo_driver" where
  "wire_driver = (stub_for 0)
     \<lparr>ezo_device_init := (\<lambda>a tr h. (EZO_OK, a)),
      ezo_control_send_info_query := (\<lambda>h product. wire_command h ''i''),
      ezo_control_read_info := (\<lambda>h. wire_reply h
        \<lparr>product_id = (if h = 0x63 then EZO_PRODUCT_PH else EZO_PRODUCT_ORP), product_code = [], firmware_version = []\<rparr>),
      ezo_control_send_find := (\<lambda>h product. wire_command h ''find''),
      ezo_ph_send_read := (\<lambda>h. wire_command h ''r''), ezo_orp_send_read := (\<lambda>h. wire_command h ''r'')\<rparr>"

lemma wire_talks:
  "keeps_frame (talk (any_ops noop_ops) {a}) (wire_command a cmd)" "keeps_frame (talk (any_ops noop_ops) {a}) (wire_reply a x)"
  unfolding keeps_frame_def wire_command_def wire_reply_def
  by (auto simp del: any_ops_sel intro: talk_write_then_read [OF _ prod.collapse [symmetric]])

lemma wire_addressed: "driver_addressed (any_ops (sdk_bus_ops demo_buses)) wire_driver"
  by (simp add: driver_addressed_def demo_buses_def wire_driver_def handle_keeps_def handle_defs stub_for_def stub_def
      talking.keeps_return wire_talks)

definition ph_spec :: DeviceSpec where
  "ph_spec = \<lparr>ds_id = ''ph0'', ds_type = Ph, ds_label = '''', ds_address = 0x63\<rparr>"

definition orp_spec :: DeviceSpec where
  "orp_spec = \<lparr>ds_id = ''orp0'', ds_type = Orp, ds_label = '''', ds_address = 0x62\<rparr>"

definition wire_config :: ProviderConfig where
  "wire_config = default_ProviderConfig\<lparr>bus_path := ''mock://bench'', devices := [ph_spec, orp_spec]\<rparr>"

definition wire_platform :: "(NoopI2cBus any_bus, u8, unit) platform" where
  "wire_platform =
     \<lparr>claim_key = (\<lambda>bus a. bus), add_claim = (\<lambda>d k. d), bops = stub_ops, drv = wire_driver, linux_build = False,
      split_bus_query = (\<lambda>path. (path, [])), canned_bus = (\<lambda>path _. Noop_bus (NoopI2cBus_new path)), fault_any = (\<lambda>_. False),
      fault_bus = (\<lambda>b _. b), linux_bus = (\<lambda>path _. Noop_bus (NoopI2cBus_new path)), noop_bus = (\<lambda>path. Noop_bus (NoopI2cBus_new path)),
      i2c_check_host = (\<lambda>_. []), host_exit_code = (\<lambda>_. 0), readiness_diagnostics = (\<lambda>_ _. None),
      system_clock = (\<lambda>n. int n), steady_clock = (\<lambda>n. int n), schedule_of = (\<lambda>_. InTime)\<rparr>"

definition wire_world :: "request list \<Rightarrow> (NoopI2cBus any_bus, unit) world" where
  "wire_world rqs = fold (serve (linked demo_buses wire_platform) demo_sdk) rqs
     (snd (run_state (initialize (linked demo_buses wire_platform) wire_config) initial_world))"

lemma wire_config_ok: "config_ok wire_config" "is_mock_mode wire_config"
  by (simp_all add: config_ok_def wire_config_def default_ProviderConfig_def scalars_ok_def ph_spec_def orp_spec_def is_mock_mode_def
      has_prefix_def int_max_def)

lemma wire_sel [simp]:
  "drv (linked demo_buses wire_platform) = wire_driver" "schedule_of (linked demo_buses wire_platform) = (\<lambda>_. InTime)"
  "host_exit_code (linked demo_buses wire_platform) = (\<lambda>_. 0)"
  by (simp_all add: linked_def wire_platform_def)

lemma wire_probe:
  assumes "idle e" and "spec \<in> {ph_spec, orp_spec}"
  obtains info e' where "probe_identity_real (linked demo_buses wire_platform) config spec InTime e = ((Status_ok, info), e')"
    and "idle e'" and "product_id info = expected_product (adapter_for ops dv (ds_type spec))"
proof -
  let ?info = "\<lparr>product_id = (if spec = ph_spec then EZO_PRODUCT_PH else EZO_PRODUCT_ORP), product_code = [], firmware_version = []\<rparr>"
  have job: "fst (run_state (probe_job (linked demo_buses wire_platform) spec) b) = (Status_ok, ?info)" for b
    using assms(2)
    by (auto simp: probe_job_def bound_job_def bind_ezo_i2c_device_def wire_driver_def wire_command_def wire_reply_def
        bus_delay_def ph_spec_def orp_spec_def)
  obtain e' where "probe_identity_real (linked demo_buses wire_platform) config spec InTime e = ((Status_ok, ?info), e')" "idle e'"
    using job [of "the (ex_bus e)"] assms(1) submit_keeps_idle [OF assms(1)]
    by (cases "run_state (probe_job (linked demo_buses wire_platform) spec) (the (ex_bus e))")
      (auto simp: probe_identity_real_def submit_def submit_refused_def idle_def Let_def)
  then show ?thesis
    using that assms(2) by (auto simp: adapter_for.simps adapters ph_spec_def orp_spec_def)
qed


lemma wire_probes:
  assumes "idle e"
  obtains act e' where "probe_devices (linked demo_buses wire_platform) config [ph_spec, orp_spec] n e st =
      (st\<lparr>active_devices := active_devices st @ act\<rparr>, e')" and "idle e'" and "map ad_spec act = [ph_spec, orp_spec]"
proof -
  let ?p = "linked demo_buses wire_platform"
  obtain i1 e1 where p1: "probe_identity_real ?p config ph_spec InTime e = ((Status_ok, i1), e1)" "idle e1"
    "product_id i1 = expected_product (adapter_for (bops ?p) (drv ?p) (ds_type ph_spec))"
    by (rule wire_probe [OF assms, of ph_spec]) auto
  obtain i2 e2 where p2: "probe_identity_real ?p config orp_spec InTime e1 = ((Status_ok, i2), e2)" "idle e2"
    "product_id i2 = expected_product (adapter_for (bops ?p) (drv ?p) (ds_type orp_spec))"
    by (rule wire_probe [OF p1(2), of orp_spec]) auto
  have specs: "ad_spec (activate ?p config spec info) = spec" for spec info by (simp add: activate_def Let_def)
  show ?thesis
    by (rule that [of "[activate ?p config ph_spec i1, activate ?p config orp_spec i2]" e2])
      (use p1 p2 specs in \<open>simp_all add: admit_def\<close>)
qed

lemma frame_part_serving: "frame_part (fold (serve p sdk) rqs w) = frame_part w"
proof (induction rqs rule: rev_induct)
  case (snoc rq rqs)
  then show ?case by (simp add: fixed.request_R [OF refl])
qed simp

lemma wire_devices: "devices wire_config = [ph_spec, orp_spec]"
  by (simp add: wire_config_def)

lemma active_started: "active_devices (started_state ss e st) = active_devices st"
  by (simp add: started_state_def)

lemma started_static:
  "map static_part (active_devices (g_state (snd (run_state (for_each (startup_refresh p) ids) w)))) =
   map static_part (active_devices (g_state w))"
  using started_frames(1) [of p ids w] by (simp add: frame_part_def)

lemma wire_active: "map ad_spec (active_devices (g_state (wire_world rqs))) = [ph_spec, orp_spec]"
proof -
  let ?p = "linked demo_buses wire_platform"
  let ?st = "started_state Status_ok"
  obtain ss e where start: "exec_start (bops ?p) (BusExecutor_new (Some (make_bus ?p wire_config))) = (ss, e)" by fastforce
  have "make_bus ?p wire_config = Canned_bus (EzoCannedBus_new ''mock://bench'' (CannedOptions_parse []))"
    by (simp add: make_bus_linked wire_config_ok(2)) (simp add: wire_platform_def wire_config_def)
  then have ok: "is_ok ss"
    using start by (auto simp: exec_start_def BusExecutor_new_def canned_ops_def canned_open_def Let_def)
  have started: "map ad_spec (active_devices (g_state (snd (run_state (start_devices ?p wire_config st) w)))) = [ph_spec, orp_spec]"
    if "active_devices st = []" for st w
  proof -
    obtain act e' where probe: "probe_devices ?p wire_config [ph_spec, orp_spec] (job_count w) e (started_state ss e st) =
        ((started_state ss e st)\<lparr>active_devices := active_devices (started_state ss e st) @ act\<rparr>, e')"
      "map ad_spec act = [ph_spec, orp_spec]"
      by (rule wire_probes [OF exec_start_idle [OF start ok]])
    let ?st = "(started_state ss e st)\<lparr>active_devices := act\<rparr>"
    let ?w = "w\<lparr>job_count := job_count w + 2\<rparr>"
    obtain w1 where w1: "snd (run_state (publish_started ?p ?st e') ?w) =
        snd (run_state (for_each (startup_refresh ?p) (map (ds_id \<circ> ad_spec) (active_devices (g_state w1)))) w1)"
      "active_devices (g_state w1) = act" by (rule publish_started_run [of ?p ?st e' ?w]) simp
    have "map static_part (active_devices (g_state (snd (run_state (publish_started ?p ?st e') ?w)))) = map static_part act"
      unfolding w1(1) by (simp only: started_static w1(2))
    from map_static_spec [OF this] probe(2)
    have "map ad_spec (active_devices (g_state (snd (run_state (publish_started ?p ?st e') ?w)))) = [ph_spec, orp_spec]" by simp
    then show ?thesis
      using probe(1) that
      by (simp add: start_devices_def start [unfolded linked_bops] ok Let_def wire_devices active_started del: probe_devices.simps)
  qed
  have "map ad_spec (active_devices (g_state (snd (run_state (initialize ?p wire_config) initial_world)))) = [ph_spec, orp_spec]"
    by (cases "query_latency_ms wire_config \<ge> sample_interval_ms wire_config"; cases "run_state (reset ?p) (initial_world :: (NoopI2cBus any_bus, unit) world)")
      (simp_all add: initialize_def startup_from_def started new_RuntimeState_def)
  moreover have "map static_part (active_devices (g_state (wire_world rqs))) =
      map static_part (active_devices (g_state (snd (run_state (initialize ?p wire_config) initial_world))))"
    using frame_part_serving [of ?p demo_sdk rqs] by (simp add: frame_part_def wire_world_def)
  ultimately show ?thesis using map_static_spec by metis
qed

lemma wire_executor: "\<exists>e. g_executor (wire_world rqs) = Some e"
  using wire_active [of rqs] started_ok [of "linked demo_buses wire_platform" wire_config demo_sdk rqs initial_world]
  by (cases "g_executor (wire_world rqs)") (auto simp: startup_ok_def wire_world_def)

section \<open>Properties\<close>

text \<open>
  C10: The provider never speaks to a bus address that is not configured. From any startup, however the sections of any requests,
  refreshes and shutdowns interleave and at whatever point they are stopped, the bus of the executor that startup installed,
  in service or retired, is one that opening the configured bus gave, changed only by transactions of the bridge
  at addresses of configured devices and by delays, and once it has been closed it is not spoken to any more. What is
  relied on is that the EZO driver uses the transport it was given, at the address its handle was initialised for, and
  reaches the bus in no other way.
\<close>

theorem only_configured_addresses:
  assumes driver: "driver_addressed (bops p) (drv p)"
    and start: "w1 = snd (run_state (initialize p config) w)"
    and run: "interleave\<^sup>*\<^sup>* (map (activity_thread p sdk) acts, w1) (ts', w')"
    and e: "executor_at (length (retired w1)) w' = Some e"
  shows "\<exists>b. bus_open (bops p) (make_bus p config) = (I2c_ok, b) \<and> served_at p (device_addresses config) b e"
proof -
  let ?A = "addresses_of (inventory w1)" and ?k = "length (retired w1)"
  let ?B = "{b'. \<exists>b. bus_open (bops p) (make_bus p config) = (I2c_ok, b) \<and> talk (bops p) (device_addresses config) b b'}"
  have ok: "shared_ok p (inventory w1) w1" using initialize_ok [of p config w] by (simp add: start shared_ok_def)
  have history: "bus_history p config w1" using initialize_bus [OF driver, of config w] by (simp add: start)
  have "serves p ?A ?B ?k w1"
    using history by (auto simp: serves_def bus_history_def executor_at_def intro: served_at_bus)
  then obtain b where b: "b \<in> ?B" "served_at p ?A b e"
    using serving.activities_accounted(3) [OF _ run ok, of ?B ?k] driver e unfolding serves_def by blast
  obtain b1 n where b1: "talk (bops p) ?A b b1" "the (ex_bus e) = (bus_close (bops p) ^^ n) b1" "0 < n \<longrightarrow> \<not> ex_running e"
    using b(2) by (auto simp: served_at_def)
  have "talk (bops p) (device_addresses config) b b1"
    using b1(1) started_inventory [of p config w] unfolding start by (rule talk_mono)
  then show ?thesis using b(1) b1(2,3) unfolding served_at_def by (blast intro: talk_trans)
qed

theorem only_configured_addresses_witness:
  "\<exists>e b. g_executor (wire_world [Do_call ''ph0'' kFunctionFind []]) = Some e \<and>
     served_at (linked demo_buses wire_platform) {0x63, 0x62} b e"
proof -
  let ?p = "linked demo_buses wire_platform" and ?rq = "Do_call ''ph0'' kFunctionFind []" and ?w = "wire_world []"
  have driver: "driver_addressed (bops ?p) (drv ?p)" using wire_addressed by simp
  have start: "?w = snd (run_state (initialize ?p wire_config) initial_world)" by (simp add: wire_world_def)
  have ends: "snd (all_in_turn ?p demo_sdk [A_request ?rq] ?w) = wire_world [?rq]"
    by (simp add: wire_world_def split_beta)
  obtain e where e: "g_executor (wire_world [?rq]) = Some e" using wire_executor by blast
  have "retired (wire_world [?rq]) = retired ?w"
    using none_retired.request_R [OF refl, of ?p demo_sdk ?rq ?w] by (simp add: wire_world_def)
  then have at: "executor_at (length (retired ?w)) (snd (all_in_turn ?p demo_sdk [A_request ?rq] ?w)) = Some e"
    unfolding ends using e by (simp add: executor_at_def)
  have "device_addresses wire_config = {0x63, 0x62}"
    by (simp add: device_addresses_def wire_config_def ph_spec_def orp_spec_def device_address_def)
  then show ?thesis using only_configured_addresses [OF driver start run_in_turn at] e by auto
qed

text \<open>
  C11: In mock mode serving one device leaves every other device untouched, down to the simulated probe. For a loaded
  configuration without fault injection, after any startup and any requests, a request for one device leaves the mock
  bus's state of every other active device, its calibration, compensation and pending commands included, and everything
  the provider recorded of that device exactly as they were.
\<close>

theorem mock_devices_isolated:
  fixes w0 :: "('x any_bus, 'r) world"
  assumes driver: "driver_addressed (any_ops (sdk_bus_ops sb)) (drv p)"
    and config: "config_ok config" "is_mock_mode config" "\<not> fault_any p (snd (split_bus_query p (bus_path config)))"
    and w: "w = fold (serve (linked sb p) sdk) rqs (snd (run_state (initialize (linked sb p) config) w0))"
    and j: "active_device j w = Some d" "j \<noteq> request_device rq"
  shows "\<exists>e b e' b'. g_executor w = Some e \<and> ex_bus e = Some (Canned_bus b) \<and>
    g_executor (serve (linked sb p) sdk rq w) = Some e' \<and> ex_bus e' = Some (Canned_bus b') \<and>
    state_for (device_address (ad_spec d)) b' = state_for (device_address (ad_spec d)) b \<and>
    active_device j (serve (linked sb p) sdk rq w) = Some d"
proof -
  let ?p = "linked sb p" and ?i = "request_device rq"
  let ?w' = "serve ?p sdk rq w"
  define A where "A = {a. \<exists>d. active_device ?i w = Some d \<and> a = device_address (ad_spec d)}"
  have driver': "driver_addressed (bops ?p) (drv ?p)" using driver by (simp add: linked_def)
  have started: "startup_ok ?p config (g_state w) (g_executor w)" "world_ok ?p w" unfolding w using started_ok by blast+
  have notin: "device_address (ad_spec d) \<notin> A"
  proof
    assume "device_address (ad_spec d) \<in> A"
    then obtain d1 where d1: "active_device ?i w = Some d1" "device_address (ad_spec d1) = device_address (ad_spec d)"
      by (auto simp: A_def)
    have "ad_spec d1 \<noteq> ad_spec d"
      using started_specs(2) [OF started(1) d1(1)] started_specs(2) [OF started(1) j(1)] j(2) by auto
    from distinct_addresses [OF config(1) started_specs(1) [OF started(1) d1(1)] started_specs(1) [OF started(1) j(1)] this] d1(2)
    show False by simp
  qed
  obtain e where e: "g_executor w = Some e"
    using started(1) j(1) by (cases "g_executor w") (auto simp: startup_ok_def active_device_def find_active_device_unlocked_def)
  then have "ex_bus e \<noteq> None" using started(2) by (auto simp: world_ok_def idle_def)
  moreover have "bus_history ?p config w"
    unfolding w using initialize_bus [OF driver', of config w0] serving_bus by blast
  ultimately obtain b where b: "ex_bus e = Some (Canned_bus b)" using mock_bus_history [OF _ e] config(2,3) by blast
  have "addressed_in ?p A {?i} w" using driver' by (simp add: addressed_in_def A_def)
  then have "bus_kept (talk (bops ?p) A) w ?w'"
    using stays_serve [of rq "{?i}" ?p A w sdk] by (simp add: stays_def)
  then obtain e' where e': "g_executor ?w' = Some e'" "talk (bops ?p) A (Canned_bus b) (the (ex_bus e'))"
    using e b by (auto simp: bus_kept_def option_rel_Some1)
  have "ex_bus e' \<noteq> None" using world_ok_serve [OF started(2), of sdk rq] e'(1) by (auto simp: world_ok_def idle_def)
  moreover obtain b' where b': "the (ex_bus e') = Canned_bus b'" "talk canned_ops A b b'"
    using linked_talk e'(2) by (metis linked_bops)
  moreover have "state_for (device_address (ad_spec d)) b' = state_for (device_address (ad_spec d)) b"
    using canned_talk [OF b'(2)] notin by (intro state_for_kept) simp_all
  moreover have "active_device j ?w' = Some d"
    unfolding active_device_others [OF others.request_R [OF refl] j(2)] by (rule j(1))
  ultimately show ?thesis using e e'(1) b by (intro exI [of _ e] exI [of _ b] exI [of _ e'] exI [of _ b']) auto
qed

theorem mock_devices_isolated_witness:
  "\<exists>d b b' e e'. active_device ''orp0'' (wire_world []) = Some d \<and> g_executor (wire_world []) = Some e \<and> ex_bus e = Some (Canned_bus b) \<and>
     g_executor (wire_world [Do_call ''ph0'' kFunctionFind []]) = Some e' \<and> ex_bus e' = Some (Canned_bus b') \<and>
     state_for 0x62 b' = state_for 0x62 b"
proof -
  let ?w = "wire_world []"
  have "find (has_id ''orp0'') (active_devices (g_state ?w)) \<noteq> None"
    using wire_active [of "[]"] by (auto simp: find_None_iff has_id_def orp_spec_def map_eq_Cons_conv)
  then obtain d where d: "active_device ''orp0'' ?w = Some d" by (auto simp: active_device_def find_active_device_unlocked_def)
  have "d \<in> set (active_devices (g_state ?w))" "ds_id (ad_spec d) = ''orp0''"
    using d find_SomeD by (fastforce simp: active_device_def find_active_device_unlocked_def has_id_def)+
  then have "ad_spec d = orp_spec" using wire_active [of "[]"] by (auto simp: map_eq_Cons_conv ph_spec_def)
  then have a: "device_address (ad_spec d) = 0x62" by (simp add: orp_spec_def device_address_def)
  have "driver_addressed (any_ops (sdk_bus_ops demo_buses)) (drv wire_platform)" using wire_addressed by (simp add: wire_platform_def)
  moreover have "\<not> fault_any wire_platform (snd (split_bus_query wire_platform (bus_path wire_config)))" by (simp add: wire_platform_def)
  ultimately show ?thesis
    using mock_devices_isolated [of demo_buses wire_platform wire_config ?w demo_sdk "[]" initial_world "''orp0''" d
        "Do_call ''ph0'' kFunctionFind []"] wire_config_ok d a
    by (auto simp: wire_world_def)
qed

end
