(* ===== verification/Ezo_Calibration.thy ===== *)
theory Ezo_Calibration
  imports Ezo_Calls Ezo_Text
begin

text \<open>
  Calibrating a probe through \<^verbatim>\<open>call()\<close> (\<^verbatim>\<open>src/core/ezo_provider_runtime.cpp\<close>): a DO point is taken at
  the default compensation, and the calibration level published after a calibration is one read after it. What is
  relied on of the EZO driver and a DO probe is \<open>do_probe\<close>.
\<close>

section \<open>A probe that holds what it is told\<close>

text \<open>
  A command carries its value in decimal with a fixed number of digits after the point, and the probe takes the number it reads there.
\<close>

definition told :: "u8 \<Rightarrow> double \<Rightarrow> double" where
  "told decimals x = strtod (printf_fixed (unat decimals) x)"

definition told_values :: "Compensation \<Rightarrow> Compensation" where
  "told_values v = \<lparr>temperature_c = map_option (told 2) (temperature_c v), salinity_us_cm = map_option (told 1) (salinity_us_cm v),
     pressure_kpa = map_option (told 2) (pressure_kpa v)\<rparr>"

text \<open>
  What the driver's manual and the probe's data sheet promise, with \<open>now\<close> the compensation the probe holds and
  \<open>next_up\<close> the one it holds once it has processed the command it was sent last. A command to set one value, when the
  driver says it was sent, asks for what was held with that value replaced; \<^verbatim>\<open>Cal\<close> asks for no change. The probe
  may process the command at any time while it is waited for or read from, and has done so when it answers success.
\<close>

definition do_probe ::
    "('b, 'm) bus_ops_scheme \<Rightarrow> ('b, 'h, 'n) ezo_driver_scheme \<Rightarrow> 'h \<Rightarrow> ('b \<Rightarrow> Compensation) \<Rightarrow> ('b \<Rightarrow> Compensation) \<Rightarrow> bool" where
  "do_probe ops dv dev now next_up \<longleftrightarrow>
     (\<forall>x k b hint b'. run_state (ezo_do_send_temperature_set dv dev x k) b = ((EZO_OK, hint), b') \<longrightarrow>
        next_up b' = (now b)\<lparr>temperature_c := Some (told k x)\<rparr>) \<and>
     (\<forall>x k b hint b'. run_state (ezo_do_send_salinity_set dv dev x EZO_DO_SALINITY_UNIT_MICROSIEMENS k) b = ((EZO_OK, hint), b') \<longrightarrow>
        next_up b' = (now b)\<lparr>salinity_us_cm := Some (told k x)\<rparr>) \<and>
     (\<forall>x k b hint b'. run_state (ezo_do_send_pressure_set dv dev x k) b = ((EZO_OK, hint), b') \<longrightarrow>
        next_up b' = (now b)\<lparr>pressure_kpa := Some (told k x)\<rparr>) \<and>
     (\<forall>pt b r hint b'. run_state (ezo_do_send_calibration dv dev pt) b = ((r, hint), b') \<longrightarrow>
        now b' = now b \<and> (r = EZO_OK \<longrightarrow> next_up b' = now b)) \<and>
     (\<forall>us b. next_up (bus_delay_us ops us b) = next_up b \<and> now (bus_delay_us ops us b) \<in> {now b, next_up b}) \<and>
     (\<forall>n b r s b'. run_state (ezo_read_response dv dev n) b = ((r, s), b') \<longrightarrow>
        next_up b' = next_up b \<and> now b' \<in> {now b, next_up b} \<and> (r = EZO_OK \<and> s = EZO_STATUS_SUCCESS \<longrightarrow> now b' = next_up b))"

lemma probe_waits:
  assumes "do_probe ops dv dev now next_up" and "run_state (wait_for_timing_hint ops dv d hint) b = (u, b')"
  shows "next_up b' = next_up b \<and> now b' \<in> {now b, next_up b}"
  using assms by (auto simp: wait_for_timing_hint_def bus_delay_def do_probe_def split: if_splits)

lemma probe_answers_loop:
  assumes probe: "do_probe ops dv dev now next_up" and "run_state (read_command_response_loop ops dv dev r) b = (st, b')"
  shows "next_up b' = next_up b \<and> now b' \<in> {now b, next_up b} \<and> (is_ok st \<longrightarrow> now b' = next_up b)"
  using assms(2)
proof (induction "kPendingRereads - r" arbitrary: r b rule: less_induct)
  case less
  obtain res s b1 where read: "run_state (ezo_read_response dv dev 32) b = ((res, s), b1)" by (metis surj_pair)
  have b1: "next_up b1 = next_up b" "now b1 \<in> {now b, next_up b}" "res = EZO_OK \<and> s = EZO_STATUS_SUCCESS \<Longrightarrow> now b1 = next_up b"
    using probe read by (simp_all add: do_probe_def)
  show ?case
  proof (cases "res = EZO_OK \<and> s = EZO_STATUS_NOT_READY \<and> r < kPendingRereads")
    case True
    obtain u b2 where wait: "run_state (wait_for_timing_hint ops dv dev kPendingRereadMs) b1 = (u, b2)" by (metis surj_pair)
    have again: "run_state (read_command_response_loop ops dv dev (Suc r)) b2 = (st, b')"
      using less.prems True by (subst (asm) read_command_response_loop.simps) (simp add: read wait)
    have "kPendingRereads - Suc r < kPendingRereads - r" using True by linarith
    from less.hyps [OF this again] probe_waits [OF probe wait] b1 show ?thesis by auto
  next
    case False
    then have "b' = b1 \<and> (is_ok st \<longrightarrow> res = EZO_OK \<and> s = EZO_STATUS_SUCCESS)"
      using less.prems by (subst (asm) read_command_response_loop.simps) (cases "res = EZO_OK"; cases s; auto simp: read)
    then show ?thesis using b1 by auto
  qed
qed

lemma probe_answers:
  "do_probe ops dv dev now next_up \<Longrightarrow> run_state (read_command_response ops dv dev) b = (st, b') \<Longrightarrow>
     next_up b' = next_up b \<and> now b' \<in> {now b, next_up b} \<and> (is_ok st \<longrightarrow> now b' = next_up b)"
  unfolding read_command_response_def by (rule probe_answers_loop)

text \<open>One command, sent, waited for and accepted.\<close>

lemma probe_accepts:
  assumes probe: "do_probe ops dv dev now next_up" and "run_state (finish ops dv dev send context) b = (st, b')" and "is_ok st"
  obtains hint b1 where "run_state send b = ((EZO_OK, hint), b1)" and "now b' = next_up b1"
proof -
  obtain r hint b1 where send: "run_state send b = ((r, hint), b1)" by (metis surj_pair)
  have r: "r = EZO_OK" using assms(2,3) by (cases "r = EZO_OK") (auto simp: finish_def send)
  obtain u b2 where wait: "run_state (wait_for_timing_hint ops dv dev hint) b1 = (u, b2)" by (metis surj_pair)
  have "run_state (read_command_response ops dv dev) b2 = (st, b')" using assms(2) r by (simp add: finish_def send wait)
  from probe_answers [OF probe this] probe_waits [OF probe wait] assms(3) have "now b' = next_up b1" by simp
  with send r show ?thesis using that by blast
qed

lemma probe_value:
  assumes "do_probe ops dv dev now next_up" and "run_state (write_value v f) b = (st, b')" and "is_ok st"
    and "\<And>x. f x = finish ops dv dev (send x) context"
    and "\<And>x b hint b1. run_state (send x) b = ((EZO_OK, hint), b1) \<Longrightarrow> next_up b1 = upd x (now b)"
  shows "now b' = (case v of None \<Rightarrow> now b | Some x \<Rightarrow> upd x (now b))"
proof (cases v)
  case None
  then show ?thesis using assms(2) by (simp add: write_value_def)
next
  case (Some x)
  then have "run_state (finish ops dv dev (send x) context) b = (st, b')" using assms(2,4) by (simp add: write_value_def)
  from probe_accepts [OF assms(1) this assms(3)] show ?thesis using assms(5) Some by (metis option.simps(5))
qed

lemma probe_writes:
  assumes probe: "do_probe ops dv dev now next_up" and run: "run_state (do_write_compensation ops dv dev v) b = (st, b')" and "is_ok st"
  shows "now b' = merge_compensation (told_values v) (now b)"
proof -
  let ?t = "write_value (temperature_c v) (\<lambda>t. finish ops dv dev (ezo_do_send_temperature_set dv dev t 2) ''send DO temperature compensation'')"
  let ?s = "write_value (salinity_us_cm v) (\<lambda>s. finish ops dv dev
    (ezo_do_send_salinity_set dv dev s EZO_DO_SALINITY_UNIT_MICROSIEMENS 1) ''send DO salinity compensation'')"
  let ?p = "write_value (pressure_kpa v) (\<lambda>p. finish ops dv dev (ezo_do_send_pressure_set dv dev p 2) ''send DO pressure compensation'')"
  obtain s1 b1 where t: "run_state ?t b = (s1, b1)" by fastforce
  obtain s2 b2 where s: "run_state ?s b1 = (s2, b2)" by fastforce
  obtain s3 b3 where p: "run_state ?p b2 = (s3, b3)" by fastforce
  have ok: "is_ok s1" "is_ok s2" "is_ok s3" "b' = b3"
    using run assms(3) by (auto simp: do_write_compensation_def t s p split: if_splits)
  have "now b1 = (case temperature_c v of None \<Rightarrow> now b | Some x \<Rightarrow> (now b)\<lparr>temperature_c := Some (told 2 x)\<rparr>)"
    by (rule probe_value [OF probe t ok(1) refl]) (use probe in \<open>simp add: do_probe_def\<close>)
  moreover have "now b2 = (case salinity_us_cm v of None \<Rightarrow> now b1 | Some x \<Rightarrow> (now b1)\<lparr>salinity_us_cm := Some (told 1 x)\<rparr>)"
    by (rule probe_value [OF probe s ok(2) refl]) (use probe in \<open>simp add: do_probe_def\<close>)
  moreover have "now b3 = (case pressure_kpa v of None \<Rightarrow> now b2 | Some x \<Rightarrow> (now b2)\<lparr>pressure_kpa := Some (told 2 x)\<rparr>)"
    by (rule probe_value [OF probe p ok(3) refl]) (use probe in \<open>simp add: do_probe_def\<close>)
  ultimately show ?thesis
    by (cases "now b") (simp add: ok(4) merge_compensation_def told_values_def or_else_def split: option.split)
qed

text \<open>The default compensation survives being printed.\<close>

lemma round_half_even_near:
  assumes "\<bar>q - of_int n\<bar> < 1 / 2"
  shows "round_half_even q = n"
proof -
  have "\<bar>of_int (round_half_even q) - of_int n\<bar> < (1 :: rat)" using round_half_even_error [of q] assms by linarith
  then show ?thesis by linarith
qed

lemma told_printed: "0 \<le> q \<Longrightarrow> 0 < unat k \<Longrightarrow> told k (Fin q) = round_double (printed (unat k) q)"
  using strtod_printf_fixed [of q "unat k" "[]"] by (simp add: told_def ends_number_def del: printf_fixed.simps)

lemma told_defaults: "told_values do_defaults = do_defaults"
proof -
  let ?q = "1013 / 10 :: rat"
  have r: "round_double ?q = Fin (round_rat ?q)" by (rule round_double_Fin) simp
  have near: "\<bar>round_rat ?q - ?q\<bar> \<le> 1 / 1000000" by (rule round_rat_small) simp_all
  have "\<bar>r - ?q\<bar> \<le> 1 / 1000000 \<Longrightarrow> \<bar>r * 100 - 10130\<bar> < 1 / 2" for r :: rat by linarith
  from this [OF near] have "\<bar>round_rat ?q * 10 ^ 2 - of_int 10130\<bar> < 1 / 2" by simp
  then have "round_half_even (round_rat ?q * 10 ^ 2) = 10130" by (rule round_half_even_near)
  then have digits: "printed (unat (2 :: u8)) (round_rat ?q) = ?q" by (simp add: printed_def)
  have "0 \<le> round_rat ?q" by (rule round_rat_nonneg) simp
  then have "told 2 (Fin (round_rat ?q)) = round_double (printed (unat (2 :: u8)) (round_rat ?q))" by (rule told_printed) simp
  then have "told 2 (round_double ?q) = round_double ?q" by (simp only: r digits)
  moreover have "told 2 (Fin 20) = Fin 20" "told 1 (Fin 0) = Fin 0"
    using round_half_even_of_int [of 2000] round_half_even_of_int [of 0] round_rat_of_int [of 20]
    by (simp_all add: told_printed printed_def round_double_Fin)
  ultimately show ?thesis
    by (simp add: told_values_def do_defaults_def kDoDefaultTemperatureC_def kDoDefaultSalinityUsCm_def kDoDefaultPressureKpa_def)
qed

section \<open>Calibrating dissolved oxygen\<close>

lemma merge_defaults: "merge_compensation do_defaults c = do_defaults"
  by (simp add: merge_compensation_def do_defaults_def or_else_def)

lemma do_writer: "write_compensation (adapter_for ops dv Do) = Some (do_write_compensation ops dv)"
  by (simp add: adapter_for.simps do_kAdapter_def)

lemma do_calibration_job:
  assumes "bind_ezo_i2c_device (bops p) (drv p) (word_of_int (ds_address spec)) (new_binding (drv p)) = (bst, binding)"
    and "is_ok bst" and "ds_type spec = Do"
  shows "run_state (call_job p spec kFunctionCalibrate args) b =
     (case run_state (do_write_compensation (bops p) (drv p) (bd_device binding) do_defaults) b of (st0, b1) \<Rightarrow>
        if \<not> is_ok st0 then
          ((make_status (code st0) (''could not set the default compensation a DO calibration needs, so the calibration was not sent: '' @
             message st0), ()), snd (run_state (do_write_compensation (bops p) (drv p) (bd_device binding) (restore args)) b1))
        else map_prod (\<lambda>st. (st, ())) id (run_state (run_command p kFunctionCalibrate True args (do_write_compensation (bops p) (drv p))
          (ezo_do_send_calibration (drv p) (bd_device binding) (calibration_point args)) (bd_device binding)) b1))"
  by (simp add: call_job_def bound_job_def assms do_writer call_body_def is_do_calibration_def send_command_def function_numbers
      Let_def split: prod.split)

text \<open>
  C14: a DO point is calibrated at the default compensation only, and afterwards the earlier values go back. On a probe that
  keeps the promises \<open>do_probe\<close>: if the probe refuses one of the defaults, \<^verbatim>\<open>Cal\<close> is not sent, the earlier values are
  written and the call fails. Otherwise it holds exactly the defaults when \<^verbatim>\<open>Cal\<close> is sent and until it has answered; the
  call's status is that answer; and the last thing done to the bus is the write of the earlier values, which the probe holds
  again, as its commands print them, when it accepts them. If sending \<^verbatim>\<open>Cal\<close> fails the job returns at once and the probe
  is left at the defaults.
\<close>

theorem do_calibration_at_defaults:
  fixes now next_up :: "'b \<Rightarrow> Compensation"
  assumes probe: "do_probe (bops p) (drv p) (bd_device binding) now next_up"
    and bind: "bind_ezo_i2c_device (bops p) (drv p) (word_of_int (ds_address spec)) (new_binding (drv p)) = (bst, binding)"
      "is_ok bst" "ds_type spec = Do"
    and run: "run_state (call_job p spec kFunctionCalibrate args) b = ((st, ()), b')"
    and defaults: "run_state (do_write_compensation (bops p) (drv p) (bd_device binding) do_defaults) b = (st0, b1)"
    and cal: "run_state (ezo_do_send_calibration (drv p) (bd_device binding) (calibration_point args)) b1 = ((result, hint), b2)"
  shows "if \<not> is_ok st0
    then \<not> is_ok st \<and> b' = snd (run_state (do_write_compensation (bops p) (drv p) (bd_device binding) (restore args)) b1)
    else now b1 = do_defaults \<and> now b2 = do_defaults \<and>
      (if result \<noteq> EZO_OK then \<not> is_ok st \<and> b' = b2
       else \<exists>b3 st3.
         run_state (read_command_response (bops p) (drv p) (bd_device binding))
           (snd (run_state (wait_for_timing_hint (bops p) (drv p) (bd_device binding) hint) b2)) = (st, b3) \<and>
         now b3 = do_defaults \<and>
         run_state (do_write_compensation (bops p) (drv p) (bd_device binding) (restore args)) b3 = (st3, b') \<and>
         (is_ok st3 \<longrightarrow> now b' = merge_compensation (told_values (restore args)) do_defaults))"
proof (cases "is_ok st0")
  case False
  then show ?thesis using run defaults by (auto simp: do_calibration_job [OF bind] is_ok_def)
next
  case True
  let ?dev = "bd_device binding"
  have b1: "now b1 = do_defaults" using probe_writes [OF probe defaults True] by (simp add: told_defaults merge_defaults)
  with probe cal have b2: "now b2 = do_defaults" "result = EZO_OK \<Longrightarrow> next_up b2 = do_defaults" by (auto simp: do_probe_def)
  have job: "run_state (run_command p kFunctionCalibrate True args (do_write_compensation (bops p) (drv p))
      (ezo_do_send_calibration (drv p) ?dev (calibration_point args)) ?dev) b1 = (st, b')"
    using run defaults True by (auto simp: do_calibration_job [OF bind] map_prod_def split: prod.splits)
  show ?thesis
  proof (cases "result = EZO_OK")
    case False
    then show ?thesis using job cal b1 b2 True by (auto simp: run_command_def)
  next
    case sent: True
    obtain u w where wait: "run_state (wait_for_timing_hint (bops p) (drv p) ?dev hint) b2 = (u, w)" by (metis surj_pair)
    obtain st1 b3 where read: "run_state (read_command_response (bops p) (drv p) ?dev) w = (st1, b3)" by fastforce
    obtain st3 b4 where restored: "run_state (do_write_compensation (bops p) (drv p) ?dev (restore args)) b3 = (st3, b4)" by fastforce
    have "now b3 = do_defaults" using probe_waits [OF probe wait] probe_answers [OF probe read] b2 sent by auto
    moreover have "b' = b4" "st = st1" using job cal sent by (simp_all add: run_command_def function_numbers wait read restored)
    ultimately show ?thesis using probe_writes [OF probe restored] True sent b1 b2 wait read restored by auto
  qed
qed

text \<open>A probe that processes a command when its answer is read; the bus is what it holds and what it was told last.\<close>

definition demo_do_driver :: "(Compensation \<times> Compensation, unit) ezo_driver" where
  "demo_do_driver = stub_driver
     \<lparr>ezo_do_send_temperature_set := (\<lambda>_ x k. State (\<lambda>(c, n). ((EZO_OK, 300), (c, c\<lparr>temperature_c := Some (told k x)\<rparr>)))),
      ezo_do_send_salinity_set := (\<lambda>_ x u k. State (\<lambda>(c, n). ((EZO_OK, 300), (c, c\<lparr>salinity_us_cm := Some (told k x)\<rparr>)))),
      ezo_do_send_pressure_set := (\<lambda>_ x k. State (\<lambda>(c, n). ((EZO_OK, 300), (c, c\<lparr>pressure_kpa := Some (told k x)\<rparr>)))),
      ezo_do_send_calibration := (\<lambda>_ pt. State (\<lambda>(c, n). ((EZO_OK, 1300), (c, c)))),
      ezo_read_response := (\<lambda>_ _. State (\<lambda>(c, n). ((EZO_OK, EZO_STATUS_SUCCESS), (n, n))))\<rparr>"

definition demo_do_platform :: "(Compensation \<times> Compensation, unit, unit) platform" where
  "demo_do_platform =
     \<lparr>claim_key = (\<lambda>bus a. bus), add_claim = (\<lambda>d k. d), bops = stub_ops, drv = demo_do_driver, linux_build = False,
      split_bus_query = (\<lambda>path. (path, '''')), canned_bus = (\<lambda>_ _. (empty_Compensation, empty_Compensation)),
      fault_any = (\<lambda>_. False), fault_bus = (\<lambda>b _. b), linux_bus = (\<lambda>_ _. (empty_Compensation, empty_Compensation)),
      noop_bus = (\<lambda>_. (empty_Compensation, empty_Compensation)), i2c_check_host = (\<lambda>_. []), host_exit_code = (\<lambda>_. 0),
      readiness_diagnostics = (\<lambda>_ _. None), system_clock = (\<lambda>n. int n), steady_clock = (\<lambda>n. int n),
      schedule_of = (\<lambda>_. InTime)\<rparr>"

definition demo_do_spec :: DeviceSpec where
  "demo_do_spec = \<lparr>ds_id = ''do0'', ds_type = Do, ds_label = '''', ds_address = 97\<rparr>"

definition demo_do_args :: ControlArgs where
  "demo_do_args = new_ControlArgs\<lparr>restore := empty_Compensation\<lparr>temperature_c := Some (Fin 30)\<rparr>\<rparr>"

lemma demo_do_platform_sel [simp]: "bops demo_do_platform = stub_ops" "drv demo_do_platform = demo_do_driver"
  by (simp_all add: demo_do_platform_def)

lemma demo_do_probe: "do_probe stub_ops demo_do_driver () fst snd"
  by (auto simp: do_probe_def demo_do_driver_def stub_for_def stub_def stub_ops_def)

lemma demo_do_bind: "bind_ezo_i2c_device stub_ops demo_do_driver a h = (Status_ok, \<lparr>bd_device = (), initialized = True\<rparr>)"
  by (simp add: bind_ezo_i2c_device_def demo_do_driver_def stub_for_def)

lemma demo_do_reads: "run_state (read_command_response stub_ops demo_do_driver ()) b = (Status_ok, snd b, snd b)"
  by (cases b) (simp add: read_command_response_def read_command_response_loop.simps demo_do_driver_def)

lemma demo_do_finish:
  "run_state send b = ((EZO_OK, hint), b1) \<Longrightarrow> fst (run_state (finish stub_ops demo_do_driver () send context) b) = Status_ok"
  by (simp add: finish_def demo_do_reads split: prod.split)

lemma demo_do_value:
  assumes "\<And>x b. \<exists>hint b1. run_state (send x) b = ((EZO_OK, hint), b1)"
  shows "fst (run_state (write_value v (\<lambda>x. finish stub_ops demo_do_driver () (send x) context)) b) = Status_ok"
proof (cases v)
  case (Some x)
  then show ?thesis using assms [of x b] by (auto simp: write_value_def demo_do_finish)
qed (simp add: write_value_def)

lemma demo_do_writes: "is_ok (fst (run_state (do_write_compensation stub_ops demo_do_driver () v) b))"
proof -
  have sends: "\<exists>hint b1. run_state (ezo_do_send_temperature_set demo_do_driver () x 2) b = ((EZO_OK, hint), b1)"
    "\<exists>hint b1. run_state (ezo_do_send_salinity_set demo_do_driver () x EZO_DO_SALINITY_UNIT_MICROSIEMENS 1) b = ((EZO_OK, hint), b1)"
    "\<exists>hint b1. run_state (ezo_do_send_pressure_set demo_do_driver () x 2) b = ((EZO_OK, hint), b1)" for x b
    by (cases b; simp add: demo_do_driver_def)+
  have ok: "run_state (write_value v (\<lambda>x. finish stub_ops demo_do_driver () (send x) ctx)) b = (st, b') \<Longrightarrow> is_ok st"
    if "\<And>x b. \<exists>hint b1. run_state (send x) b = ((EZO_OK, hint), b1)" for send v ctx b st b'
    using demo_do_value [of send v ctx b, OF that] by simp
  show ?thesis
    by (auto simp: do_write_compensation_def split: prod.split dest!: ok [OF sends(1)] ok [OF sends(2)] ok [OF sends(3)])
qed

theorem do_calibration_at_defaults_witness:
  "case run_state (call_job demo_do_platform demo_do_spec kFunctionCalibrate demo_do_args) (restore demo_do_args, empty_Compensation)
   of ((st, _), b') \<Rightarrow> is_ok st \<and> fst b' = do_defaults\<lparr>temperature_c := Some (Fin 30)\<rparr>"
proof -
  let ?b = "(restore demo_do_args, empty_Compensation)"
  obtain st b' where run: "run_state (call_job demo_do_platform demo_do_spec kFunctionCalibrate demo_do_args) ?b = ((st, ()), b')"
    by (metis surj_pair old.unit.exhaust)
  obtain st0 b1 where defaults: "run_state (do_write_compensation stub_ops demo_do_driver () do_defaults) ?b = (st0, b1)" by (metis surj_pair)
  obtain b2 where cal: "run_state (ezo_do_send_calibration demo_do_driver () (calibration_point demo_do_args)) b1 = ((EZO_OK, 1300), b2)"
    by (cases b1) (simp add: demo_do_driver_def)
  have ok: "is_ok st0" using demo_do_writes [of do_defaults ?b] defaults by simp
  have type: "ds_type demo_do_spec = Do" by (simp add: demo_do_spec_def)
  have "\<exists>b3 st3. run_state (read_command_response stub_ops demo_do_driver ())
        (snd (run_state (wait_for_timing_hint stub_ops demo_do_driver () 1300) b2)) = (st, b3) \<and>
      run_state (do_write_compensation stub_ops demo_do_driver () (restore demo_do_args)) b3 = (st3, b') \<and>
      (is_ok st3 \<longrightarrow> fst b' = merge_compensation (told_values (restore demo_do_args)) do_defaults)"
    using do_calibration_at_defaults [of demo_do_platform "\<lparr>bd_device = (), initialized = True\<rparr>" fst snd demo_do_spec Status_ok
        demo_do_args ?b st b' st0 b1 EZO_OK 1300 b2] demo_do_probe demo_do_bind type run defaults cal ok
    by auto
  then obtain b3 st3 where read: "run_state (read_command_response stub_ops demo_do_driver ())
        (snd (run_state (wait_for_timing_hint stub_ops demo_do_driver () 1300) b2)) = (st, b3)"
      and restored: "run_state (do_write_compensation stub_ops demo_do_driver () (restore demo_do_args)) b3 = (st3, b')"
      and holds: "is_ok st3 \<longrightarrow> fst b' = merge_compensation (told_values (restore demo_do_args)) do_defaults" by blast
  have "is_ok st" using read by (auto simp: demo_do_reads)
  moreover have "is_ok st3" using demo_do_writes [of "restore demo_do_args" b3] restored by simp
  moreover have "told 2 (Fin 30) = Fin 30"
    using round_half_even_of_int [of 3000] round_rat_of_int [of 30] by (simp add: told_printed printed_def round_double_Fin)
  ultimately show ?thesis using run holds
    by (simp add: told_values_def demo_do_args_def merge_compensation_def or_else_def empty_Compensation_def do_defaults_def)
qed

section \<open>The level published after a calibration\<close>

lemma check_compensation_spec:
  assumes "run_state (check_compensation p i) w = (st, w')" and "active_device i w = Some d"
  shows "\<exists>d'. active_device i w' = Some d' \<and> ad_spec d' = ad_spec d"
  using check_compensation_device [OF assms] keeps_updates(4) by (force simp: keeps_spec_def)

text \<open>After the command of a call that calibrates or clears, only a DO calibration touches the bus before the level is read.\<close>

lemma calibration_read_back:
  assumes "run_state (after_compensation p i fid (ds_type (ad_spec d)) name args ok) w1 = (u, w2)"
    and "active_device i w1 = Some d" and "fid \<in> {kFunctionCalibrate, kFunctionClearCalibration}"
  shows "g_executor w2 = g_executor (if is_do_calibration fid (ds_type (ad_spec d)) then snd (run_state (check_compensation p i) w1) else w1) \<and>
    (\<exists>d'. active_device i w2 = Some d' \<and> ad_spec d' = ad_spec d)"
proof -
  have not_set: "fid \<noteq> kFunctionSetCompensation" using assms(3) by (auto simp: function_numbers)
  show ?thesis
  proof (cases "is_do_calibration fid (ds_type (ad_spec d))")
    case True
    obtain st w where check: "run_state (check_compensation p i) w1 = (st, w)" by fastforce
    then have "w2 = w \<or> (\<exists>l. w2 = w\<lparr>logged := l\<rparr>)"
      using assms(1) True not_set by (auto simp: after_compensation_def split: if_splits)
    then show ?thesis using check_compensation_spec [OF check assms(2)] True check by auto
  next
    case False
    then show ?thesis using assms not_set by (auto simp: after_compensation_def)
  qed
qed

lemma executed_job:
  assumes "run_state (execute_safe_call p d fid args timeout) w = (r, w1)" and "acr_ok r"
  shows "\<exists>e e1 st b1. g_executor w = Some e \<and> g_executor w1 = Some e1 \<and> ex_bus e1 = Some b1 \<and> is_ok st \<and>
    run_state (call_job p (ad_spec d) fid args) (the (ex_bus e)) = ((st, ()), b1)"
proof -
  have "\<exists>e e1 st b1. g_executor w = Some e \<and> g_executor w1 = Some e1 \<and> ex_bus e1 = Some b1 \<and> is_ok st \<and>
      run_state (call_job p (ad_spec d) fid args) (the (ex_bus e)) = ((st, ()), b1)"
    if "run_state (submit_i2c_job p n t (call_job p (ad_spec d) fid args)) w = ((st, out), w1)" "is_ok st" for n t st out
    using submit_i2c_job_bus [OF that] that(2) by auto
  then show ?thesis using assms by (auto simp: execute_safe_call_def Let_def split: if_splits prod.splits)
qed

lemma finish_calibration:
  assumes "run_state (finish_call p i fid name r) w = (r', w')" and "active_device i w = Some d" and "i \<noteq> ''''" and "acr_ok r"
    and "fid \<in> {kFunctionCalibrate, kFunctionClearCalibration}"
    and reader: "read_calibration_level (adapter_for (bops p) (drv p) (ds_type (ad_spec d))) = Some reader"
  shows "\<exists>d'. active_device i w' = Some d' \<and>
    (calibration_level d' = None \<and> calibration_level_error d' \<noteq> '''' \<or>
     (\<exists>e level st b'. g_executor w = Some e \<and> run_state (level_job p (ad_spec d) reader) (the (ex_bus e)) = ((st, level), b') \<and>
        is_ok st \<and> calibration_level d' = Some level \<and> calibration_level_error d' = ''''))"
proof -
  let ?n = "note_call name True '''' (system_clock p (clock_reads w)) d"
  define w1 where "w1 = snd (run_state (record_call_result p i name True '''') w)"
  have w1: "active_device i w1 = Some ?n" "g_executor w1 = g_executor w"
    using record_call_effect [OF assms(2) w1_def] assms(3) by simp_all
  have spec: "ad_spec ?n = ad_spec d" by (simp add: note_call_def)
  obtain st w2 where run: "run_state (refresh_calibration_level p i) w1 = (st, w2)" by fastforce
  from run w1(1) reader [folded spec] obtain level
    where w2: "active_device i w2 = Some (store_calibration_level (bops p) (drv p) st level ?n)"
      and read: "is_ok st \<longrightarrow> (\<exists>e b'. g_executor w1 = Some e \<and>
        run_state (level_job p (ad_spec ?n) reader) (the (ex_bus e)) = ((st, level), b'))"
    by (rule refresh_level_cases)
  have "w' = w2 \<or> (\<exists>l. w' = w2\<lparr>logged := l\<rparr>)"
    using assms(1,4,5) run by (auto simp: finish_call_def after_calibration_def w1_def split: prod.splits if_splits)
  then have "active_device i w' = Some (store_calibration_level (bops p) (drv p) st level ?n)" using w2 by auto
  with read show ?thesis unfolding spec w1(2) by (auto simp: store_calibration_level_def)
qed

text \<open>
  C39: a stale calibration level is never published after a calibration. When a validated calibrate or clear_calibration
  of a pH or DO device is answered with success, the command ran on the executor's bus and succeeded, and the level
  published afterwards is either unknown, with a reason, or what the family's reader returned on the bus as the command,
  followed for a DO calibration by the compensation check, had left it.
\<close>

theorem calibrated_level_read_after:
  assumes "run_state (call p sdk i fid args) w = (r, w')" and "active_device i w = Some d" and "i \<noteq> ''''"
    and "find_function_by_id d fid = Some spec" and "validate_call_args sdk fid (ds_type (ad_spec d)) args = Inr checked"
    and "fid \<in> {kFunctionCalibrate, kFunctionClearCalibration}" and "ds_type (ad_spec d) \<in> {Ph, Do}" and "acr_ok r"
    and w1: "w1 = snd (run_state (execute_safe_call p d fid (control_args fid d checked) (timeout_ms (rs_config (g_state w)))) w)"
    and w2: "w2 = (if is_do_calibration fid (ds_type (ad_spec d)) then snd (run_state (check_compensation p i) w1) else w1)"
  shows "(\<exists>e e1 st b1. g_executor w = Some e \<and> g_executor w1 = Some e1 \<and> ex_bus e1 = Some b1 \<and> is_ok st \<and>
      run_state (call_job p (ad_spec d) fid (control_args fid d checked)) (the (ex_bus e)) = ((st, ()), b1)) \<and>
    (\<exists>d'. active_device i w' = Some d' \<and>
      (calibration_level d' = None \<and> calibration_level_error d' \<noteq> '''' \<or>
       (\<exists>reader e2 level st b'. read_calibration_level (adapter_for (bops p) (drv p) (ds_type (ad_spec d))) = Some reader \<and>
          g_executor w2 = Some e2 \<and> run_state (level_job p (ad_spec d) reader) (the (ex_bus e2)) = ((st, level), b') \<and>
          is_ok st \<and> calibration_level d' = Some level \<and> calibration_level_error d' = '''')))"
proof -
  let ?ca = "control_args fid d checked"
  obtain r0 v where exec: "run_state (execute_safe_call p d fid ?ca (timeout_ms (rs_config (g_state w)))) w = (r0, v)"
    by (metis surj_pair)
  then have v: "v = w1" by (simp add: w1)
  obtain u w3 where after: "run_state (after_compensation p i fid (ds_type (ad_spec d)) (fn_name spec) ?ca (acr_ok r0)) w1 = (u, w3)"
    by (metis surj_pair)
  have fin: "run_state (finish_call p i fid (fn_name spec) r0) w3 = (r, w')"
    using assms(1) valid_call_steps [OF assms(2,4,5), of p] exec after v by simp
  have r: "r0 = r" using finish_call_result [of p i fid "fn_name spec" r0 w3] fin by simp
  have "active_device i w1 = Some d" using execute_safe_call_frame [OF exec] assms(2) v by simp
  from calibration_read_back [OF after this assms(6)] obtain d3
    where w3: "g_executor w3 = g_executor w2" "active_device i w3 = Some d3" "ad_spec d3 = ad_spec d" by (auto simp: w2)
  obtain reader where reader: "read_calibration_level (adapter_for (bops p) (drv p) (ds_type (ad_spec d))) = Some reader"
    using assms(7) by (auto simp: adapter_for.simps adapters)
  from executed_job [OF exec] v r assms(8) have "\<exists>e e1 st b1. g_executor w = Some e \<and> g_executor w1 = Some e1 \<and> ex_bus e1 = Some b1 \<and> is_ok st \<and>
      run_state (call_job p (ad_spec d) fid ?ca) (the (ex_bus e)) = ((st, ()), b1)" by simp
  moreover have "acr_ok r0" using r assms(8) by simp
  note finish_calibration [OF fin w3(2) assms(3) this assms(6), unfolded w3(1,3), OF reader]
  then have "\<exists>d'. active_device i w' = Some d' \<and>
      (calibration_level d' = None \<and> calibration_level_error d' \<noteq> '''' \<or>
       (\<exists>reader e2 level st b'. read_calibration_level (adapter_for (bops p) (drv p) (ds_type (ad_spec d))) = Some reader \<and>
          g_executor w2 = Some e2 \<and> run_state (level_job p (ad_spec d) reader) (the (ex_bus e2)) = ((st, level), b') \<and>
          is_ok st \<and> calibration_level d' = Some level \<and> calibration_level_error d' = ''''))"
    by (simp add: reader)
  ultimately show ?thesis by blast
qed

text \<open>A pH probe whose bus is the calibration level it holds; clearing puts it to zero.\<close>

definition demo_ph_driver :: "(nat, unit) ezo_driver" where
  "demo_ph_driver = stub_driver
     \<lparr>ezo_ph_send_clear_calibration := (\<lambda>_. State (\<lambda>n. ((EZO_OK, 300), 0))),
      ezo_read_response := (\<lambda>_ _. State (\<lambda>n. ((EZO_OK, EZO_STATUS_SUCCESS), n))),
      ezo_ph_send_calibration_query := (\<lambda>_. State (\<lambda>n. ((EZO_OK, 300), n))),
      ezo_ph_read_calibration_status := (\<lambda>_. State (\<lambda>n. ((EZO_OK, n), n)))\<rparr>"

definition demo_ph_platform :: "(nat, unit, unit) platform" where
  "demo_ph_platform = demo_platform\<lparr>drv := demo_ph_driver\<rparr>"

definition calibrated_device :: ActiveDevice where
  "calibrated_device = demo_device\<lparr>calibration_level := Some (Fin 2)\<rparr>"

definition calibrated_world :: "(nat, unit) world" where
  "calibrated_world = initial_world
     \<lparr>g_state := new_RuntimeState\<lparr>active_devices := [calibrated_device]\<rparr>,
      g_executor := Some (snd (exec_start stub_ops (BusExecutor_new (Some 2))))\<rparr>"

lemma demo_clear_job:
  "run_state (call_job demo_ph_platform (ad_spec calibrated_device) kFunctionClearCalibration args) n = ((Status_ok, ()), 0)"
  "run_state (level_job demo_ph_platform (ad_spec calibrated_device) (ph_read_calibration_level stub_ops demo_ph_driver)) n =
     ((Status_ok, double_of_int (int n)), n)"
  by (simp_all add: call_job_def level_job_def call_body_def is_do_calibration_def send_command_def function_numbers run_command_def
      read_command_response_def read_command_response_loop.simps ph_read_calibration_level_def demo_ph_platform_def
      calibrated_device_def demo_ph_driver_def demo_evaluate)

lemma calibrated_active: "active_device ''ph0'' calibrated_world = Some calibrated_device"
  by (simp add: active_device_def calibrated_world_def find_active_device_unlocked_def has_id_def calibrated_device_def
      demo_device_def demo_spec_def)

lemma calibrated_function:
  "find_function_by_id calibrated_device kFunctionClearCalibration \<noteq> None"
  "validate_call_args sdk kFunctionClearCalibration (ds_type (ad_spec calibrated_device)) [] = Inr new_ControlArgs"
  "control_args kFunctionClearCalibration calibrated_device new_ControlArgs = new_ControlArgs"
  by (simp_all add: find_function_by_id_def calibrated_device_def demo_device_def demo_spec_def build_capabilities_def
      capability_builders empty_CapabilitySet_def validate_call_args_def control_args_def is_do_calibration_def function_numbers)

lemma calibrated_clears:
  "acr_ok (fst (run_state (execute_safe_call demo_ph_platform calibrated_device kFunctionClearCalibration new_ControlArgs t) calibrated_world))"
proof -
  have "ezo_product_resolve_timing_hint demo_ph_driver x EZO_COMMAND_GENERIC = (EZO_OK, 300)" for x
    by (simp add: demo_ph_driver_def stub_for_def)
  moreover have "expected_product (adapter_for stub_ops demo_ph_driver Ph) \<noteq> EZO_PRODUCT_UNKNOWN"
    by (simp add: adapter_for.simps ph_kAdapter_def)
  moreover have "fst (run_state (submit_i2c_job demo_ph_platform n t' (call_job demo_ph_platform (ad_spec calibrated_device)
      kFunctionClearCalibration new_ControlArgs)) calibrated_world) = (Status_ok, Some ())" for n t'
    by (simp add: submit_i2c_job_def calibrated_world_def exec_start_def BusExecutor_new_def stub_ops_def submit_def
        submit_refused_def Let_def demo_clear_job) (simp add: demo_ph_platform_def demo_platform_def)
  then have "run_state (submit_i2c_job demo_ph_platform n t' (call_job demo_ph_platform (ad_spec calibrated_device)
      kFunctionClearCalibration new_ControlArgs)) calibrated_world = ((st, out), w') \<Longrightarrow> is_ok st" for n t' st out w'
    by (metis fst_conv is_ok_Status_ok)
  moreover have "bops demo_ph_platform = stub_ops" "drv demo_ph_platform = demo_ph_driver" "ds_type (ad_spec calibrated_device) = Ph"
    by (simp_all add: demo_ph_platform_def calibrated_device_def demo_type)
  moreover have "kFunctionClearCalibration \<noteq> kFunctionCalibrate" by (simp add: function_numbers)
  ultimately show ?thesis by (auto simp: execute_safe_call_def Let_def split: prod.split)
qed

theorem calibrated_level_read_after_witness:
  "\<exists>d'. active_device ''ph0'' (snd (run_state (call demo_ph_platform demo_sdk ''ph0'' kFunctionClearCalibration []) calibrated_world)) =
     Some d' \<and> calibration_level d' \<in> {None, Some (Fin 0)} \<and> calibration_level calibrated_device = Some (Fin 2)"
proof -
  obtain spec where spec: "find_function_by_id calibrated_device kFunctionClearCalibration = Some spec"
    using calibrated_function(1) by blast
  obtain r w' where run: "run_state (call demo_ph_platform demo_sdk ''ph0'' kFunctionClearCalibration []) calibrated_world = (r, w')"
    by fastforce
  have ok: "acr_ok r"
    using valid_call_result [OF calibrated_active spec calibrated_function(2), of demo_ph_platform demo_sdk] calibrated_clears run
    by (simp add: calibrated_function(3))
  have type: "ds_type (ad_spec calibrated_device) \<in> {Ph, Do}" by (simp add: calibrated_device_def demo_type)
  have reader: "read_calibration_level (adapter_for (bops demo_ph_platform) (drv demo_ph_platform) (ds_type (ad_spec calibrated_device))) =
      Some (ph_read_calibration_level stub_ops demo_ph_driver)"
    by (simp add: calibrated_device_def demo_type demo_ph_platform_def adapter_for.simps ph_kAdapter_def)
  have "\<not> is_do_calibration kFunctionClearCalibration t" for t by (simp add: is_do_calibration_def function_numbers)
  moreover have "double_of_int 0 = Fin 0" using round_rat_of_int [of 0] by (simp add: double_of_int_def round_double_Fin)
  moreover note calibrated_level_read_after [OF run calibrated_active _ spec calibrated_function(2) _ type ok refl refl] run
  ultimately have "\<exists>d'. active_device ''ph0'' w' = Some d' \<and> calibration_level d' \<in> {None, Some (Fin 0)}"
    by (auto simp: calibrated_function(3) demo_clear_job reader)
  moreover have "calibration_level calibrated_device = Some (Fin 2)" by (simp add: calibrated_device_def)
  ultimately show ?thesis using run by simp
qed

end
