(* ===== verification/Spec2Isabelle.thy ===== *)
theory Spec2Isabelle
  imports Ezo_Linear Ezo_Isolation Ezo_Calibration
begin

text \<open>
  A verification of the Atlas Scientific EZO sensor provider: a process that owns one I2C bus with pH, ORP, EC, DO, RTD and
  humidity probes and serves them to the anolis runtime over the ADPP protocol (\<^verbatim>\<open>src/src\<close>).

  \<^bold>\<open>Parts and theories.\<close> Each theory follows the source files it names, in their order.

  \<^item> \<open>Ezo_Prelude\<close>: machine integers (\<^verbatim>\<open>int\<close> with its wrap-around, unsigned words), truncating division, durations, number
    printing, the first-match update of a vector; \<open>Ezo_Double\<close>: \<^verbatim>\<open>double\<close> as IEEE-754 binary64 over the rationals;
    \<open>Ezo_Text\<close>: \<^verbatim>\<open>strtod\<close>, \<^verbatim>\<open>strtoul\<close>, \<^verbatim>\<open>std::getline\<close> and \<^verbatim>\<open>%.*f\<close>.
  \<^item> \<open>Ezo_Status\<close>: \<^verbatim>\<open>i2c/status.hpp\<close> and the status maps; \<open>Ezo_Config\<close>: \<^verbatim>\<open>config/provider_config.cpp\<close>,
    \<^verbatim>\<open>config/config_schema.cpp\<close> and the intervals derived from a configuration.
  \<^item> \<open>Ezo_Bus\<close>: the bus interface as a record of operations and the locale \<open>i2c_bus\<close>, \<^verbatim>\<open>i2c/noop_i2c_bus.cpp\<close>,
    \<^verbatim>\<open>i2c/ezo_i2c_bridge.cpp\<close>; \<open>Ezo_Driver\<close>: the driver's interface and \<^verbatim>\<open>devices/common/sample_helpers.cpp\<close>;
    \<open>Ezo_Adapters\<close>: \<^verbatim>\<open>devices/*\<close>, every family an interpretation of the locale \<open>family_adapter\<close>.
  \<^item> \<open>Ezo_Executor\<close>: \<^verbatim>\<open>i2c/bus_executor.cpp\<close>, the one worker thread all bus jobs go through; \<open>Ezo_Linear\<close>: the executor
    against a reference without threads.
  \<^item> \<open>Ezo_Capabilities\<close>, \<open>Ezo_State\<close>, \<open>Ezo_Runtime\<close>: \<^verbatim>\<open>core/runtime_state.cpp\<close> (what is advertised; the updates of
    one device; startup and the operations on the global state), \<^verbatim>\<open>core/host_check.cpp\<close>, \<^verbatim>\<open>logging/logger.cpp\<close>.
  \<^item> \<open>Ezo_Calls\<close>, \<open>Ezo_Provider\<close>: \<^verbatim>\<open>core/ezo_provider_runtime.cpp\<close> (control calls; reads, readiness and health);
    \<open>Ezo_Calibration\<close>: calibration through a call, against a contract for the DO probe.
  \<^item> \<open>Ezo_Canned\<close>: \<^verbatim>\<open>i2c/ezo_canned_bus.cpp\<close>, the device behind \<open>mock://\<close>; \<open>Ezo_Link\<close>: the buses of a build behind
    one interface; \<open>Ezo_Main\<close>: \<^verbatim>\<open>core/main.cpp\<close>.
  \<^item> \<open>Ezo_Sections\<close>, \<open>Ezo_Threads\<close>, \<open>Ezo_Parallel\<close>: threads that share a locked state; the operations of the runtime and
    the provider as such threads, cut where the source releases \<^verbatim>\<open>g_mutex\<close>; any number of them at the same time.
  \<^item> \<open>Ezo_Wire\<close>, \<open>Ezo_Addresses\<close>, \<open>Ezo_Isolation\<close>: what reaches the bus. \<open>talk\<close> says how a bus changes when it is spoken to at
    given addresses only; every job of the runtime, every operation and every interleaving speaks at configured addresses.
  \<^item> This theory: the provider as one state machine, and the properties that span the parts.

  \<^bold>\<open>State and effects.\<close> The globals of \<^verbatim>\<open>runtime_state.cpp\<close> are the record \<open>world\<close> (published state, executor, the executors
  already stopped, log, counters of clock readings and jobs); operations on it are \<open>State_Monad\<close> programs. Bus jobs are
  \<open>State_Monad\<close> programs over the bus. Exceptions and error results are sums. The executor has two models: an
  interleaved step relation of any number of callers, the worker and a stopping thread, in which each critical section
  is one step; and \<open>submit\<close>, the view of one call, with a \<open>schedule\<close> that says whether the job is done in time or
  the deadline passes while it is queued, while it runs or while its result is reported. \<open>submit_refines\<close> shows that
  every outcome of the second is a run of the first.
  After a deadline that passes during the job the caller may see the outputs of the abandoned job or not; the data race of
  such a read is not modelled. The runtime has two models as well: the programs run one after the other, as the
  SDK's loop issues them; and the same operations as threads whose sections interleave. There a job is one step, since the
  executor serializes jobs, and \<open>initialize\<close> and \<open>reset\<close> do not take part, since \<^verbatim>\<open>main\<close> runs them before it
  serves. \<open>threads_refine_operations\<close> shows that a thread that is not interrupted is the sequential operation. A
  section is one step, so waiting for the lock is not expressed; the source never takes it twice in one thread.

  \<^bold>\<open>Frames.\<close> What programs leave alone is proved through one family of locales: \<open>frame_order\<close> (a reflexive and transitive
  relation between states) gives the rules for composing programs, and the clients add what their steps do.
  \<open>world_frame\<close> has the operations on the global state and its subclass \<open>device_frame\<close> those on one device, read for other
  devices, fixed parts, retired executors, parts shown to callers and the addresses spoken to; \<open>bus_frame\<close> has the adapters
  and control commands; \<open>shared_account\<close> has the threads.

  \<^bold>\<open>Parameters.\<close> Code outside the repository is an argument: the EZO C driver (\<open>ezo_driver\<close>), yaml-cpp and the SDK's
  validator (\<open>config_api\<close>), the SDK's buses, host checks, clocks and job outcomes (\<open>platform\<close>, \<open>sdk_buses\<close>), its result
  constructors and quality rule (\<open>provider_sdk\<close>), its loop and envelope writers (\<open>main_env\<close>). What is relied on is named:
  \<open>validator_sound\<close> (a valid document meets its declared schema), \<open>i2c_bus\<close> (open opens, close closes, a closed bus
  fails without effect), \<open>driver_addressed\<close> (the EZO driver reaches the bus only through the transport it was given, at
  the address its handle was initialised for), \<open>do_probe\<close> (a DO probe holds, once it has answered success, the value it
  was told as its command prints it), \<open>sdk_refuses\<close> (the SDK's error results are not ok), \<open>loop_contract\<close> (the
  loop changes the state only through requests and runs the shutdown hook last). Each theorem that uses one has a witness with concrete functions.

  \<^bold>\<open>What is shown.\<close>
  \<^item> Executor: jobs begin in submission order and never overlap; every promise is set exactly once and every caller gets its
    own result or its own deadline; every interleaving leaves the bus and answers the callers as running the jobs one at a
    time does; the worker can always finish; \<^verbatim>\<open>stop()\<close> leaves nothing pending; the metrics count exactly the events.
  \<^item> Devices: every family fills one slot per declared signal; tables and advertised capabilities are well-formed; DO
    compensation is written in order up to the first refusal; a command's answer is polled at most five times.
  \<^item> Configuration: a document is loaded exactly when none of the checks fails, the first failing one gives the error, and
    every field holds what the document says or its default.
  \<^item> Runtime: startup activates exactly the devices whose probe answered as the configured product and accounts for
    every other one; a failed refresh keeps the last good sample; levels and compensation shown are the ones last read; lost compensation is sent again exactly when the probe no longer holds it; the
    cadence warning is given exactly once per sustained lag; operations on one device touch no other.
  \<^item> Provider: arguments are accepted exactly when they conform to what is advertised; a refused call causes no bus work;
    an accepted one is recorded once; a DO point is calibrated at the default compensation only, and the level
    published after a successful calibration was read after it; reads serve exactly
    what is published; STALE is reported exactly by the advertised bound.
  \<^item> Mock bus: transactions touch only the addressed device and stay within their buffer; pending answers run out; a
    compensation value it accepted reads back within the tolerance of the provider's check.
  \<^item> Bus addresses: however operations interleave, the bus is spoken to only at addresses of configured devices, and no more
    once it is closed; on the mock bus serving one device leaves the simulated state of every other one as it is.
  \<^item> Parallel operations: an operation whose sections are not interrupted is the sequential one; at every point the devices are consistent and the inventory is the published one; once all are done
    every call is counted once with the outcome it was answered with, and every executor taken out of service is
    closed. The remembered compensation is not covered: it is sent in one section and remembered in
    another, so a check of the same device in between may send the values remembered before.
  \<^item> Program: the check modes touch nothing; on every way out all buses are closed.

  \<^bold>\<open>Bounds.\<close> Recursion is structural or has a measure, and no definition runs on fuel: the response loop counts its polls, as
  the source does. Doubles are exact IEEE values up to the sign of zero and of NaN, without contraction of
  multiply-adds; \<open>Ezo_Canned\<close> bounds compensation values by \<open>100000\<close>, the largest limit the provider accepts. Counters are words
  and wrap. Configuration integers pass through \<open>to_int32\<close>.

  \<^bold>\<open>Not modelled.\<close> Protobuf encoding and the stdio transport (SDK), the text of the \<^verbatim>\<open>--config-schema\<close> envelope (SDK; the
  declared schema itself is), Windows' binary mode, real time spent in delays, and
  \<^verbatim>\<open>devices/common/adapter_result.hpp\<close>, which nothing includes.
\<close>

section \<open>The provider as a state machine\<close>

text \<open>Everything \<^verbatim>\<open>main\<close>, the provider's own operations and the SDK's run loop do to the state.\<close>

datatype provider_op = Do_runtime runtime_op | Do_request request

fun provider_step :: "('b, 'h, 'r) platform \<Rightarrow> 'q provider_sdk \<Rightarrow> provider_op \<Rightarrow> ('b, 'r) world \<Rightarrow> ('b, 'r) world" where
  "provider_step p sdk (Do_runtime op) w = perform p op w"
| "provider_step p sdk (Do_request rq) w = serve p sdk rq w"

interpretation provider: trace_invariant "\<lambda>w. w = initial_world" "\<lambda>w op w'. w' = provider_step p sdk op w" "\<lambda>_. world_ok p"
  for p :: "('b, 'h, 'r) platform" and sdk :: "'q provider_sdk"
proof unfold_locales
  fix w w' :: "('b, 'r) world" and op and ops :: "provider_op list"
  show "w = initial_world \<Longrightarrow> world_ok p w" by (simp add: world_ok_initial)
  show "world_ok p w \<Longrightarrow> w' = provider_step p sdk op w \<Longrightarrow> world_ok p w'"
    by (cases op) (simp_all add: world_ok_perform world_ok_serve)
qed

lemma steps_provider: "steps (\<lambda>w op w'. w' = provider_step p sdk op w) w ops (fold (provider_step p sdk) ops w)"
  by (induction ops rule: rev_induct) (auto intro: steps.intros)

text \<open>
  C7: The invariant of the running provider. After any sequence of starts, stops, resets, refreshes and requests, with
  any answers of the bus and any deadlines, every active device has a slot per signal, its calibration level and
  compensation slots agree with what was last read on demand, and the bus executor is idle between requests,
  so no request can find another's job still queued or running.
\<close>

theorem provider_invariant: "world_ok p (fold (provider_step p sdk) ops initial_world)"
  using provider.good_steps [OF steps_provider] by blast

text \<open>
  C9: Serving one device never touches another. A request for a device changes no other device, nothing that startup fixed for
  the device itself, and neither the inventory, readiness nor any other part of the published state.
\<close>

theorem serving_isolated:
  "other_devices (request_device rq) (serve p sdk rq w) = other_devices (request_device rq) w \<and>
   frame_part (serve p sdk rq w) = frame_part w"
  by (intro conjI others.request_R [OF refl] fixed.request_R [OF refl])

section \<open>Startup as the runtime sees it\<close>

lemma readiness_run:
  "\<exists>init_ms uptime_ms. fst (run_state (readiness p) w) = readiness_report p (snapshot w) init_ms uptime_ms"
  by (auto simp: readiness_def Let_def)

lemma report_accounts:
  assumes "startup_ok p config st ex"
  shows "(rr_ready (readiness_report p st a b) \<longleftrightarrow> successful_device_ids (readiness_report p st a b) \<noteq> []) \<and>
    configured_device_count (readiness_report p st a b) = int (length (devices config)) \<and>
    (if ex = None \<and> host_exit_code p (check_host p config) = 0
     then successful_device_ids (readiness_report p st a b) = [] \<and> failed_devices (readiness_report p st a b) = []
     else mset (successful_device_ids (readiness_report p st a b)) + mset (map fst (failed_devices (readiness_report p st a b))) =
       mset (map ds_id (devices config)))"
proof (cases ex)
  case None
  then show ?thesis
    using assms by (auto simp: startup_ok_def readiness_report_def comp_def multiset.map_comp)
next
  case (Some e)
  then have "mset (map ad_spec (active_devices st)) + mset (map ed_spec (excluded_devices st)) = mset (devices config)"
    using assms by (simp add: startup_ok_def)
  then have "image_mset ds_id (mset (map ad_spec (active_devices st))) + image_mset ds_id (mset (map ed_spec (excluded_devices st))) =
      image_mset ds_id (mset (devices config))"
    by (metis image_mset_union)
  then show ?thesis
    using assms Some by (simp add: startup_ok_def readiness_report_def multiset.map_comp comp_def)
qed

text \<open>
  C30: The readiness report accounts for every configured device. Right after startup the report is ready exactly when it
  lists a working device, and its configured count is the length of the configuration. On a host that meets its
  requirements but whose bus could not be started the report lists no device, neither as working nor as failed. In every
  other case, unmet host requirements included, the ids listed as working and as failed are together exactly the
  configured ids, each as often as it is configured.
\<close>

theorem readiness_accounts:
  "let r = fst (run_state (readiness p) (snd (run_state (initialize p config) w))) in
   (rr_ready r \<longleftrightarrow> successful_device_ids r \<noteq> []) \<and> configured_device_count r = int (length (devices config)) \<and>
   (if host_exit_code p (check_host p config) = 0 \<and> \<not> is_ok (fst (exec_start (bops p) (BusExecutor_new (Some (make_bus p config)))))
    then successful_device_ids r = [] \<and> failed_devices r = []
    else mset (successful_device_ids r) + mset (map fst (failed_devices r)) = mset (map ds_id (devices config)))"
proof -
  define w' where "w' = snd (run_state (initialize p config) w)"
  have "startup_ok p config (g_state w') (g_executor w')" using initialize_ok [of p config w] by (simp add: w'_def)
  then have ok: "startup_ok p config (snapshot w') (g_executor w')"
    by (cases "g_executor w'") (simp_all add: startup_ok_def)
  obtain a b where r: "fst (run_state (readiness p) w') = readiness_report p (snapshot w') a b" using readiness_run by blast
  have unopened: "g_executor w' = None \<and> host_exit_code p (check_host p config) = 0 \<longleftrightarrow>
      host_exit_code p (check_host p config) = 0 \<and> \<not> is_ok (fst (exec_start (bops p) (BusExecutor_new (Some (make_bus p config)))))"
    using initialize_executor [of p config w] by (auto simp: w'_def)
  show ?thesis unfolding w'_def [symmetric] Let_def r using report_accounts [OF ok, of a b] unfolding unopened .
qed

end
